(* ===== verification/P2P_Prelude.thy ===== *)
theory P2P_Prelude
  imports Main "HOL-Library.Word" "HOL-Library.AList" "HOL-Library.Char_ord"
    "HOL-Library.List_Lexorder" "HOL-Library.Multiset"
begin

text \<open>
  Shared vocabulary of the development: bytes and Go strings, the outcome of a Go call that
  returns a \<^verbatim>\<open>core.Result\<close> or panics, the fixed-width integer layouts of \<^verbatim>\<open>encoding/binary\<close>,
  \<^verbatim>\<open>io.ReadFull\<close>, and the two codec interfaces (fixed width, self-delimiting) that the wire
  formats of the repository instantiate.
\<close>

unbundle bit_operations_syntax

named_theorems go_defs \<open>definitions that component proofs unfold together\<close>
named_theorems width_simps \<open>lengths of encoded values\<close>

type_synonym byte = "8 word"
type_synonym bytes = "8 word list"
type_synonym uint16 = "16 word"
type_synonym uint32 = "32 word"
type_synonym uint64 = "64 word"

text \<open>Instants and durations in nanoseconds.\<close>

type_synonym instant = int
type_synonym duration = int

abbreviation second :: duration where "second \<equiv> 1000000000"

section \<open>Errors, panics and results\<close>

text \<open>
  \<open>E op msg cause\<close> is \<^verbatim>\<open>coreerr.E(op, msg, cause)\<close>; \<open>Errorf msg cause\<close> is an error built by
  \<^verbatim>\<open>core.Errorf\<close> or \<^verbatim>\<open>core.NewError\<close>, with the wrapped error if the format has \<^verbatim>\<open>%w\<close>. The two
  \<^verbatim>\<open>io\<close> sentinels are the only errors an in-memory reader returns. \<open>ProtocolError code msg\<close> is the
  error type of \<^verbatim>\<open>src/go/node/protocol.go\<close>. \<open>Foreign s\<close> stands for an error value handed back by
  code outside the repository.
\<close>

datatype go_error =
    E string string "go_error option"
  | Errorf string "go_error option"
  | EOF
  | ErrUnexpectedEOF
  | ProtocolError int string
  | Foreign string

datatype panic =
    IndexOutOfRange
  | MakeSliceLenOutOfRange
  | SendOnClosedChannel
  | CloseOfClosedChannel
  | NilDereference

text \<open>A call either returns \<^verbatim>\<open>core.Ok\<close>, returns \<^verbatim>\<open>core.Fail\<close>, or panics.\<close>

datatype 'a result = Ok 'a | Fail go_error | Panic panic

fun and_then :: "'a result \<Rightarrow> ('a \<Rightarrow> 'b result) \<Rightarrow> 'b result" where
  "and_then (Ok x) f = f x"
| "and_then (Fail e) f = Fail e"
| "and_then (Panic p) f = Panic p"

fun map_err :: "(go_error \<Rightarrow> go_error) \<Rightarrow> 'a result \<Rightarrow> 'a result" where
  "map_err g (Ok x) = Ok x"
| "map_err g (Fail e) = Fail (g e)"
| "map_err g (Panic p) = Panic p"

fun is_Ok :: "'a result \<Rightarrow> bool" where
  "is_Ok (Ok _) = True"
| "is_Ok _ = False"

lemma and_then_cong [fundef_cong]:
  assumes "r = r'" and "\<And>x. r' = Ok x \<Longrightarrow> f x = g x"
  shows "and_then r f = and_then r' g"
  using assms by (cases r') auto

lemma and_then_eq_Ok [simp]: "and_then r f = Ok y \<longleftrightarrow> (\<exists>x. r = Ok x \<and> f x = Ok y)"
  by (cases r) auto

lemma and_then_eq_Panic: "and_then r f = Panic p \<longleftrightarrow> r = Panic p \<or> (\<exists>x. r = Ok x \<and> f x = Panic p)"
  by (cases r) auto

lemma and_then_assoc: "and_then (and_then r f) g = and_then r (\<lambda>x. and_then (f x) g)"
  by (cases r) auto

lemma map_err_eq_Ok [simp]: "map_err g r = Ok x \<longleftrightarrow> r = Ok x"
  by (cases r) auto

lemma map_err_eq_Panic [simp]: "map_err g r = Panic p \<longleftrightarrow> r = Panic p"
  by (cases r) auto

lemma is_Ok_iff: "is_Ok r \<longleftrightarrow> (\<exists>x. r = Ok x)"
  by (cases r) auto

section \<open>Go strings as byte sequences\<close>

text \<open>A Go string is a sequence of bytes; the conversions \<^verbatim>\<open>[]byte(s)\<close> and \<^verbatim>\<open>string(b)\<close> copy it.\<close>

definition bytes_of :: "string \<Rightarrow> bytes" where
  "bytes_of s = map (\<lambda>c. word_of_nat (of_char c)) s"

definition string_of :: "bytes \<Rightarrow> string" where
  "string_of b = map (\<lambda>x. char_of (unat x)) b"

lemma length_bytes_of [simp]: "length (bytes_of s) = length s"
  by (simp add: bytes_of_def)

lemma length_string_of [simp]: "length (string_of b) = length b"
  by (simp add: string_of_def)

lemma string_of_bytes_of [simp]: "string_of (bytes_of s) = s"
proof -
  have "char_of (unat (word_of_nat (of_char c) :: byte)) = c" for c :: char
    using of_char_mod_256 [of c, where ?'a = nat] by (simp add: unat_of_nat)
  then show ?thesis by (simp add: bytes_of_def string_of_def comp_def)
qed

lemma bytes_of_string_of [simp]: "bytes_of (string_of b) = b"
proof -
  have "word_of_nat (of_char (char_of (unat x) :: char)) = x" for x :: byte
    using unsigned_less [of x, where ?'a = nat] by simp
  then show ?thesis by (simp add: bytes_of_def string_of_def comp_def)
qed

text \<open>The two-digit lower-case hexadecimal form that \<^verbatim>\<open>%02x\<close> prints for a byte.\<close>

definition hex_digit :: "nat \<Rightarrow> char" where
  "hex_digit d = ''0123456789abcdef'' ! (d mod 16)"

definition hex2 :: "byte \<Rightarrow> string" where
  "hex2 b = [hex_digit (unat b div 16), hex_digit (unat b)]"

section \<open>encoding/binary\<close>

primrec le_bytes :: "nat \<Rightarrow> nat \<Rightarrow> bytes" where
  "le_bytes 0 x = []"
| "le_bytes (Suc n) x = word_of_nat x # le_bytes n (x div 256)"

primrec le_nat :: "bytes \<Rightarrow> nat" where
  "le_nat [] = 0"
| "le_nat (b # bs) = unat b + 256 * le_nat bs"

lemma length_le_bytes [simp]: "length (le_bytes n x) = n"
  by (induction n arbitrary: x) auto

lemma unat_byte_of_nat: "unat (word_of_nat x :: byte) = x mod 256"
  by (simp add: unat_of_nat)

lemma le_nat_le_bytes: "le_nat (le_bytes n x) = x mod 256 ^ n"
proof (induction n arbitrary: x)
  case (Suc n)
  have "x mod (256 * 256 ^ n) = 256 * (x div 256 mod 256 ^ n) + x mod 256"
    by (rule mod_mult2_eq)
  then show ?case
    by (simp add: Suc.IH unat_byte_of_nat)
qed simp

lemma le_nat_less: "le_nat bs < 256 ^ length bs"
proof (induction bs)
  case (Cons b bs)
  have "unat b < 256" using unsigned_less [of b] by simp
  with Cons.IH have "unat b + 256 * le_nat bs < 256 * 256 ^ length bs"
    by linarith
  then show ?case by simp
qed simp

lemma le_bytes_le_nat: "le_bytes (length bs) (le_nat bs) = bs"
proof (induction bs)
  case (Cons b bs)
  have b: "unat b < 256" using unsigned_less [of b] by simp
  have "(word_of_nat (unat b + 256 * le_nat bs) :: byte) = b"
    by (rule word_unat_eq_iff [THEN iffD2]) (use b in \<open>simp only: unat_byte_of_nat, simp\<close>)
  with b Cons.IH show ?case by simp
qed simp

text \<open>
  \<^verbatim>\<open>binary.LittleEndian.PutUintN\<close> and \<^verbatim>\<open>UintN\<close>, and the big-endian 16-bit pair. The readers
  look at the first N/8 bytes; callers check the length first, as Go's bounds check would panic.
\<close>

definition PutUint16 :: "uint16 \<Rightarrow> bytes" where "PutUint16 v = le_bytes 2 (unat v)"
definition PutUint32 :: "uint32 \<Rightarrow> bytes" where "PutUint32 v = le_bytes 4 (unat v)"
definition PutUint64 :: "uint64 \<Rightarrow> bytes" where "PutUint64 v = le_bytes 8 (unat v)"
definition PutUint16BE :: "uint16 \<Rightarrow> bytes" where "PutUint16BE v = rev (le_bytes 2 (unat v))"

definition Uint16 :: "bytes \<Rightarrow> uint16" where "Uint16 b = word_of_nat (le_nat (take 2 b))"
definition Uint32 :: "bytes \<Rightarrow> uint32" where "Uint32 b = word_of_nat (le_nat (take 4 b))"
definition Uint64 :: "bytes \<Rightarrow> uint64" where "Uint64 b = word_of_nat (le_nat (take 8 b))"
definition Uint16BE :: "bytes \<Rightarrow> uint16" where "Uint16BE b = word_of_nat (le_nat (rev (take 2 b)))"

section \<open>Fixed-width codecs\<close>

text \<open>
  The contract of a fixed-width layout: every value has the same number of bytes, reading back
  what was written gives the value, and a full-width run of bytes is the layout of its reading.
  The array encodings of the storage format are proved once against this interface.
\<close>

locale fixed_codec =
  fixes put :: "'a \<Rightarrow> bytes" and get :: "bytes \<Rightarrow> 'a" and width :: nat
  assumes width_pos: "0 < width"
    and length_put: "length (put v) = width"
    and get_put: "get (put v @ rest) = v"
    and put_get: "length b = width \<Longrightarrow> put (get b) = b"
begin

lemma put_inject: "put v = put w \<longleftrightarrow> v = w"
  by (metis get_put)

lemma length_concat_put: "length (concat (map put vs)) = width * length vs"
  by (induction vs) (simp_all add: length_put)

lemma concat_put_drop:
  assumes "drop off buf = concat (map put (v # vs)) @ rest"
  shows "get (take width (drop off buf)) = v"
    and "drop (off + width) buf = concat (map put vs) @ rest"
    and "off + width \<le> length buf"
proof -
  have "take width (drop off buf) = put v @ []"
    using assms by (simp add: length_put)
  then show "get (take width (drop off buf)) = v"
    using get_put [of v "[]"] by simp
  have "drop (off + width) buf = drop width (drop off buf)"
    by (simp add: add.commute)
  also have "\<dots> = concat (map put vs) @ rest"
    unfolding assms by (simp add: length_put)
  finally show "drop (off + width) buf = concat (map put vs) @ rest" .
  have "width \<le> length (drop off buf)"
    unfolding assms by (simp add: length_put)
  then show "off + width \<le> length buf" using width_pos by simp
qed

end

lemma take_PutUint [simp]:
  "take 2 (PutUint16 v @ rest) = PutUint16 v"
  "take 4 (PutUint32 w @ rest) = PutUint32 w"
  "take 8 (PutUint64 x @ rest) = PutUint64 x"
  "take 2 (PutUint16BE v @ rest) = PutUint16BE v"
  by (simp_all add: PutUint16_def PutUint32_def PutUint64_def PutUint16BE_def)

lemma word_of_le_nat_le_bytes:
  "(256::nat) ^ n = 2 ^ LENGTH('a::len) \<Longrightarrow> (word_of_nat (le_nat (le_bytes n (unat (w :: 'a word)))) :: 'a word) = w"
  using unsigned_less [of w, where ?'a = nat] by (simp add: le_nat_le_bytes)

lemma le_bytes_word_of_le_nat:
  assumes "(256::nat) ^ length b = 2 ^ LENGTH('a::len)"
  shows "le_bytes (length b) (unat (word_of_nat (le_nat b) :: 'a word)) = b"
  using le_nat_less [of b] assms le_bytes_le_nat [of b] by (simp add: unat_of_nat)

interpretation u16: fixed_codec PutUint16 Uint16 2
proof
  fix b :: bytes assume "length b = 2"
  then show "PutUint16 (Uint16 b) = b"
    using le_bytes_word_of_le_nat [of b, where ?'a = 16] by (simp add: PutUint16_def Uint16_def)
qed (simp_all add: Uint16_def, simp_all add: PutUint16_def word_of_le_nat_le_bytes)

interpretation u32: fixed_codec PutUint32 Uint32 4
proof
  fix b :: bytes assume "length b = 4"
  then show "PutUint32 (Uint32 b) = b"
    using le_bytes_word_of_le_nat [of b, where ?'a = 32] by (simp add: PutUint32_def Uint32_def)
qed (simp_all add: Uint32_def, simp_all add: PutUint32_def word_of_le_nat_le_bytes)

interpretation u64: fixed_codec PutUint64 Uint64 8
proof
  fix b :: bytes assume "length b = 8"
  then show "PutUint64 (Uint64 b) = b"
    using le_bytes_word_of_le_nat [of b, where ?'a = 64] by (simp add: PutUint64_def Uint64_def)
qed (simp_all add: Uint64_def, simp_all add: PutUint64_def word_of_le_nat_le_bytes)

interpretation be16: fixed_codec PutUint16BE Uint16BE 2
proof
  fix b :: bytes assume b: "length b = 2"
  have "le_bytes 2 (unat (word_of_nat (le_nat (rev b)) :: uint16)) = rev b"
    using le_bytes_word_of_le_nat [of "rev b", where ?'a = 16] b by simp
  with b show "PutUint16BE (Uint16BE b) = b"
    by (simp add: PutUint16BE_def Uint16BE_def)
qed (simp_all add: Uint16BE_def, simp_all add: PutUint16BE_def word_of_le_nat_le_bytes)

lemmas codec_lengths [simp, width_simps] =
  u16.length_put u32.length_put u64.length_put be16.length_put
lemmas codec_gets [simp] = u16.get_put u32.get_put u64.get_put be16.get_put

section \<open>io.ReadFull on an in-memory stream\<close>

text \<open>
  \<^verbatim>\<open>io.ReadFull(r, buf)\<close> with \<open>len(buf) = n\<close>: the bytes read and the rest of the stream, or
  the error (\<^verbatim>\<open>EOF\<close> when nothing was read, \<^verbatim>\<open>ErrUnexpectedEOF\<close> after a partial read) with the
  stream drained.
\<close>

definition ReadFull :: "nat \<Rightarrow> bytes \<Rightarrow> bytes result \<times> bytes" where
  "ReadFull n r =
     (if n \<le> length r then (Ok (take n r), drop n r)
      else if r = [] then (Fail EOF, [])
      else (Fail ErrUnexpectedEOF, []))"

definition ReadByte :: "bytes \<Rightarrow> byte result \<times> bytes" where
  "ReadByte r = (case r of [] \<Rightarrow> (Fail EOF, []) | b # r' \<Rightarrow> (Ok b, r'))"

lemma ReadFull_append [simp]: "length b = n \<Longrightarrow> ReadFull n (b @ r) = (Ok b, r)"
  by (simp add: ReadFull_def)

lemma ReadFull_Ok_iff:
  "ReadFull n r = (Ok b, r') \<longleftrightarrow> r = b @ r' \<and> length b = n"
  by (auto simp: ReadFull_def)

lemma ReadFull_no_Panic [simp]: "fst (ReadFull n r) \<noteq> Panic p"
  by (simp add: ReadFull_def)

lemma ReadByte_simps [simp]: "ReadByte (b # r) = (Ok b, r)" "ReadByte [] = (Fail EOF, [])"
  by (simp_all add: ReadByte_def)

section \<open>Calls that change state\<close>

text \<open>
  A method that mutates its receiver takes the state and returns its result with the new state;
  \<open>cmd_then\<close> runs a second call after a successful first one, an error or a panic ends the method.
\<close>

type_synonym ('s, 'a) cmd = "'s \<Rightarrow> 'a result \<times> 's"

definition cmd_then :: "('s, 'a) cmd \<Rightarrow> ('a \<Rightarrow> ('s, 'b) cmd) \<Rightarrow> ('s, 'b) cmd" where
  "cmd_then m f s =
     (case m s of
        (Ok x, s') \<Rightarrow> f x s'
      | (Fail e, s') \<Rightarrow> (Fail e, s')
      | (Panic p, s') \<Rightarrow> (Panic p, s'))"

definition of_result :: "'a result \<Rightarrow> ('s, 'a) cmd" where
  "of_result r s = (r, s)"

lemma cmd_then_simps [simp]:
  "m s = (Ok x, s') \<Longrightarrow> cmd_then m f s = f x s'"
  "m s = (Fail e, s') \<Longrightarrow> cmd_then m f s = (Fail e, s')"
  "m s = (Panic p, s') \<Longrightarrow> cmd_then m f s = (Panic p, s')"
  by (simp_all add: cmd_then_def)

lemma cmd_then_OkE:
  assumes "cmd_then m f s = (Ok y, t)"
  obtains x s' where "m s = (Ok x, s')" and "f x s' = (Ok y, t)"
  using assms by (auto simp: cmd_then_def split: prod.splits result.splits)

lemma cmd_then_PanicE:
  assumes "cmd_then m f s = (Panic p, t)"
  obtains "m s = (Panic p, t)" | x s' where "m s = (Ok x, s')" and "f x s' = (Panic p, t)"
  using assms by (auto simp: cmd_then_def split: prod.splits result.splits)

lemma of_result_simp [simp]: "of_result r s = (r, s)"
  by (simp add: of_result_def)

section \<open>Lists\<close>

lemma drop_append_shift:
  "drop off buf = xs @ rest \<Longrightarrow> drop (off + length xs) buf = rest"
  by (metis add.commute append_eq_conv_conj drop_drop)

lemma drop_Cons_nth:
  assumes "drop off buf = x # rest"
  shows "off < length buf" and "buf ! off = x" and "drop (Suc off) buf = rest"
proof -
  show "off < length buf" using assms by (cases "off < length buf") auto
  then show "buf ! off = x" using assms by (simp add: nth_via_drop)
  show "drop (Suc off) buf = rest" using assms by (metis drop_Suc list.sel(3) tl_drop)
qed

lemma sort_key_fst_mset_eq:
  assumes "mset xs = mset ys" and "distinct (map fst xs)"
  shows "sort_key fst xs = sort_key fst ys"
proof (rule sort_key_inj_key_eq)
  show "mset xs = mset (sort_key fst ys)" using assms(1) by simp
  show "inj_on fst (set xs)" using assms(2) by (simp add: distinct_map)
  show "sorted (map fst (sort_key fst ys))" by simp
qed

section \<open>Iterators\<close>

text \<open>
  Go's \<^verbatim>\<open>iter.Seq\<close> as the loop it runs: the loop body tells whether to go on and changes its own state.
  \<open>range_over\<close> ranges over the elements of a list; \<open>seq_collect\<close> is \<^verbatim>\<open>slices.Collect\<close>.
\<close>

type_synonym ('a, 's) seq = "('a \<Rightarrow> 's \<Rightarrow> bool \<times> 's) \<Rightarrow> 's \<Rightarrow> 's"

fun range_over :: "'a list \<Rightarrow> ('a, 's) seq" where
  "range_over [] yield s = s"
| "range_over (x # xs) yield s = (let (continues, s') = yield x s in if continues then range_over xs yield s' else s')"

definition seq_collect :: "('a, 'a list) seq \<Rightarrow> 'a list" where
  "seq_collect seq = seq (\<lambda>x acc. (True, acc @ [x])) []"

lemma range_over_all: "(\<And>x s. yield x s = (True, f x s)) \<Longrightarrow> range_over xs yield s = fold f xs s"
  by (induction xs arbitrary: s) simp_all

lemma fold_snoc: "fold (\<lambda>x acc. acc @ [x]) xs acc = acc @ xs"
  by (induction xs arbitrary: acc) simp_all

lemma seq_collect_range [simp]: "seq_collect (range_over xs) = xs"
  by (simp add: seq_collect_def range_over_all [where f = "\<lambda>x acc. acc @ [x]"] fold_snoc)

lemma range_over_filter:
  "range_over (filter P xs) yield s = range_over xs (\<lambda>x s. if P x then yield x s else (True, s)) s"
  by (induction xs arbitrary: s) (auto split: prod.split)

text \<open>A loop that breaks at the first element with a property has seen nothing after it.\<close>

lemma range_over_break:
  "range_over xs (\<lambda>x seen. (\<not> P x, seen @ [x])) seen =
     seen @ takeWhile (Not \<circ> P) xs @ take 1 (dropWhile (Not \<circ> P) xs)"
  by (induction xs arbitrary: seen) simp_all

section \<open>Self-delimiting codecs\<close>

text \<open>
  \<open>dec_loop dec buf off n acc\<close> is the shape of the array loops of the storage decoder: \<open>n\<close> times
  decode an element at offset \<open>off\<close> of \<open>buf\<close>, append it and advance by what it consumed.
\<close>

fun dec_loop :: "(bytes \<Rightarrow> ('a \<times> nat) result) \<Rightarrow> bytes \<Rightarrow> nat \<Rightarrow> nat \<Rightarrow> 'a list \<Rightarrow> ('a list \<times> nat) result" where
  "dec_loop dec buf off 0 acc = Ok (acc, off)"
| "dec_loop dec buf off (Suc n) acc =
     and_then (dec (drop off buf)) (\<lambda>(v, k). dec_loop dec buf (off + k) n (acc @ [v]))"

lemma dec_loop_cong [fundef_cong]:
  assumes "buf = buf'" and "off = off'" and "n = n'" and "acc = acc'"
    and "\<And>b. length b \<le> length buf' \<Longrightarrow> dec b = dec' b"
  shows "dec_loop dec buf off n acc = dec_loop dec' buf' off' n' acc'"
proof -
  have "dec_loop dec buf' off' n' acc' = dec_loop dec' buf' off' n' acc'"
    using assms(5) by (induction n' arbitrary: off' acc') (auto intro!: and_then_cong)
  with assms(1-4) show ?thesis by simp
qed

text \<open>What the loop keeps: the element count, the offset bound, and a predicate on the elements.\<close>

lemma dec_loop_Ok:
  assumes "dec_loop dec buf off n acc = Ok (vs, off')" and "off \<le> length buf"
    and "\<And>b v k. length b \<le> length buf \<Longrightarrow> dec b = Ok (v, k) \<Longrightarrow> k \<le> length b \<and> P v"
    and "list_all P acc"
  shows "length vs = length acc + n \<and> off \<le> off' \<and> off' \<le> length buf \<and> list_all P vs"
  using assms(1,2,4)
proof (induction n arbitrary: off acc)
  case (Suc n)
  then obtain v k where d: "dec (drop off buf) = Ok (v, k)"
    and rec: "dec_loop dec buf (off + k) n (acc @ [v]) = Ok (vs, off')"
    by auto
  from assms(3) [OF _ d] Suc.prems have k: "off + k \<le> length buf" and "list_all P (acc @ [v])"
    by auto
  from Suc.IH [OF rec this] show ?case by auto
qed simp

lemma dec_loop_Panic:
  assumes "dec_loop dec buf off n acc = Panic p"
  shows "\<exists>b. length b \<le> length buf \<and> dec b = Panic p"
  using assms
proof (induction n arbitrary: off acc)
  case (Suc n)
  then consider "dec (drop off buf) = Panic p"
    | v k where "dec_loop dec buf (off + k) n (acc @ [v]) = Panic p"
    by (auto simp: and_then_eq_Panic)
  then show ?case
    by cases (auto intro: Suc.IH exI [of _ "drop off buf"])
qed simp

text \<open>
  The contract of a self-delimiting encoding of the values that satisfy \<open>valid\<close>: decoding what
  was encoded, whatever follows it, gives the value back (in its normal form \<open>norm\<close>) and consumes
  exactly its bytes.
\<close>

locale prefix_codec =
  fixes valid :: "'a \<Rightarrow> bool" and norm :: "'a \<Rightarrow> 'b"
    and enc :: "'a \<Rightarrow> bytes" and dec :: "bytes \<Rightarrow> ('b \<times> nat) result"
  assumes dec_enc: "valid v \<Longrightarrow> dec (enc v @ rest) = Ok (norm v, length (enc v))"
begin

lemma prefix_free:
  assumes "valid v" and "valid w" and "enc v @ r = enc w @ r'"
  shows "norm v = norm w \<and> enc v = enc w \<and> r = r'"
proof -
  from assms have "Ok (norm v, length (enc v)) = Ok (norm w, length (enc w))"
    by (metis dec_enc)
  with assms(3) show ?thesis by auto
qed

lemma dec_loop_enc:
  assumes "list_all valid vs" and "drop off buf = concat (map enc vs) @ rest"
  shows "dec_loop dec buf off (length vs) acc
       = Ok (acc @ map norm vs, off + length (concat (map enc vs)))"
  using assms
proof (induction vs arbitrary: off acc)
  case (Cons v vs)
  have "dec (drop off buf) = Ok (norm v, length (enc v))"
    using Cons.prems by (simp add: dec_enc)
  moreover have "drop (off + length (enc v)) buf = concat (map enc vs) @ rest"
    using Cons.prems(2) by (intro drop_append_shift) simp
  ultimately show ?case
    using Cons.prems(1) Cons.IH [of "off + length (enc v)" "acc @ [norm v]"]
    by (simp add: add.assoc)
qed simp

end

section \<open>Association lists\<close>

lemma update_fresh: "k \<notin> fst ` set al \<Longrightarrow> AList.update k v al = al @ [(k, v)]"
  by (induction al) auto

lemma set_update_subset: "set (AList.update k v al) \<subseteq> insert (k, v) (set al)"
  by (induction al) auto

end
