(* ===== verification/Levin_Varint.thy ===== *)
theory Levin_Varint
  imports P2P_Prelude
begin

text \<open>
  The variable-width integers of the epee portable storage format,
  \<^verbatim>\<open>src/go/node/levin/varint.go\<close>: the low two bits of the first byte give the width (1, 2, 4 or
  8 bytes) and the remaining bits carry the value in little-endian order.
\<close>

text \<open>Go's untyped constants are used both at \<^verbatim>\<open>byte\<close> and at \<^verbatim>\<open>uint64\<close>, hence at any width here.\<close>

definition varintMask :: "'a::len word" where "varintMask = 3"
definition varintMark1 :: "'a::len word" where "varintMark1 = 0"
definition varintMark2 :: "'a::len word" where "varintMark2 = 1"
definition varintMark4 :: "'a::len word" where "varintMark4 = 2"
definition varintMark8 :: "'a::len word" where "varintMark8 = 3"
definition varintMax1 :: uint64 where "varintMax1 = 63"
definition varintMax2 :: uint64 where "varintMax2 = 16383"
definition varintMax4 :: uint64 where "varintMax4 = 1073741823"
definition varintMax8 :: uint64 where "varintMax8 = 4611686018427387903"

lemmas varint_consts =
  varintMask_def varintMark1_def varintMark2_def varintMark4_def varintMark8_def
  varintMax1_def varintMax2_def varintMax4_def varintMax8_def

definition ErrVarintTruncated :: go_error where
  "ErrVarintTruncated = E ''levin'' ''truncated varint'' None"

definition ErrVarintOverflow :: go_error where
  "ErrVarintOverflow = E ''levin'' ''varint overflow'' None"

record unpackVarintResult =
  uvValue :: uint64
  uvBytesConsumed :: nat

definition PackVarint :: "uint64 \<Rightarrow> bytes" where
  "PackVarint v =
     (if v \<le> varintMax1 then [ucast (push_bit 2 v OR varintMark1)]
      else if v \<le> varintMax2 then PutUint16 (ucast (push_bit 2 v OR varintMark2))
      else if v \<le> varintMax4 then PutUint32 (ucast (push_bit 2 v OR varintMark4))
      else PutUint64 (push_bit 2 v OR varintMark8))"

definition UnpackVarint :: "bytes \<Rightarrow> unpackVarintResult result" where
  "UnpackVarint buf =
     (if length buf = 0 then Fail ErrVarintTruncated
      else let mark = buf ! 0 AND varintMask in
        if mark = varintMark1 then
          Ok \<lparr>uvValue = drop_bit 2 (ucast (buf ! 0)), uvBytesConsumed = 1\<rparr>
        else if mark = varintMark2 then
          (if length buf < 2 then Fail ErrVarintTruncated
           else Ok \<lparr>uvValue = drop_bit 2 (ucast (Uint16 (take 2 buf))), uvBytesConsumed = 2\<rparr>)
        else if mark = varintMark4 then
          (if length buf < 4 then Fail ErrVarintTruncated
           else Ok \<lparr>uvValue = drop_bit 2 (ucast (Uint32 (take 4 buf))), uvBytesConsumed = 4\<rparr>)
        else if mark = varintMark8 then
          (if length buf < 8 then Fail ErrVarintTruncated
           else Ok \<lparr>uvValue = drop_bit 2 (Uint64 (take 8 buf)), uvBytesConsumed = 8\<rparr>)
        else Fail ErrVarintTruncated)"

section \<open>Shifting in the size mark is \<open>4 * v + mark\<close>\<close>

lemma push_bit_2_or_eq_add:
  assumes m: "take_bit 2 m = (m :: uint64)"
  shows "push_bit 2 v OR m = 4 * v + m"
proof -
  have "\<not> bit m n" if "2 \<le> n" for n
    using that by (subst m [symmetric]) (simp add: bit_take_bit_iff)
  then have "push_bit 2 v AND m = 0"
    by (intro bit_eqI) (auto simp: bit_and_iff bit_push_bit_iff)
  then have "push_bit 2 v + m = push_bit 2 v OR m"
    by (rule disjunctive_add_eq_or)
  then show ?thesis by (simp add: push_bit_eq_mult mult.commute)
qed

lemma pack_word:
  "push_bit 2 v OR varintMark1 = 4 * v"
  "push_bit 2 v OR varintMark2 = 4 * v + 1"
  "push_bit 2 v OR varintMark4 = 4 * v + 2"
  "push_bit 2 v OR varintMark8 = 4 * v + (3 :: uint64)"
  using push_bit_2_or_eq_add [of 0 v] push_bit_2_or_eq_add [of 1 v]
    push_bit_2_or_eq_add [of 2 v] push_bit_2_or_eq_add [of 3 v]
  by (simp_all add: varint_consts)

lemma unat_four_times_add:
  assumes "unat v < 2 ^ 62" and "unat m < 4"
  shows "unat (4 * v + m :: uint64) = 4 * unat v + unat m"
proof -
  have "unat (4 * v) = 4 * unat v"
    using assms by (simp add: unat_word_ariths)
  then show ?thesis
    using assms by (simp add: unat_word_ariths)
qed

lemma mark_of_byte: "unat (b AND varintMask :: byte) = unat b mod 4"
proof -
  have "mask 2 = (3 :: byte)" by (simp add: mask_eq_exp_minus_1)
  then have "b AND 3 = take_bit 2 b" by (simp add: take_bit_eq_mask)
  then show ?thesis
    by (simp add: varintMask_def take_bit_eq_mod unat_mod)
qed

lemma mark_of_packed:
  "word_of_nat (4 * n + k) AND varintMask = (word_of_nat k :: byte)" if "k < 4" for n k :: nat
proof (rule word_unat_eq_iff [THEN iffD2])
  have "(4 * n + k) mod 256 mod 4 = (4 * n + k) mod 4" by (rule mod_mod_cancel) simp
  also have "\<dots> = k" using that by simp
  also have "\<dots> = k mod 256" using that by simp
  finally show "unat (word_of_nat (4 * n + k) AND varintMask :: byte) = unat (word_of_nat k :: byte)"
    by (simp only: mark_of_byte unat_byte_of_nat)
qed

section \<open>Reading and writing in terms of natural numbers\<close>

lemma unat_varint_thresholds:
  "v \<le> varintMax1 \<longleftrightarrow> unat v < 2 ^ 6"
  "v \<le> varintMax2 \<longleftrightarrow> unat v < 2 ^ 14"
  "v \<le> varintMax4 \<longleftrightarrow> unat v < 2 ^ 30"
  "v \<le> varintMax8 \<longleftrightarrow> unat v < 2 ^ 62"
  by (auto simp: varint_consts word_le_nat_alt)

lemma ucast_eq_of_nat: "ucast w = word_of_nat (unat w)"
  by simp

lemma PackVarint_nat:
  assumes "unat v < 2 ^ 62"
  shows "PackVarint v =
    (if unat v < 2 ^ 6 then le_bytes 1 (4 * unat v)
     else if unat v < 2 ^ 14 then le_bytes 2 (4 * unat v + 1)
     else if unat v < 2 ^ 30 then le_bytes 4 (4 * unat v + 2)
     else le_bytes 8 (4 * unat v + 3))"
proof -
  have u: "unat (4 * v) = 4 * unat v" "unat (4 * v + 1) = 4 * unat v + 1"
    "unat (4 * v + 2) = 4 * unat v + 2" "unat (4 * v + 3) = 4 * unat v + 3"
    using unat_four_times_add [OF assms, of 0] unat_four_times_add [OF assms, of 1]
      unat_four_times_add [OF assms, of 2] unat_four_times_add [OF assms, of 3] by simp_all
  have c: "(ucast (4 * v) :: byte) = word_of_nat (4 * unat v)"
    by (simp only: ucast_eq_of_nat u)
  have d: "unat v < 2 ^ 14 \<Longrightarrow> unat (ucast (4 * v + 1) :: uint16) = 4 * unat v + 1"
    "unat v < 2 ^ 30 \<Longrightarrow> unat (ucast (4 * v + 2) :: uint32) = 4 * unat v + 2"
    by (simp_all only: ucast_eq_of_nat u unat_of_nat) simp_all
  show ?thesis
    unfolding PackVarint_def pack_word unat_varint_thresholds PutUint16_def PutUint32_def
      PutUint64_def c u
    using d by (simp del: power_numeral)
qed

lemma nth0_le_bytes: "0 < n \<Longrightarrow> (le_bytes n x @ rest) ! 0 = word_of_nat x"
  by (cases n) auto

lemma drop_bit_2_of_nat:
  "x < 2 ^ 62 \<Longrightarrow> k < 4 \<Longrightarrow> drop_bit 2 (word_of_nat (4 * x + k) :: uint64) = word_of_nat x"
  by (rule word_unat_eq_iff [THEN iffD2])
    (simp only: unat_drop_bit_eq unat_of_nat, simp add: drop_bit_eq_div)

lemma Uint_le_bytes:
  "x < 2 ^ 16 \<Longrightarrow> (ucast (Uint16 (le_bytes 2 x)) :: uint64) = word_of_nat x"
  "x < 2 ^ 32 \<Longrightarrow> (ucast (Uint32 (le_bytes 4 x)) :: uint64) = word_of_nat x"
  "x < 2 ^ 64 \<Longrightarrow> Uint64 (le_bytes 8 x) = word_of_nat x"
  by (simp_all only: Uint16_def Uint32_def Uint64_def take_all length_le_bytes le_nat_le_bytes
      ucast_eq_of_nat order_refl unat_of_nat) simp_all

lemma UnpackVarint_nat:
  assumes "x < 2 ^ 62"
  shows "x < 2 ^ 6 \<Longrightarrow> UnpackVarint (le_bytes 1 (4 * x) @ rest)
           = Ok \<lparr>uvValue = word_of_nat x, uvBytesConsumed = 1\<rparr>"
    and "x < 2 ^ 14 \<Longrightarrow> UnpackVarint (le_bytes 2 (4 * x + 1) @ rest)
           = Ok \<lparr>uvValue = word_of_nat x, uvBytesConsumed = 2\<rparr>"
    and "x < 2 ^ 30 \<Longrightarrow> UnpackVarint (le_bytes 4 (4 * x + 2) @ rest)
           = Ok \<lparr>uvValue = word_of_nat x, uvBytesConsumed = 4\<rparr>"
    and "UnpackVarint (le_bytes 8 (4 * x + 3) @ rest)
           = Ok \<lparr>uvValue = word_of_nat x, uvBytesConsumed = 8\<rparr>"
proof -
  have marks: "word_of_nat (4 * x) AND varintMask = (0 :: byte)"
    "word_of_nat (4 * x + 1) AND varintMask = (1 :: byte)"
    "word_of_nat (4 * x + 2) AND varintMask = (2 :: byte)"
    "word_of_nat (4 * x + 3) AND varintMask = (3 :: byte)"
    using mark_of_packed [of 0 x] mark_of_packed [of 1 x] mark_of_packed [of 2 x] mark_of_packed [of 3 x]
    by (simp_all del: of_nat_add of_nat_mult of_nat_Suc) simp_all
  note vals = drop_bit_2_of_nat [OF assms, of 0] drop_bit_2_of_nat [OF assms, of 1]
    drop_bit_2_of_nat [OF assms, of 2] drop_bit_2_of_nat [OF assms, of 3]
  show "UnpackVarint (le_bytes 1 (4 * x) @ rest) = Ok \<lparr>uvValue = word_of_nat x, uvBytesConsumed = 1\<rparr>"
    if "x < 2 ^ 6"
  proof -
    have "(ucast (word_of_nat (4 * x) :: byte) :: uint64) = word_of_nat (4 * x)"
      using that by (simp only: ucast_eq_of_nat unat_byte_of_nat) simp
    then show ?thesis
      using marks(1) vals(1)
      by (simp add: UnpackVarint_def Let_def varintMark1_def del: le_bytes.simps power_numeral
          add: nth0_le_bytes)
  qed
  show "UnpackVarint (le_bytes 2 (4 * x + 1) @ rest) = Ok \<lparr>uvValue = word_of_nat x, uvBytesConsumed = 2\<rparr>"
    if "x < 2 ^ 14"
    using that marks(2) vals(2) Uint_le_bytes(1) [of "4 * x + 1"]
    by (simp add: UnpackVarint_def Let_def varint_consts nth0_le_bytes del: of_nat_add of_nat_Suc of_nat_mult)
  show "UnpackVarint (le_bytes 4 (4 * x + 2) @ rest) = Ok \<lparr>uvValue = word_of_nat x, uvBytesConsumed = 4\<rparr>"
    if "x < 2 ^ 30"
    using that marks(3) vals(3) Uint_le_bytes(2) [of "4 * x + 2"]
    by (simp add: UnpackVarint_def Let_def varint_consts nth0_le_bytes del: of_nat_add of_nat_Suc of_nat_mult)
  show "UnpackVarint (le_bytes 8 (4 * x + 3) @ rest) = Ok \<lparr>uvValue = word_of_nat x, uvBytesConsumed = 8\<rparr>"
    using assms marks(4) vals(4) Uint_le_bytes(3) [of "4 * x + 3"]
    by (simp add: UnpackVarint_def Let_def varint_consts nth0_le_bytes del: of_nat_add of_nat_Suc of_nat_mult)
qed

section \<open>Properties\<close>

lemma UnpackVarint_PackVarint:
  assumes "v \<le> varintMax8"
  shows "UnpackVarint (PackVarint v @ rest)
       = Ok \<lparr>uvValue = v, uvBytesConsumed = length (PackVarint v)\<rparr>"
proof -
  have v: "unat v < 2 ^ 62" using assms by (simp only: unat_varint_thresholds)
  have w: "word_of_nat (unat v) = v" by simp
  consider "unat v < 2 ^ 6" | "\<not> unat v < 2 ^ 6" "unat v < 2 ^ 14"
    | "\<not> unat v < 2 ^ 6" "\<not> unat v < 2 ^ 14" "unat v < 2 ^ 30"
    | "\<not> unat v < 2 ^ 6" "\<not> unat v < 2 ^ 14" "\<not> unat v < 2 ^ 30" by blast
  then show ?thesis
    by cases (simp_all only: PackVarint_nat [OF v] UnpackVarint_nat [OF v] w if_True if_False
        length_le_bytes)
qed

text \<open>The decoder as a self-delimiting codec of the encodable values.\<close>

definition dec_varint :: "bytes \<Rightarrow> (uint64 \<times> nat) result" where
  "dec_varint buf = and_then (UnpackVarint buf) (\<lambda>r. Ok (uvValue r, uvBytesConsumed r))"

interpretation varint: prefix_codec "\<lambda>v. v \<le> varintMax8" id PackVarint dec_varint
  by unfold_locales (simp add: dec_varint_def UnpackVarint_PackVarint)

lemma length_PackVarint:
  "length (PackVarint v) =
     (if v \<le> varintMax1 then 1 else if v \<le> varintMax2 then 2 else if v \<le> varintMax4 then 4 else 8)"
  by (simp add: PackVarint_def)

lemma PackVarint_nonempty [simp]: "PackVarint v \<noteq> []"
  using length_PackVarint [of v] by (auto split: if_splits)

lemma UnpackVarint_no_Panic [simp]: "UnpackVarint buf \<noteq> Panic p"
  by (simp add: UnpackVarint_def Let_def)

lemma UnpackVarint_consumed:
  assumes "UnpackVarint buf = Ok r"
  shows "uvBytesConsumed r \<in> {1, 2, 4, 8} \<and> uvBytesConsumed r \<le> length buf"
  using assms by (auto simp: UnpackVarint_def Let_def split: if_splits) (cases buf, simp_all)

lemma drop_bit_2_le_max: "drop_bit 2 (w :: uint64) \<le> varintMax8"
proof -
  have "unat (drop_bit 2 w) < 2 ^ 62"
    using unsigned_less [of w, where ?'a = nat] by (simp only: unat_drop_bit_eq) (simp add: drop_bit_eq_div)
  then show ?thesis by (simp only: unat_varint_thresholds)
qed

lemma UnpackVarint_bounds:
  assumes "UnpackVarint buf = Ok r"
  shows "uvValue r \<le> varintMax8"
  using assms by (auto simp: UnpackVarint_def Let_def drop_bit_2_le_max split: if_splits)

text \<open>
  C31. Varint round trip: every value up to \<^verbatim>\<open>varintMax8\<close> is decoded back from its encoding,
  whatever bytes follow, and the decoder consumes exactly the encoded bytes.
\<close>

theorem varint_roundtrip:
  assumes "v \<le> varintMax8"
  shows "UnpackVarint (PackVarint v @ rest)
       = Ok \<lparr>uvValue = v, uvBytesConsumed = length (PackVarint v)\<rparr>"
  by (rule UnpackVarint_PackVarint [OF assms])

theorem varint_roundtrip_witness:
  "UnpackVarint (PackVarint 300 @ [7]) = Ok \<lparr>uvValue = 300, uvBytesConsumed = 2\<rparr>"
proof -
  have "(300 :: uint64) \<le> varintMax8" by (simp add: varint_consts)
  from varint_roundtrip [OF this, of "[7]"] show ?thesis
    by (simp add: length_PackVarint varint_consts)
qed

lemma drop_bit_2_word_of_nat:
  "x < 2 ^ 64 \<Longrightarrow> drop_bit 2 (word_of_nat x :: uint64) = word_of_nat (x div 4)"
  by (rule word_unat_eq_iff [THEN iffD2])
    (simp only: unat_drop_bit_eq unat_of_nat, simp add: drop_bit_eq_div)

lemma le_nat_take_less: "k \<le> length b \<Longrightarrow> le_nat (take k b) < 256 ^ k"
  using le_nat_less [of "take k b"] by simp

lemma unpacked_values:
  "b \<noteq> [] \<Longrightarrow> drop_bit 2 (ucast (b ! 0) :: uint64) = word_of_nat (le_nat (take 1 b) div 4)"
  "2 \<le> length b \<Longrightarrow> drop_bit 2 (ucast (Uint16 (take 2 b)) :: uint64) = word_of_nat (le_nat (take 2 b) div 4)"
  "4 \<le> length b \<Longrightarrow> drop_bit 2 (ucast (Uint32 (take 4 b)) :: uint64) = word_of_nat (le_nat (take 4 b) div 4)"
  "8 \<le> length b \<Longrightarrow> drop_bit 2 (Uint64 (take 8 b)) = word_of_nat (le_nat (take 8 b) div 4)"
proof -
  show "drop_bit 2 (ucast (b ! 0) :: uint64) = word_of_nat (le_nat (take 1 b) div 4)" if ne: "b \<noteq> []"
  proof -
    obtain x xs where b: "b = x # xs" using ne by (cases b) auto
    have "unat x < 2 ^ 64" using unsigned_less [of x, where ?'a = nat] by simp
    from drop_bit_2_word_of_nat [OF this] show ?thesis
      unfolding b by (simp only: ucast_eq_of_nat) simp
  qed
  show "drop_bit 2 (ucast (Uint16 (take 2 b)) :: uint64) = word_of_nat (le_nat (take 2 b) div 4)"
    if "2 \<le> length b"
  proof -
    have "(ucast (Uint16 (take 2 b)) :: uint64) = word_of_nat (le_nat (take 2 b))"
      using le_nat_take_less [OF that]
      by (simp only: ucast_eq_of_nat Uint16_def unat_of_nat take_take) simp
    with le_nat_take_less [OF that] show ?thesis
      using drop_bit_2_word_of_nat [of "le_nat (take 2 b)"] by simp
  qed
  show "drop_bit 2 (ucast (Uint32 (take 4 b)) :: uint64) = word_of_nat (le_nat (take 4 b) div 4)"
    if "4 \<le> length b"
  proof -
    have "(ucast (Uint32 (take 4 b)) :: uint64) = word_of_nat (le_nat (take 4 b))"
      using le_nat_take_less [OF that]
      by (simp only: ucast_eq_of_nat Uint32_def unat_of_nat take_take) simp
    with le_nat_take_less [OF that] show ?thesis
      using drop_bit_2_word_of_nat [of "le_nat (take 4 b)"] by simp
  qed
  show "drop_bit 2 (Uint64 (take 8 b)) = word_of_nat (le_nat (take 8 b) div 4)"
    if "8 \<le> length b"
    using le_nat_take_less [OF that] drop_bit_2_word_of_nat [of "le_nat (take 8 b)"]
    by (simp add: Uint64_def)
qed

lemma mark_eq_iff:
  "b AND varintMask = varintMark1 \<longleftrightarrow> unat (b :: byte) mod 4 = 0"
  "b AND varintMask = varintMark2 \<longleftrightarrow> unat (b :: byte) mod 4 = 1"
  "b AND varintMask = varintMark4 \<longleftrightarrow> unat (b :: byte) mod 4 = 2"
  "b AND varintMask = varintMark8 \<longleftrightarrow> unat (b :: byte) mod 4 = 3"
  by (simp_all add: word_unat_eq_iff mark_of_byte varintMark1_def varintMark2_def varintMark4_def varintMark8_def)

text \<open>
  C32. The decoder against a reference: the width is two to the power of the low two bits of the
  first byte; with fewer bytes than that the result is \<^verbatim>\<open>ErrVarintTruncated\<close>, otherwise the value
  is the little-endian number in those bytes divided by four. In particular the unreachable
  \<^verbatim>\<open>default\<close> branch of the source is never taken.
\<close>

theorem UnpackVarint_reference:
  "UnpackVarint buf =
     (if buf = [] then Fail ErrVarintTruncated
      else
        let w = 2 ^ (unat (buf ! 0) mod 4) in
        if length buf < w then Fail ErrVarintTruncated
        else Ok \<lparr>uvValue = word_of_nat (le_nat (take w buf) div 4), uvBytesConsumed = w\<rparr>)"
proof (cases "buf = []")
  case False
  have "unat (buf ! 0) mod 4 < 4" by simp
  then consider "unat (buf ! 0) mod 4 = 0" | "unat (buf ! 0) mod 4 = 1"
    | "unat (buf ! 0) mod 4 = 2" | "unat (buf ! 0) mod 4 = 3"
    by linarith
  then show ?thesis
    by cases (use False in \<open>simp_all add: UnpackVarint_def Let_def mark_eq_iff not_less unpacked_values\<close>)
qed (simp add: UnpackVarint_def)

text \<open>
  \<^verbatim>\<open>PackVarint\<close> has no overflow check: for a value above \<^verbatim>\<open>varintMax8\<close> the two top bits are
  shifted out, so what is decoded is the value modulo two to the power of 62 and no error is
  reported (\<^verbatim>\<open>ErrVarintOverflow\<close> is never returned).
\<close>

theorem PackVarint_overflow_truncates:
  assumes "varintMax8 < v"
  shows "UnpackVarint (PackVarint v)
       = Ok \<lparr>uvValue = word_of_nat (unat v mod 2 ^ 62), uvBytesConsumed = 8\<rparr>"
proof -
  have big: "\<not> v \<le> varintMax8" using assms by simp
  then have thr: "\<not> v \<le> varintMax1" "\<not> v \<le> varintMax2" "\<not> v \<le> varintMax4"
    by (simp_all add: unat_varint_thresholds)
  let ?x = "unat v mod 2 ^ 62"
  have "unat (4 * v + 3) = (4 * unat v + 3) mod 2 ^ 64"
    by (simp add: unat_word_ariths mod_add_left_eq)
  also have "\<dots> = 4 * ?x + 3"
  proof -
    obtain q where q: "unat v = 2 ^ 62 * q + ?x" by (metis mult_div_mod_eq)
    have "4 * unat v + 3 = 2 ^ 64 * q + (4 * ?x + 3)" by (subst q) simp
    moreover have "4 * ?x + 3 < 2 ^ 64"
      using mod_less_divisor [of "2 ^ 62" "unat v"] by simp
    ultimately show ?thesis by (metis mod_less mod_mult_self4)
  qed
  finally have "PackVarint v = le_bytes 8 (4 * ?x + 3)"
    using thr by (simp only: PackVarint_def if_False pack_word PutUint64_def)
  then show ?thesis
    using UnpackVarint_nat(4) [of ?x "[]"] by simp
qed

theorem PackVarint_overflow_truncates_witness:
  "UnpackVarint (PackVarint 4611686018427387904) = Ok \<lparr>uvValue = 0, uvBytesConsumed = 8\<rparr>"
proof -
  have "varintMax8 < 4611686018427387904" by (simp add: varint_consts)
  from PackVarint_overflow_truncates [OF this] show ?thesis by simp
qed

end
