(* ===== verification/Levin_Header.thy ===== *)
theory Levin_Header
  imports P2P_Prelude
begin

text \<open>
  The 33-byte packed header that prefixes every Levin message,
  \<^verbatim>\<open>src/go/node/levin/header.go\<close>: the record, its little-endian layout, and the decoder with its
  signature and size checks. A Go \<^verbatim>\<open>int32\<close> is the 32-bit word that represents it.
\<close>

definition HeaderSize :: nat where "HeaderSize = 33"
definition SignatureMagic :: uint64 where "SignatureMagic = 0x0101010101012101"
definition MaxPayloadSize :: uint64 where "MaxPayloadSize = 100 * 1024 * 1024"

definition ReturnOK :: uint32 where "ReturnOK = 0"
definition ReturnErrConnection :: uint32 where "ReturnErrConnection = -1"
definition ReturnErrFormat :: uint32 where "ReturnErrFormat = -7"
definition ReturnErrSignature :: uint32 where "ReturnErrSignature = -13"

definition ErrBadSignature :: go_error where
  "ErrBadSignature = E ''levin'' ''bad signature'' None"

definition ErrPayloadTooBig :: go_error where
  "ErrPayloadTooBig = E ''levin'' ''payload exceeds maximum size'' None"

record Header =
  Signature :: uint64
  PayloadSize :: uint64
  ExpectResponse :: bool
  Command :: uint32
  ReturnCode :: uint32
  Flags :: uint32
  ProtocolVersion :: uint32

definition EncodeHeader :: "Header \<Rightarrow> bytes" where
  "EncodeHeader h =
     PutUint64 (Signature h) @ PutUint64 (PayloadSize h)
     @ (if ExpectResponse h then [0x01] else [0x00])
     @ PutUint32 (Command h) @ PutUint32 (ReturnCode h)
     @ PutUint32 (Flags h) @ PutUint32 (ProtocolVersion h)"

text \<open>\<open>slice i j buf\<close> is Go's \<^verbatim>\<open>buf[i:j]\<close>.\<close>

definition slice :: "nat \<Rightarrow> nat \<Rightarrow> bytes \<Rightarrow> bytes" where
  "slice i j buf = take (j - i) (drop i buf)"

definition DecodeHeader :: "bytes \<Rightarrow> Header result" where
  "DecodeHeader buf =
     (let sig = Uint64 (slice 0 8 buf) in
      if sig \<noteq> SignatureMagic then Fail ErrBadSignature
      else let size = Uint64 (slice 8 16 buf) in
        if size > MaxPayloadSize then Fail ErrPayloadTooBig
        else Ok \<lparr>Signature = sig, PayloadSize = size,
                 ExpectResponse = (buf ! 16 = 0x01),
                 Command = Uint32 (slice 17 21 buf),
                 ReturnCode = Uint32 (slice 21 25 buf),
                 Flags = Uint32 (slice 25 29 buf),
                 ProtocolVersion = Uint32 (slice 29 33 buf)\<rparr>)"

section \<open>The layout\<close>

lemma length_EncodeHeader [simp, width_simps]: "length (EncodeHeader h) = HeaderSize"
  by (simp add: EncodeHeader_def HeaderSize_def)

lemma slice_drop: "slice (k + i) (k + j) buf = slice i j (drop k buf)"
  by (simp add: slice_def add.commute)

lemma slice_EncodeHeader:
  "Uint64 (slice 0 8 (EncodeHeader h)) = Signature h"
  "Uint64 (slice 8 16 (EncodeHeader h)) = PayloadSize h"
  "EncodeHeader h ! 16 = 0x01 \<longleftrightarrow> ExpectResponse h"
  "Uint32 (slice 17 21 (EncodeHeader h)) = Command h"
  "Uint32 (slice 21 25 (EncodeHeader h)) = ReturnCode h"
  "Uint32 (slice 25 29 (EncodeHeader h)) = Flags h"
  "Uint32 (slice 29 33 (EncodeHeader h)) = ProtocolVersion h"
  using u64.get_put [of _ "[]"] u32.get_put [of _ "[]"]
  by (simp_all add: EncodeHeader_def slice_def nth_append del: codec_gets)

lemma DecodeHeader_EncodeHeader:
  "DecodeHeader (EncodeHeader h) =
     (if Signature h \<noteq> SignatureMagic then Fail ErrBadSignature
      else if PayloadSize h > MaxPayloadSize then Fail ErrPayloadTooBig
      else Ok h)"
  by (simp add: DecodeHeader_def slice_EncodeHeader Let_def)

lemma DecodeHeader_OkD:
  assumes "DecodeHeader buf = Ok h"
  shows "Signature h = SignatureMagic" and "PayloadSize h \<le> MaxPayloadSize"
  using assms by (auto simp: DecodeHeader_def Let_def split: if_splits)

lemma DecodeHeader_no_Panic [simp]: "DecodeHeader buf \<noteq> Panic p"
  by (simp add: DecodeHeader_def Let_def)

section \<open>Properties\<close>

text \<open>
  C33. Header round trip on every branch: a serialised header is 33 bytes; decoding it reports a
  wrong magic value, then an oversized payload, and otherwise returns exactly the header.
\<close>

theorem header_roundtrip:
  "length (EncodeHeader h) = HeaderSize
   \<and> DecodeHeader (EncodeHeader h) =
       (if Signature h \<noteq> SignatureMagic then Fail ErrBadSignature
        else if PayloadSize h > MaxPayloadSize then Fail ErrPayloadTooBig
        else Ok h)"
  by (simp add: DecodeHeader_EncodeHeader)

end
