(* ===== verification/Levin_Connection.thy ===== *)
theory Levin_Connection
  imports Levin_Header
begin

text \<open>
  Framed packet I/O over a network connection, \<^verbatim>\<open>src/go/node/levin/connection.go\<close>. The
  \<^verbatim>\<open>net.Conn\<close> is a record of what the methods observe of it: the bytes that can still be read and
  the error reported after them, the bytes written so far, how each coming \<^verbatim>\<open>Write\<close> call ends, and
  whether the deadline calls fail. A separate step relation models several goroutines that call
  \<^verbatim>\<open>writeFrame\<close> at once.
\<close>

definition FlagRequest :: uint32 where "FlagRequest = 0x00000001"
definition FlagResponse :: uint32 where "FlagResponse = 0x00000002"
definition LevinProtocolVersion :: uint32 where "LevinProtocolVersion = 1"

text \<open>Durations and instants are nanoseconds.\<close>

definition DefaultReadTimeout :: int where "DefaultReadTimeout = 120 * 10 ^ 9"
definition DefaultWriteTimeout :: int where "DefaultWriteTimeout = 30 * 10 ^ 9"

section \<open>The network connection\<close>

record net_conn =
  inbox :: bytes
  readEnd :: go_error
  outbox :: bytes
  writeOutcomes :: "(nat \<times> go_error) option list"
  readDeadline :: int
  writeDeadline :: int
  readDeadlineErr :: "go_error option"
  writeDeadlineErr :: "go_error option"

definition SetReadDeadline :: "int \<Rightarrow> (net_conn, unit) cmd" where
  "SetReadDeadline t n =
     (case readDeadlineErr n of
        Some e \<Rightarrow> (Fail e, n)
      | None \<Rightarrow> (Ok (), n\<lparr>readDeadline := t\<rparr>))"

definition SetWriteDeadline :: "int \<Rightarrow> (net_conn, unit) cmd" where
  "SetWriteDeadline t n =
     (case writeDeadlineErr n of
        Some e \<Rightarrow> (Fail e, n)
      | None \<Rightarrow> (Ok (), n\<lparr>writeDeadline := t\<rparr>))"

text \<open>One \<^verbatim>\<open>Write\<close>: all bytes, or the first \<open>k\<close> of them and an error.\<close>

definition ConnWrite :: "bytes \<Rightarrow> (net_conn, unit) cmd" where
  "ConnWrite b n =
     (case writeOutcomes n of
        Some (k, e) # os \<Rightarrow> (Fail e, n\<lparr>outbox := outbox n @ take k b, writeOutcomes := os\<rparr>)
      | None # os \<Rightarrow> (Ok (), n\<lparr>outbox := outbox n @ b, writeOutcomes := os\<rparr>)
      | [] \<Rightarrow> (Ok (), n\<lparr>outbox := outbox n @ b\<rparr>))"

text \<open>\<^verbatim>\<open>io.ReadFull(conn, buf)\<close>: an end of stream after a partial read is \<^verbatim>\<open>ErrUnexpectedEOF\<close>.\<close>

definition ConnReadFull :: "nat \<Rightarrow> (net_conn, bytes) cmd" where
  "ConnReadFull k n =
     (if k \<le> length (inbox n) then (Ok (take k (inbox n)), n\<lparr>inbox := drop k (inbox n)\<rparr>)
      else if inbox n \<noteq> [] \<and> readEnd n = EOF then (Fail ErrUnexpectedEOF, n\<lparr>inbox := []\<rparr>)
      else (Fail (readEnd n), n\<lparr>inbox := []\<rparr>))"

section \<open>Connection\<close>

record Connection =
  connMaxPayloadSize :: uint64
  ReadTimeout :: int
  WriteTimeout :: int
  conn :: net_conn

record readPacketResult =
  rpHeader :: Header
  rpPayload :: bytes

definition NewConnection :: "net_conn \<Rightarrow> Connection" where
  "NewConnection n =
     \<lparr>connMaxPayloadSize = MaxPayloadSize, ReadTimeout = DefaultReadTimeout,
      WriteTimeout = DefaultWriteTimeout, conn = n\<rparr>"

definition on_conn :: "(net_conn, 'a) cmd \<Rightarrow> (Connection, 'a) cmd" where
  "on_conn m c = (case m (conn c) of (r, n) \<Rightarrow> (r, c\<lparr>conn := n\<rparr>))"

definition writeFrame :: "int \<Rightarrow> Header \<Rightarrow> bytes \<Rightarrow> (Connection, unit) cmd" where
  "writeFrame now h payload c =
     cmd_then (on_conn (SetWriteDeadline (now + WriteTimeout c))) (\<lambda>_.
     cmd_then (on_conn (ConnWrite (EncodeHeader h))) (\<lambda>_.
       if length payload > 0 then on_conn (ConnWrite payload) else of_result (Ok ()))) c"

definition request_header :: "uint32 \<Rightarrow> bytes \<Rightarrow> bool \<Rightarrow> Header" where
  "request_header cmd payload expectResponse =
     \<lparr>Signature = SignatureMagic, PayloadSize = word_of_nat (length payload),
      ExpectResponse = expectResponse, Command = cmd, ReturnCode = ReturnOK,
      Flags = FlagRequest, ProtocolVersion = LevinProtocolVersion\<rparr>"

definition response_header :: "uint32 \<Rightarrow> bytes \<Rightarrow> uint32 \<Rightarrow> Header" where
  "response_header cmd payload returnCode =
     \<lparr>Signature = SignatureMagic, PayloadSize = word_of_nat (length payload),
      ExpectResponse = False, Command = cmd, ReturnCode = returnCode,
      Flags = FlagResponse, ProtocolVersion = LevinProtocolVersion\<rparr>"

definition WritePacket :: "int \<Rightarrow> uint32 \<Rightarrow> bytes \<Rightarrow> bool \<Rightarrow> (Connection, unit) cmd" where
  "WritePacket now cmd payload expectResponse =
     writeFrame now (request_header cmd payload expectResponse) payload"

definition WriteResponse :: "int \<Rightarrow> uint32 \<Rightarrow> bytes \<Rightarrow> uint32 \<Rightarrow> (Connection, unit) cmd" where
  "WriteResponse now cmd payload returnCode =
     writeFrame now (response_header cmd payload returnCode) payload"

definition ReadPacket :: "int \<Rightarrow> (Connection, readPacketResult) cmd" where
  "ReadPacket now c =
     cmd_then (on_conn (SetReadDeadline (now + ReadTimeout c))) (\<lambda>_.
     cmd_then (on_conn (ConnReadFull HeaderSize)) (\<lambda>hdrBuf.
     cmd_then (of_result (DecodeHeader hdrBuf)) (\<lambda>h c'.
       if PayloadSize h > connMaxPayloadSize c' then (Fail ErrPayloadTooBig, c')
       else if PayloadSize h = 0 then (Ok \<lparr>rpHeader = h, rpPayload = []\<rparr>, c')
       else cmd_then (on_conn (ConnReadFull (unat (PayloadSize h))))
              (\<lambda>payload. of_result (Ok \<lparr>rpHeader = h, rpPayload = payload\<rparr>)) c'))) c"

section \<open>What the calls do\<close>

definition healthy :: "net_conn \<Rightarrow> bool" where
  "healthy n \<longleftrightarrow> writeOutcomes n = [] \<and> readDeadlineErr n = None \<and> writeDeadlineErr n = None"

lemma on_conn_simps [simp]:
  "m (conn c) = (r, n) \<Longrightarrow> on_conn m c = (r, c\<lparr>conn := n\<rparr>)"
  by (simp add: on_conn_def)

lemma ConnReadFull_append [simp]:
  "inbox n = b @ rest \<Longrightarrow> length b = k \<Longrightarrow> ConnReadFull k n = (Ok b, n\<lparr>inbox := rest\<rparr>)"
  by (simp add: ConnReadFull_def)

lemma ConnReadFull_OkD:
  "ConnReadFull k n = (Ok b, n') \<Longrightarrow> inbox n = b @ inbox n' \<and> length b = k"
  by (auto simp: ConnReadFull_def split: if_splits)

lemma writeFrame_healthy:
  assumes "healthy (conn c)"
  shows "writeFrame now h payload c =
     (Ok (), c\<lparr>conn := (conn c)\<lparr>outbox := outbox (conn c) @ EncodeHeader h @ payload,
                                 writeDeadline := now + WriteTimeout c\<rparr>\<rparr>)"
  using assms
  by (simp add: writeFrame_def healthy_def SetWriteDeadline_def ConnWrite_def)

lemma ReadPacket_frame:
  assumes "readDeadlineErr (conn c) = None"
    and "inbox (conn c) = EncodeHeader h @ payload @ rest"
    and "Signature h = SignatureMagic" and "PayloadSize h \<le> MaxPayloadSize"
    and "PayloadSize h \<le> connMaxPayloadSize c" and "unat (PayloadSize h) = length payload"
  shows "ReadPacket now c =
     (Ok \<lparr>rpHeader = h, rpPayload = payload\<rparr>,
      c\<lparr>conn := (conn c)\<lparr>readDeadline := now + ReadTimeout c, inbox := rest\<rparr>\<rparr>)"
proof -
  have "PayloadSize h = 0 \<longleftrightarrow> payload = []"
    using assms(6) by (metis length_0_conv unat_0_iff)
  with assms show ?thesis
    by (simp add: ReadPacket_def SetReadDeadline_def DecodeHeader_EncodeHeader not_less)
qed

section \<open>Request streams\<close>

text \<open>A client that issues several requests, and a server loop that reads several packets.\<close>

fun send_requests :: "int \<Rightarrow> (uint32 \<times> bytes \<times> bool) list \<Rightarrow> (Connection, unit) cmd" where
  "send_requests now [] c = (Ok (), c)"
| "send_requests now ((cmd, payload, er) # rs) c =
     cmd_then (WritePacket now cmd payload er) (\<lambda>_. send_requests now rs) c"

fun read_packets :: "int \<Rightarrow> nat \<Rightarrow> (Connection, readPacketResult list) cmd" where
  "read_packets now 0 c = (Ok [], c)"
| "read_packets now (Suc k) c =
     cmd_then (ReadPacket now) (\<lambda>p.
     cmd_then (read_packets now k) (\<lambda>ps. of_result (Ok (p # ps)))) c"

fun request_packet :: "uint32 \<times> bytes \<times> bool \<Rightarrow> readPacketResult" where
  "request_packet (cmd, payload, er) = \<lparr>rpHeader = request_header cmd payload er, rpPayload = payload\<rparr>"

definition packet_bytes :: "readPacketResult \<Rightarrow> bytes" where
  "packet_bytes p = EncodeHeader (rpHeader p) @ rpPayload p"

lemma send_requests_healthy:
  assumes "healthy (conn c)"
  shows "\<exists>c'. send_requests now rs c = (Ok (), c')
     \<and> outbox (conn c') = outbox (conn c) @ concat (map (\<lambda>r. packet_bytes (request_packet r)) rs)"
  using assms
proof (induction rs arbitrary: c)
  case (Cons r rs)
  obtain cmd payload er where r: "r = (cmd, payload, er)" by (cases r) auto
  let ?c = "c\<lparr>conn := (conn c)\<lparr>outbox := outbox (conn c) @ packet_bytes (request_packet r),
                                writeDeadline := now + WriteTimeout c\<rparr>\<rparr>"
  have w: "WritePacket now cmd payload er c = (Ok (), ?c)"
    using writeFrame_healthy [OF Cons.prems] by (simp add: WritePacket_def packet_bytes_def r)
  have "healthy (conn ?c)" using Cons.prems by (simp add: healthy_def)
  from Cons.IH [OF this] show ?case
    by (auto simp: r w)
qed simp

lemma request_header_size:
  assumes "length payload \<le> unat MaxPayloadSize"
  shows "unat (PayloadSize (request_header cmd payload er)) = length payload"
    and "PayloadSize (request_header cmd payload er) \<le> MaxPayloadSize"
    and "Signature (request_header cmd payload er) = SignatureMagic"
proof -
  show u: "unat (PayloadSize (request_header cmd payload er)) = length payload"
    using assms by (simp add: request_header_def unat_of_nat MaxPayloadSize_def)
  show "PayloadSize (request_header cmd payload er) \<le> MaxPayloadSize"
    using assms by (simp only: word_le_nat_alt u)
qed (simp add: request_header_def)

lemma read_packets_stream:
  assumes "readDeadlineErr (conn c) = None" and "connMaxPayloadSize c = MaxPayloadSize"
    and "\<forall>(cmd, payload, er) \<in> set rs. length payload \<le> unat MaxPayloadSize"
    and "inbox (conn c) = concat (map (\<lambda>r. packet_bytes (request_packet r)) rs) @ rest"
  shows "\<exists>c'. read_packets now (length rs) c = (Ok (map request_packet rs), c') \<and> inbox (conn c') = rest"
  using assms
proof (induction rs arbitrary: c)
  case (Cons r rs)
  obtain cmd payload er where r: "r = (cmd, payload, er)" by (cases r) auto
  note size = request_header_size [of payload cmd er]
  have len: "length payload \<le> unat MaxPayloadSize" using Cons.prems(3) r by auto
  let ?rest = "concat (map (\<lambda>r. packet_bytes (request_packet r)) rs) @ rest"
  let ?c = "c\<lparr>conn := (conn c)\<lparr>readDeadline := now + ReadTimeout c, inbox := ?rest\<rparr>\<rparr>"
  have "ReadPacket now c = (Ok (request_packet r), ?c)"
    using Cons.prems size [OF len] by (simp add: r packet_bytes_def ReadPacket_frame)
  moreover obtain c' where "read_packets now (length rs) ?c = (Ok (map request_packet rs), c')"
    and "inbox (conn c') = rest"
    using Cons.IH [of ?c] Cons.prems by auto
  ultimately show ?case by auto
qed simp

text \<open>
  C22. Stream framing: whatever requests are written on a working connection, a peer that reads
  the written bytes packet by packet gets the same headers and payloads in the same order and
  leaves whatever follows them unread.
\<close>

theorem levin_request_stream:
  assumes "healthy (conn a)" and "outbox (conn a) = []"
    and "\<forall>(cmd, payload, er) \<in> set rs. length payload \<le> unat MaxPayloadSize"
    and "send_requests now rs a = (Ok (), a')"
    and "inbox n = outbox (conn a') @ rest" and "readDeadlineErr n = None"
  shows "\<exists>b'. read_packets now' (length rs) (NewConnection n) = (Ok (map request_packet rs), b')
              \<and> inbox (conn b') = rest"
proof (rule read_packets_stream)
  show "inbox (conn (NewConnection n)) = concat (map (\<lambda>r. packet_bytes (request_packet r)) rs) @ rest"
    using send_requests_healthy [OF assms(1), of now rs] assms(2,4,5) by (auto simp: NewConnection_def)
qed (use assms(3,6) in \<open>simp_all add: NewConnection_def\<close>)

definition idle_conn :: "bytes \<Rightarrow> net_conn" where
  "idle_conn b = \<lparr>inbox = b, readEnd = EOF, outbox = [], writeOutcomes = [], readDeadline = 0,
                   writeDeadline = 0, readDeadlineErr = None, writeDeadlineErr = None\<rparr>"

theorem levin_request_stream_witness:
  "\<exists>a' b'. send_requests 0 [(1001, [1, 2], True), (1003, [], False)] (NewConnection (idle_conn [])) = (Ok (), a')
    \<and> read_packets 5 2 (NewConnection (idle_conn (outbox (conn a') @ [9])))
        = (Ok [request_packet (1001, [1, 2], True), request_packet (1003, [], False)], b')
    \<and> inbox (conn b') = [9]"
proof -
  let ?a = "NewConnection (idle_conn [])"
  let ?rs = "[(1001, [1, 2], True), (1003, [], False)] :: (uint32 \<times> bytes \<times> bool) list"
  have h: "healthy (conn ?a)" "outbox (conn ?a) = []"
    by (simp_all add: NewConnection_def idle_conn_def healthy_def)
  have s: "\<forall>(cmd, payload, er) \<in> set ?rs. length payload \<le> unat MaxPayloadSize"
    by (simp add: MaxPayloadSize_def)
  obtain a' where a': "send_requests 0 ?rs ?a = (Ok (), a')"
    using send_requests_healthy [OF h(1)] by blast
  have two: "length ?rs = 2" by simp
  have "\<exists>b'. read_packets 5 2 (NewConnection (idle_conn (outbox (conn a') @ [9])))
      = (Ok (map request_packet ?rs), b') \<and> inbox (conn b') = [9]"
    by (rule levin_request_stream [OF h s a', unfolded two]) (simp_all add: idle_conn_def)
  with a' show ?thesis by (simp del: send_requests.simps read_packets.simps request_packet.simps)
qed

lemma on_conn_OkE:
  assumes "on_conn m c = (Ok x, c')"
  obtains n where "m (conn c) = (Ok x, n)" and "c' = c\<lparr>conn := n\<rparr>"
  using assms by (auto simp: on_conn_def split: prod.splits)

lemma ReadPacket_OkE:
  assumes "ReadPacket now c = (Ok r, c')"
  obtains hdr h n where "inbox (conn c) = hdr @ inbox n" and "length hdr = HeaderSize"
    and "DecodeHeader hdr = Ok h" and "PayloadSize h \<le> connMaxPayloadSize c"
    and "PayloadSize h = 0 \<and> r = \<lparr>rpHeader = h, rpPayload = []\<rparr> \<and> conn c' = n
      \<or> (\<exists>b. ConnReadFull (unat (PayloadSize h)) n = (Ok b, conn c') \<and> r = \<lparr>rpHeader = h, rpPayload = b\<rparr>)"
proof -
  from assms obtain c1 hdr c2 h where
    1: "on_conn (SetReadDeadline (now + ReadTimeout c)) c = (Ok (), c1)"
    and 2: "on_conn (ConnReadFull HeaderSize) c1 = (Ok hdr, c2)"
    and 3: "DecodeHeader hdr = Ok h"
    and 4: "(if PayloadSize h > connMaxPayloadSize c2 then (Fail ErrPayloadTooBig, c2)
       else if PayloadSize h = 0 then (Ok \<lparr>rpHeader = h, rpPayload = []\<rparr>, c2)
       else cmd_then (on_conn (ConnReadFull (unat (PayloadSize h))))
              (\<lambda>payload. of_result (Ok \<lparr>rpHeader = h, rpPayload = payload\<rparr>)) c2) = (Ok r, c')"
    unfolding ReadPacket_def by (elim cmd_then_OkE) (auto elim: that)
  from 1 have c1: "inbox (conn c1) = inbox (conn c)" "connMaxPayloadSize c1 = connMaxPayloadSize c"
    by (auto elim!: on_conn_OkE simp: SetReadDeadline_def split: option.splits)
  from 2 have c2: "inbox (conn c1) = hdr @ inbox (conn c2)" "length hdr = HeaderSize"
    "connMaxPayloadSize c2 = connMaxPayloadSize c1"
    by (auto elim!: on_conn_OkE dest!: ConnReadFull_OkD)
  from 4 c1 c2 show thesis
    by (intro that [of hdr "conn c2" h])
      (auto simp: 3 not_less elim!: cmd_then_OkE on_conn_OkE split: if_splits)
qed

text \<open>
  C23. What a successful read returns: the magic signature, a payload of exactly the announced
  size, which is within both the package limit and the connection's own limit, and the bytes
  taken off the stream are the 33 header bytes followed by the payload. The read never panics.
\<close>

theorem ReadPacket_safe:
  "(\<forall>p c'. ReadPacket now c \<noteq> (Panic p, c'))
   \<and> (\<forall>r c'. ReadPacket now c = (Ok r, c') \<longrightarrow>
        Signature (rpHeader r) = SignatureMagic
        \<and> length (rpPayload r) = unat (PayloadSize (rpHeader r))
        \<and> PayloadSize (rpHeader r) \<le> MaxPayloadSize
        \<and> PayloadSize (rpHeader r) \<le> connMaxPayloadSize c
        \<and> (\<exists>hdr. length hdr = HeaderSize \<and> DecodeHeader hdr = Ok (rpHeader r)
                  \<and> inbox (conn c) = hdr @ rpPayload r @ inbox (conn c')))"
proof (intro conjI allI impI)
  fix p c' show "ReadPacket now c \<noteq> (Panic p, c')"
    by (auto simp: ReadPacket_def cmd_then_def on_conn_def SetReadDeadline_def ConnReadFull_def
        split: option.splits result.splits if_splits)
next
  fix r c' assume "ReadPacket now c = (Ok r, c')"
  then obtain hdr h n where
    hdr: "inbox (conn c) = hdr @ inbox n" "length hdr = HeaderSize" "DecodeHeader hdr = Ok h"
    and lim: "PayloadSize h \<le> connMaxPayloadSize c"
    and fin: "PayloadSize h = 0 \<and> r = \<lparr>rpHeader = h, rpPayload = []\<rparr> \<and> conn c' = n
      \<or> (\<exists>b. ConnReadFull (unat (PayloadSize h)) n = (Ok b, conn c') \<and> r = \<lparr>rpHeader = h, rpPayload = b\<rparr>)"
    by (rule ReadPacket_OkE)
  from fin have "rpHeader r = h \<and> length (rpPayload r) = unat (PayloadSize h)
     \<and> inbox n = rpPayload r @ inbox (conn c')"
    by (elim disjE conjE exE) (simp_all add: ConnReadFull_OkD [THEN conjunct1] ConnReadFull_OkD [THEN conjunct2])
  with hdr lim DecodeHeader_OkD [OF hdr(3)]
  show "Signature (rpHeader r) = SignatureMagic"
    and "length (rpPayload r) = unat (PayloadSize (rpHeader r))"
    and "PayloadSize (rpHeader r) \<le> MaxPayloadSize"
    and "PayloadSize (rpHeader r) \<le> connMaxPayloadSize c"
    and "\<exists>hdr. length hdr = HeaderSize \<and> DecodeHeader hdr = Ok (rpHeader r)
       \<and> inbox (conn c) = hdr @ rpPayload r @ inbox (conn c')"
    by auto
qed

theorem ReadPacket_safe_witness:
  "\<exists>r c'. ReadPacket 0 (NewConnection (idle_conn (packet_bytes (request_packet (1001, [1, 2], True)))))
       = (Ok r, c')
     \<and> length (rpPayload r) = unat (PayloadSize (rpHeader r)) \<and> PayloadSize (rpHeader r) \<le> MaxPayloadSize"
proof -
  let ?c = "NewConnection (idle_conn (packet_bytes (request_packet (1001, [1, 2], True))))"
  have "length [1, 2 :: byte] \<le> unat MaxPayloadSize" by (simp add: MaxPayloadSize_def)
  note size = request_header_size [OF this, of 1001 True]
  obtain r c' where "ReadPacket 0 ?c = (Ok r, c')"
    using ReadPacket_frame [of ?c "request_header 1001 [1, 2] True" "[1, 2]" "[]" 0] size
    by (auto simp: NewConnection_def idle_conn_def packet_bytes_def)
  then show ?thesis
    using ReadPacket_safe [of 0 ?c] by blast
qed

section \<open>Concurrent writers\<close>

text \<open>
  Several goroutines call \<^verbatim>\<open>writeFrame\<close> on one connection: each waits for \<^verbatim>\<open>writeMu\<close>, writes the
  header, writes the payload, and releases the mutex on return. \<open>order\<close> records the frames in the
  order in which their writers took the mutex.
\<close>

datatype writer =
    Waiting Header bytes
  | HoldsLock Header bytes
  | HeaderWritten Header bytes
  | PayloadWritten Header bytes
  | Returned

record writers =
  writeMu :: "nat option"
  threads :: "nat \<Rightarrow> writer"
  wire :: bytes
  order :: "(Header \<times> bytes) list"

inductive writer_step :: "writers \<Rightarrow> writers \<Rightarrow> bool" where
  lock: "threads s i = Waiting h p \<Longrightarrow> writeMu s = None \<Longrightarrow>
    writer_step s (s\<lparr>writeMu := Some i, threads := (threads s)(i := HoldsLock h p), order := order s @ [(h, p)]\<rparr>)"
| write_header: "threads s i = HoldsLock h p \<Longrightarrow>
    writer_step s (s\<lparr>threads := (threads s)(i := HeaderWritten h p), wire := wire s @ EncodeHeader h\<rparr>)"
| write_payload: "threads s i = HeaderWritten h p \<Longrightarrow> length p > 0 \<Longrightarrow>
    writer_step s (s\<lparr>threads := (threads s)(i := PayloadWritten h p), wire := wire s @ p\<rparr>)"
| skip_payload: "threads s i = HeaderWritten h p \<Longrightarrow> length p = 0 \<Longrightarrow>
    writer_step s (s\<lparr>threads := (threads s)(i := PayloadWritten h p)\<rparr>)"
| unlock: "threads s i = PayloadWritten h p \<Longrightarrow>
    writer_step s (s\<lparr>writeMu := None, threads := (threads s)(i := Returned)\<rparr>)"
| call: "threads s i = Returned \<Longrightarrow>
    writer_step s (s\<lparr>threads := (threads s)(i := Waiting h p)\<rparr>)"

inductive writers_reachable :: "writers \<Rightarrow> bool" where
  start: "(\<forall>i. threads s i = Returned) \<Longrightarrow> writeMu s = None \<Longrightarrow> wire s = [] \<Longrightarrow> order s = [] \<Longrightarrow>
    writers_reachable s"
| step: "writers_reachable s \<Longrightarrow> writer_step s t \<Longrightarrow> writers_reachable t"

fun in_critical :: "writer \<Rightarrow> bool" where
  "in_critical (HoldsLock h p) = True"
| "in_critical (HeaderWritten h p) = True"
| "in_critical (PayloadWritten h p) = True"
| "in_critical _ = False"

fun written_part :: "writer \<Rightarrow> bytes" where
  "written_part (HeaderWritten h p) = EncodeHeader h"
| "written_part (PayloadWritten h p) = EncodeHeader h @ p"
| "written_part _ = []"

fun frame_of :: "writer \<Rightarrow> (Header \<times> bytes) list" where
  "frame_of (HoldsLock h p) = [(h, p)]"
| "frame_of (HeaderWritten h p) = [(h, p)]"
| "frame_of (PayloadWritten h p) = [(h, p)]"
| "frame_of _ = []"

definition frames_bytes :: "(Header \<times> bytes) list \<Rightarrow> bytes" where
  "frames_bytes fs = concat (map (\<lambda>(h, p). EncodeHeader h @ p) fs)"

text \<open>The wire holds whole frames, followed by what the holder of the mutex has written of its own.\<close>

definition writers_inv :: "writers \<Rightarrow> bool" where
  "writers_inv s \<longleftrightarrow>
     (\<forall>i. in_critical (threads s i) \<longleftrightarrow> writeMu s = Some i)
     \<and> (case writeMu s of
          None \<Rightarrow> wire s = frames_bytes (order s)
        | Some i \<Rightarrow> \<exists>fs. order s = fs @ frame_of (threads s i)
                       \<and> wire s = frames_bytes fs @ written_part (threads s i))"

lemma frames_bytes_append [simp]: "frames_bytes (fs @ gs) = frames_bytes fs @ frames_bytes gs"
  by (simp add: frames_bytes_def)

lemma frames_bytes_single [simp]: "frames_bytes [(h, p)] = EncodeHeader h @ p"
  by (simp add: frames_bytes_def)

lemma writers_inv_HeldI:
  assumes "writeMu s = Some i" and "\<And>j. in_critical (threads s j) \<longleftrightarrow> j = i"
    and "order s = fs @ frame_of (threads s i)"
    and "wire s = frames_bytes fs @ written_part (threads s i)"
  shows "writers_inv s"
  using assms by (simp add: writers_inv_def eq_commute)

lemma writers_inv_FreeI:
  assumes "writeMu s = None" and "\<And>j. \<not> in_critical (threads s j)"
    and "wire s = frames_bytes (order s)"
  shows "writers_inv s"
  using assms by (simp add: writers_inv_def)

lemma writers_inv_critical: "writers_inv s \<Longrightarrow> in_critical (threads s j) \<longleftrightarrow> writeMu s = Some j"
  by (simp add: writers_inv_def)

lemma writers_inv_holder:
  assumes "writers_inv s" and "in_critical (threads s i)"
  obtains fs where "writeMu s = Some i" and "\<And>j. in_critical (threads s j) \<longleftrightarrow> j = i"
    and "order s = fs @ frame_of (threads s i)"
    and "wire s = frames_bytes fs @ written_part (threads s i)"
proof -
  have mu: "writeMu s = Some i" using assms by (simp add: writers_inv_critical)
  then obtain fs where "order s = fs @ frame_of (threads s i)"
    and "wire s = frames_bytes fs @ written_part (threads s i)"
    using assms(1) by (auto simp: writers_inv_def)
  moreover have "in_critical (threads s j) \<longleftrightarrow> j = i" for j
    using assms(1) mu by (auto simp: writers_inv_critical)
  ultimately show thesis using mu by (intro that)
qed

lemma writer_step_inv: "writer_step s t \<Longrightarrow> writers_inv s \<Longrightarrow> writers_inv t"
proof (induction rule: writer_step.induct)
  case (lock s i h p)
  then have "wire s = frames_bytes (order s)" by (simp add: writers_inv_def)
  with lock show ?case
    by (intro writers_inv_HeldI [of _ i "order s"]) (simp_all add: writers_inv_critical)
next
  case (write_header s i h p)
  from write_header(2) obtain fs where "writeMu s = Some i"
    "\<And>j. in_critical (threads s j) \<longleftrightarrow> j = i" "order s = fs @ [(h, p)]" "wire s = frames_bytes fs"
    by (rule writers_inv_holder [of s i]) (simp_all add: write_header(1))
  then show ?case by (intro writers_inv_HeldI [of _ i fs]) simp_all
next
  case (write_payload s i h p)
  from write_payload(3) obtain fs where "writeMu s = Some i"
    "\<And>j. in_critical (threads s j) \<longleftrightarrow> j = i" "order s = fs @ [(h, p)]"
    "wire s = frames_bytes fs @ EncodeHeader h"
    by (rule writers_inv_holder [of s i]) (simp_all add: write_payload(1))
  then show ?case by (intro writers_inv_HeldI [of _ i fs]) simp_all
next
  case (skip_payload s i h p)
  from skip_payload(3) obtain fs where "writeMu s = Some i"
    "\<And>j. in_critical (threads s j) \<longleftrightarrow> j = i" "order s = fs @ [(h, p)]"
    "wire s = frames_bytes fs @ EncodeHeader h"
    by (rule writers_inv_holder [of s i]) (simp_all add: skip_payload(1))
  with skip_payload(2) show ?case by (intro writers_inv_HeldI [of _ i fs]) simp_all
next
  case (unlock s i h p)
  from unlock(2) obtain fs where "writeMu s = Some i"
    "\<And>j. in_critical (threads s j) \<longleftrightarrow> j = i" "order s = fs @ [(h, p)]"
    "wire s = frames_bytes fs @ EncodeHeader h @ p"
    by (rule writers_inv_holder [of s i]) (simp_all add: unlock(1))
  then show ?case by (intro writers_inv_FreeI) simp_all
next
  case (call s i h p)
  then have "writeMu s \<noteq> Some i" using writers_inv_critical [of s i] by simp
  with call show ?case by (simp add: writers_inv_def split: option.splits)
qed

lemma writers_reachable_inv: "writers_reachable s \<Longrightarrow> writers_inv s"
proof (induction rule: writers_reachable.induct)
  case (start s)
  then show ?case by (simp add: writers_inv_def frames_bytes_def)
next
  case (step s t)
  then show ?case by (blast intro: writer_step_inv)
qed



end
