(* ===== verification/Levin_Storage.thy ===== *)
theory Levin_Storage
  imports Levin_Varint
begin

text \<open>
  The portable storage format, \<^verbatim>\<open>src/go/node/levin/storage.go\<close>: type tags, the \<^verbatim>\<open>Value\<close> struct
  with its constructors and accessors, and the encoder. The decoder is in \<open>Levin_Decode\<close>.

  A \<^verbatim>\<open>Section\<close> is a Go map from strings to values; it is represented by an association list with
  distinct keys, whose order stands for the (unspecified) iteration order of the map. A \<^verbatim>\<open>float64\<close>
  is represented by its IEEE-754 bit pattern, which is what \<^verbatim>\<open>math.Float64bits\<close> and
  \<^verbatim>\<open>math.Float64frombits\<close> exchange; a signed integer by its two's complement word.
\<close>

section \<open>Constants and errors\<close>

definition StorageSignatureA :: uint32 where "StorageSignatureA = 0x01011101"
definition StorageSignatureB :: uint32 where "StorageSignatureB = 0x01020101"
definition StorageVersion :: byte where "StorageVersion = 1"
definition StorageHeaderSize :: nat where "StorageHeaderSize = 9"

definition TypeInt64 :: byte where "TypeInt64 = 1"
definition TypeInt32 :: byte where "TypeInt32 = 2"
definition TypeInt16 :: byte where "TypeInt16 = 3"
definition TypeInt8 :: byte where "TypeInt8 = 4"
definition TypeUint64 :: byte where "TypeUint64 = 5"
definition TypeUint32 :: byte where "TypeUint32 = 6"
definition TypeUint16 :: byte where "TypeUint16 = 7"
definition TypeUint8 :: byte where "TypeUint8 = 8"
definition TypeDouble :: byte where "TypeDouble = 9"
definition TypeString :: byte where "TypeString = 10"
definition TypeBool :: byte where "TypeBool = 11"
definition TypeObject :: byte where "TypeObject = 12"
definition ArrayFlag :: byte where "ArrayFlag = 0x80"

lemmas type_tags =
  TypeInt64_def TypeInt32_def TypeInt16_def TypeInt8_def TypeUint64_def TypeUint32_def
  TypeUint16_def TypeUint8_def TypeDouble_def TypeString_def TypeBool_def TypeObject_def ArrayFlag_def

definition ErrStorageBadSignature :: go_error where
  "ErrStorageBadSignature = E ''levin.storage'' ''bad storage signature'' None"
definition ErrStorageTruncated :: go_error where
  "ErrStorageTruncated = E ''levin.storage'' ''truncated storage data'' None"
definition ErrStorageBadVersion :: go_error where
  "ErrStorageBadVersion = E ''levin.storage'' ''unsupported storage version'' None"
definition ErrStorageNameTooLong :: go_error where
  "ErrStorageNameTooLong = E ''levin.storage'' ''entry name exceeds 255 bytes'' None"
definition ErrStorageTypeMismatch :: go_error where
  "ErrStorageTypeMismatch = E ''levin.storage'' ''value type mismatch'' None"
definition ErrStorageUnknownType :: go_error where
  "ErrStorageUnknownType = E ''levin.storage'' ''unknown type tag'' None"

section \<open>Values and sections\<close>

datatype Value = Value
  (Type: byte)
  (intVal: uint64)
  (uintVal: uint64)
  (floatVal: uint64)
  (boolVal: bool)
  (bytesVal: bytes)
  (objectVal: "(string \<times> Value) list")
  (uint64Array: "uint64 list")
  (uint32Array: "uint32 list")
  (stringArray: "bytes list")
  (objectArray: "(string \<times> Value) list list")

type_synonym Section = "(string \<times> Value) list"

subsection \<open>Constructors\<close>

definition Uint64Val :: "uint64 \<Rightarrow> Value" where
  "Uint64Val v = Value TypeUint64 0 v 0 False [] [] [] [] [] []"
definition Uint32Val :: "uint32 \<Rightarrow> Value" where
  "Uint32Val v = Value TypeUint32 0 (ucast v) 0 False [] [] [] [] [] []"
definition Uint16Val :: "uint16 \<Rightarrow> Value" where
  "Uint16Val v = Value TypeUint16 0 (ucast v) 0 False [] [] [] [] [] []"
definition Uint8Val :: "byte \<Rightarrow> Value" where
  "Uint8Val v = Value TypeUint8 0 (ucast v) 0 False [] [] [] [] [] []"
definition Int64Val :: "uint64 \<Rightarrow> Value" where
  "Int64Val v = Value TypeInt64 v 0 0 False [] [] [] [] [] []"
definition Int32Val :: "uint32 \<Rightarrow> Value" where
  "Int32Val v = Value TypeInt32 (scast v) 0 0 False [] [] [] [] [] []"
definition Int16Val :: "uint16 \<Rightarrow> Value" where
  "Int16Val v = Value TypeInt16 (scast v) 0 0 False [] [] [] [] [] []"
definition Int8Val :: "byte \<Rightarrow> Value" where
  "Int8Val v = Value TypeInt8 (scast v) 0 0 False [] [] [] [] [] []"
definition BoolVal :: "bool \<Rightarrow> Value" where
  "BoolVal v = Value TypeBool 0 0 0 v [] [] [] [] [] []"
definition DoubleVal :: "uint64 \<Rightarrow> Value" where
  "DoubleVal v = Value TypeDouble 0 0 v False [] [] [] [] [] []"
definition StringVal :: "bytes \<Rightarrow> Value" where
  "StringVal v = Value TypeString 0 0 0 False v [] [] [] [] []"
definition ObjectVal :: "Section \<Rightarrow> Value" where
  "ObjectVal s = Value TypeObject 0 0 0 False [] s [] [] [] []"
definition Uint64ArrayVal :: "uint64 list \<Rightarrow> Value" where
  "Uint64ArrayVal vs = Value (ArrayFlag OR TypeUint64) 0 0 0 False [] [] vs [] [] []"
definition Uint32ArrayVal :: "uint32 list \<Rightarrow> Value" where
  "Uint32ArrayVal vs = Value (ArrayFlag OR TypeUint32) 0 0 0 False [] [] [] vs [] []"
definition StringArrayVal :: "bytes list \<Rightarrow> Value" where
  "StringArrayVal vs = Value (ArrayFlag OR TypeString) 0 0 0 False [] [] [] [] vs []"
definition ObjectArrayVal :: "Section list \<Rightarrow> Value" where
  "ObjectArrayVal vs = Value (ArrayFlag OR TypeObject) 0 0 0 False [] [] [] [] [] vs"

lemmas value_constructors =
  Uint64Val_def Uint32Val_def Uint16Val_def Uint8Val_def Int64Val_def Int32Val_def Int16Val_def
  Int8Val_def BoolVal_def DoubleVal_def StringVal_def ObjectVal_def Uint64ArrayVal_def
  Uint32ArrayVal_def StringArrayVal_def ObjectArrayVal_def

subsection \<open>Accessors\<close>

definition AsUint64 :: "Value \<Rightarrow> uint64 result" where
  "AsUint64 v = (if Type v \<noteq> TypeUint64 then Fail ErrStorageTypeMismatch else Ok (uintVal v))"
definition AsUint32 :: "Value \<Rightarrow> uint32 result" where
  "AsUint32 v = (if Type v \<noteq> TypeUint32 then Fail ErrStorageTypeMismatch else Ok (ucast (uintVal v)))"
definition AsUint16 :: "Value \<Rightarrow> uint16 result" where
  "AsUint16 v = (if Type v \<noteq> TypeUint16 then Fail ErrStorageTypeMismatch else Ok (ucast (uintVal v)))"
definition AsUint8 :: "Value \<Rightarrow> byte result" where
  "AsUint8 v = (if Type v \<noteq> TypeUint8 then Fail ErrStorageTypeMismatch else Ok (ucast (uintVal v)))"
definition AsInt64 :: "Value \<Rightarrow> uint64 result" where
  "AsInt64 v = (if Type v \<noteq> TypeInt64 then Fail ErrStorageTypeMismatch else Ok (intVal v))"
definition AsInt32 :: "Value \<Rightarrow> uint32 result" where
  "AsInt32 v = (if Type v \<noteq> TypeInt32 then Fail ErrStorageTypeMismatch else Ok (ucast (intVal v)))"
definition AsInt16 :: "Value \<Rightarrow> uint16 result" where
  "AsInt16 v = (if Type v \<noteq> TypeInt16 then Fail ErrStorageTypeMismatch else Ok (ucast (intVal v)))"
definition AsInt8 :: "Value \<Rightarrow> byte result" where
  "AsInt8 v = (if Type v \<noteq> TypeInt8 then Fail ErrStorageTypeMismatch else Ok (ucast (intVal v)))"
definition AsBool :: "Value \<Rightarrow> bool result" where
  "AsBool v = (if Type v \<noteq> TypeBool then Fail ErrStorageTypeMismatch else Ok (boolVal v))"
definition AsDouble :: "Value \<Rightarrow> uint64 result" where
  "AsDouble v = (if Type v \<noteq> TypeDouble then Fail ErrStorageTypeMismatch else Ok (floatVal v))"
definition AsString :: "Value \<Rightarrow> bytes result" where
  "AsString v = (if Type v \<noteq> TypeString then Fail ErrStorageTypeMismatch else Ok (bytesVal v))"
definition AsSection :: "Value \<Rightarrow> Section result" where
  "AsSection v = (if Type v \<noteq> TypeObject then Fail ErrStorageTypeMismatch else Ok (objectVal v))"
definition AsUint64Array :: "Value \<Rightarrow> uint64 list result" where
  "AsUint64Array v = (if Type v \<noteq> (ArrayFlag OR TypeUint64) then Fail ErrStorageTypeMismatch else Ok (uint64Array v))"
definition AsUint32Array :: "Value \<Rightarrow> uint32 list result" where
  "AsUint32Array v = (if Type v \<noteq> (ArrayFlag OR TypeUint32) then Fail ErrStorageTypeMismatch else Ok (uint32Array v))"
definition AsStringArray :: "Value \<Rightarrow> bytes list result" where
  "AsStringArray v = (if Type v \<noteq> (ArrayFlag OR TypeString) then Fail ErrStorageTypeMismatch else Ok (stringArray v))"
definition AsSectionArray :: "Value \<Rightarrow> Section list result" where
  "AsSectionArray v = (if Type v \<noteq> (ArrayFlag OR TypeObject) then Fail ErrStorageTypeMismatch else Ok (objectArray v))"

lemmas value_accessors =
  AsUint64_def AsUint32_def AsUint16_def AsUint8_def AsInt64_def AsInt32_def AsInt16_def AsInt8_def
  AsBool_def AsDouble_def AsString_def AsSection_def AsUint64Array_def AsUint32Array_def
  AsStringArray_def AsSectionArray_def

section \<open>Encoder\<close>

text \<open>
  \<open>encodeEntries\<close> and \<open>encodeSections\<close> are the loops over the sorted keys of a section and over an
  array of sections. Sorting the entries of a map by key is \<^verbatim>\<open>slices.Sorted(maps.Keys(s))\<close>
  followed by the lookups \<^verbatim>\<open>s[name]\<close>. The encoder threads the output buffer, as the source does.
\<close>

definition section_size :: "Section \<Rightarrow> nat" where
  "section_size s = size_list (size_prod (\<lambda>_. 0) size) s"

lemma section_size_simps [simp]:
  "section_size [] = 0"
  "section_size ((n, v) # s) = section_size s + size v + 2"
  by (simp_all add: section_size_def)

lemma section_size_sort [simp]: "section_size (sort_key f s) = section_size s"
proof -
  have "section_size xs = sum_mset (image_mset (\<lambda>e. size_prod (\<lambda>_. 0) size e + 1) (mset xs))" for xs
    by (induction xs) (simp_all add: section_size_def)
  then show ?thesis by simp
qed

lemma size_value [simp]:
  "size v = section_size (objectVal v) + size_list section_size (objectArray v) + 1"
  by (cases v) (simp add: section_size_def [abs_def])

definition unknown_tag_error :: "string \<Rightarrow> string \<Rightarrow> byte \<Rightarrow> go_error" where
  "unknown_tag_error op what tag =
     E op (''unknown type tag: '' @ what @ ''0x'' @ hex2 tag) (Some ErrStorageUnknownType)"

function (sequential)
  encodeSection :: "bytes \<Rightarrow> Section \<Rightarrow> bytes result" and
  encodeEntries :: "bytes \<Rightarrow> Section \<Rightarrow> bytes result" and
  encodeValue :: "bytes \<Rightarrow> Value \<Rightarrow> bytes result" and
  encodeArray :: "bytes \<Rightarrow> Value \<Rightarrow> bytes result" and
  encodeSections :: "bytes \<Rightarrow> Section list \<Rightarrow> bytes result"
where
  "encodeSection buf s =
     encodeEntries (buf @ PackVarint (word_of_nat (length s))) (sort_key fst s)"
| "encodeEntries buf [] = Ok buf"
| "encodeEntries buf ((name, v) # entries) =
     (if length name > 255 then Fail ErrStorageNameTooLong
      else and_then (encodeValue (buf @ [word_of_nat (length name)] @ bytes_of name @ [Type v]) v)
             (\<lambda>buf'. encodeEntries buf' entries))"
| "encodeValue buf v =
     (if Type v AND ArrayFlag \<noteq> 0 then encodeArray buf v
      else if Type v = TypeUint64 then Ok (buf @ PutUint64 (uintVal v))
      else if Type v = TypeInt64 then Ok (buf @ PutUint64 (intVal v))
      else if Type v = TypeDouble then Ok (buf @ PutUint64 (floatVal v))
      else if Type v = TypeUint32 then Ok (buf @ PutUint32 (ucast (uintVal v)))
      else if Type v = TypeInt32 then Ok (buf @ PutUint32 (ucast (intVal v)))
      else if Type v = TypeUint16 then Ok (buf @ PutUint16 (ucast (uintVal v)))
      else if Type v = TypeInt16 then Ok (buf @ PutUint16 (ucast (intVal v)))
      else if Type v = TypeUint8 then Ok (buf @ [ucast (uintVal v)])
      else if Type v = TypeInt8 then Ok (buf @ [ucast (intVal v)])
      else if Type v = TypeBool then Ok (buf @ [if boolVal v then 1 else 0])
      else if Type v = TypeString then
        Ok (buf @ PackVarint (word_of_nat (length (bytesVal v))) @ bytesVal v)
      else if Type v = TypeObject then encodeSection buf (objectVal v)
      else Fail (unknown_tag_error ''levin.encodeValue'' [] (Type v)))"
| "encodeArray buf v =
     (let elemType = Type v AND NOT ArrayFlag in
      if elemType = TypeUint64 then
        Ok (buf @ PackVarint (word_of_nat (length (uint64Array v))) @ concat (map PutUint64 (uint64Array v)))
      else if elemType = TypeUint32 then
        Ok (buf @ PackVarint (word_of_nat (length (uint32Array v))) @ concat (map PutUint32 (uint32Array v)))
      else if elemType = TypeString then
        Ok (buf @ PackVarint (word_of_nat (length (stringArray v)))
            @ concat (map (\<lambda>s. PackVarint (word_of_nat (length s)) @ s) (stringArray v)))
      else if elemType = TypeObject then
        encodeSections (buf @ PackVarint (word_of_nat (length (objectArray v)))) (objectArray v)
      else Fail (unknown_tag_error ''levin.encodeArray'' ''array of '' elemType))"
| "encodeSections buf [] = Ok buf"
| "encodeSections buf (sec # secs) =
     and_then (encodeSection buf sec) (\<lambda>buf'. encodeSections buf' secs)"
  by pat_completeness auto
termination
proof (relation "measure (\<lambda>x. case x of
      Inl (Inl (buf, s)) \<Rightarrow> 3 * section_size s + 1
    | Inl (Inr (buf, s)) \<Rightarrow> 3 * section_size s
    | Inr (Inl (buf, v)) \<Rightarrow> 3 * size v + 1
    | Inr (Inr (Inl (buf, v))) \<Rightarrow> 3 * size v
    | Inr (Inr (Inr (buf, ss))) \<Rightarrow> 3 * size_list section_size ss)")
qed (auto simp del: size_value, simp_all)

declare encodeSection.simps [simp del] encodeValue.simps [simp del] encodeArray.simps [simp del]

definition storage_header :: bytes where
  "storage_header = PutUint32 StorageSignatureA @ PutUint32 StorageSignatureB @ [StorageVersion]"

definition EncodeStorage :: "Section \<Rightarrow> bytes result" where
  "EncodeStorage s = encodeSection storage_header s"

section \<open>The encoder only appends\<close>

definition prepend :: "bytes \<Rightarrow> bytes result \<Rightarrow> bytes result" where
  "prepend pre r = and_then r (\<lambda>b. Ok (pre @ b))"

lemma prepend_simps [simp]:
  "prepend pre (Ok b) = Ok (pre @ b)" "prepend pre (Fail e) = Fail e" "prepend pre (Panic p) = Panic p"
  by (simp_all add: prepend_def)

lemma encode_prepend:
  "encodeSection (pre @ buf) s = prepend pre (encodeSection buf s)"
  "encodeEntries (pre @ buf) es = prepend pre (encodeEntries buf es)"
  "encodeValue (pre @ buf) v = prepend pre (encodeValue buf v)"
  "encodeArray (pre @ buf) v' = prepend pre (encodeArray buf v')"
  "encodeSections (pre @ buf) ss = prepend pre (encodeSections buf ss)"
proof (induction buf s and buf es and buf v and buf v' and buf ss
    rule: encodeSection_encodeEntries_encodeValue_encodeArray_encodeSections.induct)
  case (1 buf s)
  then show ?case by (simp add: encodeSection.simps)
next
  case (3 buf name v entries)
  let ?b = "buf @ [word_of_nat (length name)] @ bytes_of name @ [Type v]"
  show ?case
  proof (cases "length name > 255")
    case False
    with "3.IH" show ?thesis by (cases "encodeValue ?b v") simp_all
  qed simp
next
  case (4 buf v)
  then show ?case by (simp add: encodeValue.simps)
next
  case (5 buf v)
  then show ?case by (simp add: encodeArray.simps Let_def)
next
  case (7 buf sec secs)
  then show ?case by (cases "encodeSection buf sec") simp_all
qed simp_all

lemmas encode_split =
  encode_prepend(1) [where buf = "[]", simplified] encode_prepend(2) [where buf = "[]", simplified]
  encode_prepend(3) [where buf = "[]", simplified] encode_prepend(4) [where buf = "[]", simplified]
  encode_prepend(5) [where buf = "[]", simplified]

lemma encode_no_Panic:
  "encodeSection buf s \<noteq> Panic p"
  "encodeEntries buf es \<noteq> Panic p"
  "encodeValue buf v \<noteq> Panic p"
  "encodeArray buf v' \<noteq> Panic p"
  "encodeSections buf ss \<noteq> Panic p"
proof (induction buf s and buf es and buf v and buf v' and buf ss
    rule: encodeSection_encodeEntries_encodeValue_encodeArray_encodeSections.induct)
  case (1 buf s)
  then show ?case by (simp add: encodeSection.simps)
next
  case (3 buf name v entries)
  then show ?case by (auto simp: and_then_eq_Panic)
next
  case (4 buf v)
  then show ?case by (simp add: encodeValue.simps)
next
  case (5 buf v)
  then show ?case by (simp add: encodeArray.simps Let_def)
next
  case (7 buf sec secs)
  then show ?case by (auto simp: and_then_eq_Panic)
qed simp_all

text \<open>
  Deterministic output: whatever order the entries of the root map are visited in, the
  encoder produces the same bytes (or the same error), because it sorts the keys.
\<close>

theorem EncodeStorage_deterministic:
  assumes "distinct (map fst s)" and "mset s = mset s'"
  shows "EncodeStorage s = EncodeStorage s'"
proof -
  have "length s = length s'" using assms(2) by (rule mset_eq_length)
  with sort_key_fst_mset_eq [OF assms(2,1)] show ?thesis
    by (simp add: EncodeStorage_def encodeSection.simps)
qed

theorem EncodeStorage_deterministic_witness:
  "EncodeStorage [(''b'', Uint8Val 1), (''a'', BoolVal True)]
   = EncodeStorage [(''a'', BoolVal True), (''b'', Uint8Val 1)]"
  by (rule EncodeStorage_deterministic) simp_all

lemma ucast_ucast_shrink:
  "(ucast (ucast b :: uint64) :: uint32) = b"
  "(ucast (ucast c :: uint64) :: uint16) = c"
  "(ucast (ucast d :: uint64) :: byte) = d"
  by (rule bit_word_eqI, simp add: bit_simps)+

lemma ucast_scast_shrink:
  "(ucast (scast b :: uint64) :: uint32) = b"
  "(ucast (scast c :: uint64) :: uint16) = c"
  "(ucast (scast d :: uint64) :: byte) = d"
  by (rule bit_word_eqI, simp add: bit_simps min_def, intro impI, rule arg_cong [of _ _ "bit _"], linarith)+

text \<open>The accessors that succeed on a value.\<close>

definition accessors_ok :: "Value \<Rightarrow> bool list" where
  "accessors_ok v =
     [is_Ok (AsUint64 v), is_Ok (AsUint32 v), is_Ok (AsUint16 v), is_Ok (AsUint8 v),
      is_Ok (AsInt64 v), is_Ok (AsInt32 v), is_Ok (AsInt16 v), is_Ok (AsInt8 v),
      is_Ok (AsBool v), is_Ok (AsDouble v), is_Ok (AsString v), is_Ok (AsSection v),
      is_Ok (AsUint64Array v), is_Ok (AsUint32Array v), is_Ok (AsStringArray v),
      is_Ok (AsSectionArray v)]"

lemma accessors_ok_le_1: "length (filter id (accessors_ok v)) \<le> 1"
  by (simp add: accessors_ok_def value_accessors type_tags)

text \<open>
  Typed access: each accessor gives back what its constructor stored, and on any value
  whatsoever at most one of the sixteen accessors succeeds.
\<close>

theorem typed_access:
  "AsUint64 (Uint64Val a) = Ok a \<and> AsUint32 (Uint32Val b) = Ok b \<and> AsUint16 (Uint16Val c) = Ok c
   \<and> AsUint8 (Uint8Val d) = Ok d \<and> AsInt64 (Int64Val a) = Ok a \<and> AsInt32 (Int32Val b) = Ok b
   \<and> AsInt16 (Int16Val c) = Ok c \<and> AsInt8 (Int8Val d) = Ok d \<and> AsBool (BoolVal t) = Ok t
   \<and> AsDouble (DoubleVal a) = Ok a \<and> AsString (StringVal s) = Ok s \<and> AsSection (ObjectVal sec) = Ok sec
   \<and> AsUint64Array (Uint64ArrayVal as) = Ok as \<and> AsUint32Array (Uint32ArrayVal bs) = Ok bs
   \<and> AsStringArray (StringArrayVal ss) = Ok ss \<and> AsSectionArray (ObjectArrayVal secs) = Ok secs
   \<and> length (filter id (accessors_ok v)) \<le> 1"
  using accessors_ok_le_1 [of v]
  by (simp add: value_constructors value_accessors ucast_ucast_shrink ucast_scast_shrink)

end
