(* ===== verification/Levin_Decode.thy ===== *)
theory Levin_Decode
  imports Levin_Storage
begin

text \<open>
  The portable storage decoder of \<^verbatim>\<open>src/go/node/levin/storage.go\<close>, and the properties that tie it
  to the encoder: the round trip, the bounds it keeps on the input, the well-formedness of what it
  returns, and the inputs on which it panics.

  Two facts of the Go runtime appear in the model. A \<^verbatim>\<open>make([]T, count)\<close> panics when the array
  would exceed the address space limit of 64-bit platforms (\<open>maxAlloc\<close>, 48 bits of address);
  smaller requests succeed. The size hint of \<^verbatim>\<open>make(Section, int(count))\<close> never panics.
\<close>

definition maxAlloc :: nat where "maxAlloc = 2 ^ 48"

definition make_slice :: "nat \<Rightarrow> uint64 \<Rightarrow> unit result" where
  "make_slice elem_size cnt =
     (if elem_size * unat cnt > maxAlloc then Panic MakeSliceLenOutOfRange else Ok ())"

text \<open>Element decoders of the array loops: one array element at the front of the given slice.\<close>

definition decodeUint64Elem :: "bytes \<Rightarrow> (uint64 \<times> nat) result" where
  "decodeUint64Elem b = (if 8 > length b then Fail ErrStorageTruncated else Ok (Uint64 (take 8 b), 8))"

definition decodeUint32Elem :: "bytes \<Rightarrow> (uint32 \<times> nat) result" where
  "decodeUint32Elem b = (if 4 > length b then Fail ErrStorageTruncated else Ok (Uint32 (take 4 b), 4))"

definition decodeStringElem :: "bytes \<Rightarrow> (bytes \<times> nat) result" where
  "decodeStringElem b =
     and_then (UnpackVarint b) (\<lambda>u.
       let strLen = unat (uvValue u); n = uvBytesConsumed u in
       if length b - n < strLen then Fail ErrStorageTruncated
       else Ok (take strLen (drop n b), n + strLen))"

function (sequential)
  decodeSection :: "bytes \<Rightarrow> (Section \<times> nat) result" and
  decodeEntries :: "bytes \<Rightarrow> nat \<Rightarrow> nat \<Rightarrow> Section \<Rightarrow> (Section \<times> nat) result" and
  decodeValue :: "bytes \<Rightarrow> byte \<Rightarrow> (Value \<times> nat) result" and
  decodeArray :: "bytes \<Rightarrow> byte \<Rightarrow> (Value \<times> nat) result"
where
  "decodeSection buf =
     and_then (map_err (\<lambda>e. E ''levin.decodeSection'' ''section entry count'' (Some e)) (UnpackVarint buf))
       (\<lambda>u. decodeEntries buf (uvBytesConsumed u) (unat (uvValue u)) [])"
| "decodeEntries buf off 0 s = Ok (s, off)"
| "decodeEntries buf off (Suc cnt) s =
     (if off \<ge> length buf then Fail ErrStorageTruncated
      else let nameLen = unat (buf ! off); off1 = off + 1 in
      if off1 + nameLen > length buf then Fail ErrStorageTruncated
      else let name = string_of (take nameLen (drop off1 buf)); off2 = off1 + nameLen in
      if off2 \<ge> length buf then Fail ErrStorageTruncated
      else let tag = buf ! off2; off3 = off2 + 1 in
      and_then (map_err (\<lambda>e. E ''levin.decodeSection'' (''field '' @ name) (Some e))
                  (decodeValue (drop off3 buf) tag))
        (\<lambda>(v, consumed). decodeEntries buf (off3 + consumed) cnt (AList.update name v s)))"
| "decodeValue buf tag =
     (if tag AND ArrayFlag \<noteq> 0 then decodeArray buf tag
      else if tag = TypeUint64 then
        (if length buf < 8 then Fail ErrStorageTruncated
         else Ok (Value TypeUint64 0 (Uint64 (take 8 buf)) 0 False [] [] [] [] [] [], 8))
      else if tag = TypeInt64 then
        (if length buf < 8 then Fail ErrStorageTruncated
         else Ok (Value TypeInt64 (Uint64 (take 8 buf)) 0 0 False [] [] [] [] [] [], 8))
      else if tag = TypeDouble then
        (if length buf < 8 then Fail ErrStorageTruncated
         else Ok (Value TypeDouble 0 0 (Uint64 (take 8 buf)) False [] [] [] [] [] [], 8))
      else if tag = TypeUint32 then
        (if length buf < 4 then Fail ErrStorageTruncated
         else Ok (Value TypeUint32 0 (ucast (Uint32 (take 4 buf))) 0 False [] [] [] [] [] [], 4))
      else if tag = TypeInt32 then
        (if length buf < 4 then Fail ErrStorageTruncated
         else Ok (Value TypeInt32 (scast (Uint32 (take 4 buf))) 0 0 False [] [] [] [] [] [], 4))
      else if tag = TypeUint16 then
        (if length buf < 2 then Fail ErrStorageTruncated
         else Ok (Value TypeUint16 0 (ucast (Uint16 (take 2 buf))) 0 False [] [] [] [] [] [], 2))
      else if tag = TypeInt16 then
        (if length buf < 2 then Fail ErrStorageTruncated
         else Ok (Value TypeInt16 (scast (Uint16 (take 2 buf))) 0 0 False [] [] [] [] [] [], 2))
      else if tag = TypeUint8 then
        (if length buf < 1 then Fail ErrStorageTruncated
         else Ok (Value TypeUint8 0 (ucast (buf ! 0)) 0 False [] [] [] [] [] [], 1))
      else if tag = TypeInt8 then
        (if length buf < 1 then Fail ErrStorageTruncated
         else Ok (Value TypeInt8 (scast (buf ! 0)) 0 0 False [] [] [] [] [] [], 1))
      else if tag = TypeBool then
        (if length buf < 1 then Fail ErrStorageTruncated
         else Ok (Value TypeBool 0 0 0 (buf ! 0 \<noteq> 0) [] [] [] [] [] [], 1))
      else if tag = TypeString then
        and_then (decodeStringElem buf)
          (\<lambda>(b, n). Ok (Value TypeString 0 0 0 False b [] [] [] [] [], n))
      else if tag = TypeObject then
        and_then (decodeSection buf)
          (\<lambda>(sec, consumed). Ok (Value TypeObject 0 0 0 False [] sec [] [] [] [], consumed))
      else Fail (unknown_tag_error ''levin.decodeValue'' [] tag))"
| "decodeArray buf tag =
     (let elemType = tag AND NOT ArrayFlag in
      and_then (UnpackVarint buf) (\<lambda>u.
        let cnt = uvValue u; off = uvBytesConsumed u in
        if elemType = TypeUint64 then
          and_then (make_slice 8 cnt) (\<lambda>_.
          and_then (dec_loop decodeUint64Elem buf off (unat cnt) [])
            (\<lambda>(arr, off'). Ok (Value tag 0 0 0 False [] [] arr [] [] [], off')))
        else if elemType = TypeUint32 then
          and_then (make_slice 4 cnt) (\<lambda>_.
          and_then (dec_loop decodeUint32Elem buf off (unat cnt) [])
            (\<lambda>(arr, off'). Ok (Value tag 0 0 0 False [] [] [] arr [] [], off')))
        else if elemType = TypeString then
          and_then (make_slice 24 cnt) (\<lambda>_.
          and_then (dec_loop decodeStringElem buf off (unat cnt) [])
            (\<lambda>(arr, off'). Ok (Value tag 0 0 0 False [] [] [] [] arr [], off')))
        else if elemType = TypeObject then
          and_then (make_slice 8 cnt) (\<lambda>_.
          and_then (dec_loop decodeSection buf off (unat cnt) [])
            (\<lambda>(arr, off'). Ok (Value tag 0 0 0 False [] [] [] [] [] arr, off')))
        else Fail (unknown_tag_error ''levin.decodeArray'' ''array of '' elemType)))"
  by pat_completeness auto
termination
proof (relation "measures
    [\<lambda>x. case x of Inl (Inl b) \<Rightarrow> length b | Inl (Inr (b, _, _, _)) \<Rightarrow> length b
       | Inr (Inl (b, _)) \<Rightarrow> length b | Inr (Inr (b, _)) \<Rightarrow> length b,
     \<lambda>x. case x of Inl (Inl b) \<Rightarrow> 1 | Inl (Inr _) \<Rightarrow> 0 | Inr (Inl _) \<Rightarrow> 3 | Inr (Inr _) \<Rightarrow> 2,
     \<lambda>x. case x of Inl (Inr (_, _, n, _)) \<Rightarrow> n | _ \<Rightarrow> 0]")
qed auto

declare decodeSection.simps [simp del] decodeEntries.simps(2) [simp del]
  decodeValue.simps [simp del] decodeArray.simps [simp del]

definition DecodeStorage :: "bytes \<Rightarrow> Section result" where
  "DecodeStorage data =
     (if length data < StorageHeaderSize then Fail ErrStorageTruncated
      else if Uint32 (take 4 data) \<noteq> StorageSignatureA \<or> Uint32 (take 4 (drop 4 data)) \<noteq> StorageSignatureB
      then Fail ErrStorageBadSignature
      else if data ! 8 \<noteq> StorageVersion then Fail ErrStorageBadVersion
      else and_then (decodeSection (drop StorageHeaderSize data)) (\<lambda>(sec, _). Ok sec))"

section \<open>Round trip\<close>

text \<open>
  Values and sections the encoder accepts and the decoder gives back: built by one of the sixteen
  constructors (the fields the tag does not select are zero), names of at most 255 bytes, distinct
  keys in every section, lengths that a varint can hold, and arrays that fit in memory.
\<close>

definition built :: "Value \<Rightarrow> bool" where
  "built v \<longleftrightarrow>
     v = Uint64Val (uintVal v) \<or> v = Uint32Val (ucast (uintVal v)) \<or> v = Uint16Val (ucast (uintVal v))
   \<or> v = Uint8Val (ucast (uintVal v)) \<or> v = Int64Val (intVal v) \<or> v = Int32Val (ucast (intVal v))
   \<or> v = Int16Val (ucast (intVal v)) \<or> v = Int8Val (ucast (intVal v)) \<or> v = BoolVal (boolVal v)
   \<or> v = DoubleVal (floatVal v) \<or> v = StringVal (bytesVal v) \<or> v = ObjectVal (objectVal v)
   \<or> v = Uint64ArrayVal (uint64Array v) \<or> v = Uint32ArrayVal (uint32Array v)
   \<or> v = StringArrayVal (stringArray v) \<or> v = ObjectArrayVal (objectArray v)"

definition fits :: "nat \<Rightarrow> bool" where
  "fits n \<longleftrightarrow> n \<le> unat varintMax8"

definition section_ok :: "(string \<times> bool) list \<Rightarrow> bool" where
  "section_ok s \<longleftrightarrow> fits (length s) \<and> distinct (map fst s)
     \<and> list_all (\<lambda>(name, ok). length name \<le> 255 \<and> ok) s"

primrec valid_value :: "Value \<Rightarrow> bool" where
  "valid_value (Value t i u f b bs ob a64 a32 sa oa) \<longleftrightarrow>
     built (Value t i u f b bs ob a64 a32 sa oa) \<and> fits (length bs)
   \<and> section_ok (map (map_prod id valid_value) ob)
   \<and> 8 * length a64 \<le> maxAlloc \<and> 4 * length a32 \<le> maxAlloc
   \<and> 24 * length sa \<le> maxAlloc \<and> list_all (\<lambda>s. fits (length s)) sa
   \<and> 8 * length oa \<le> maxAlloc \<and> list_all section_ok (map (map (map_prod id valid_value)) oa)"

definition valid_section :: "Section \<Rightarrow> bool" where
  "valid_section s = section_ok (map (map_prod id valid_value) s)"

text \<open>The canonical representative of a section: every map listed in key order.\<close>

primrec canon_value :: "Value \<Rightarrow> Value" where
  "canon_value (Value t i u f b bs ob a64 a32 sa oa) =
     Value t i u f b bs (sort_key fst (map (map_prod id canon_value) ob)) a64 a32 sa
       (map (sort_key fst) (map (map (map_prod id canon_value)) oa))"

definition canon_section :: "Section \<Rightarrow> Section" where
  "canon_section s = sort_key fst (map (map_prod id canon_value) s)"

subsection \<open>Length prefixes, strings and scalar arrays\<close>

lemma fits_unat: "fits n \<Longrightarrow> unat (word_of_nat n :: uint64) = n"
  by (simp add: fits_def varintMax8_def unat_of_nat)

lemma fits_maxAlloc: "k * n \<le> maxAlloc \<Longrightarrow> 0 < k \<Longrightarrow> fits n"
proof -
  assume "k * n \<le> maxAlloc" "0 < k"
  then have "n \<le> maxAlloc" by (cases k) auto
  then show ?thesis by (simp add: fits_def maxAlloc_def varintMax8_def)
qed

lemma UnpackVarint_length:
  assumes "fits n"
  shows "UnpackVarint (PackVarint (word_of_nat n) @ rest)
       = Ok \<lparr>uvValue = word_of_nat n, uvBytesConsumed = length (PackVarint (word_of_nat n))\<rparr>"
  using assms fits_unat [OF assms] by (intro UnpackVarint_PackVarint) (simp add: fits_def word_le_nat_alt)

interpretation str: prefix_codec "\<lambda>s. fits (length s)" id
    "\<lambda>s. PackVarint (word_of_nat (length s)) @ s" decodeStringElem
  by unfold_locales (simp add: decodeStringElem_def UnpackVarint_length fits_unat Let_def)

interpretation elem64: prefix_codec "\<lambda>_. True" id PutUint64 decodeUint64Elem
  by unfold_locales (simp add: decodeUint64Elem_def u64.get_put [where rest = "[]", simplified])

interpretation elem32: prefix_codec "\<lambda>_. True" id PutUint32 decodeUint32Elem
  by unfold_locales (simp add: decodeUint32Elem_def u32.get_put [where rest = "[]", simplified])

lemma make_slice_ok: "k * n \<le> maxAlloc \<Longrightarrow> 0 < k \<Longrightarrow> make_slice k (word_of_nat n) = Ok ()"
  using fits_unat [OF fits_maxAlloc] by (simp add: make_slice_def)

subsection \<open>One level of nesting\<close>

text \<open>
  \<open>codes_value v\<close> and \<open>codes_section s\<close> say that encoding succeeds, that the canonical form has the
  same encoding, and that decoding it, whatever follows, gives the canonical form and consumes it.
\<close>

definition codes_value :: "Value \<Rightarrow> bytes \<Rightarrow> bool" where
  "codes_value v b \<longleftrightarrow> encodeValue [] v = Ok b \<and> encodeValue [] (canon_value v) = Ok b
     \<and> (\<forall>rest. decodeValue (b @ rest) (Type v) = Ok (canon_value v, length b))"

definition codes_section :: "Section \<Rightarrow> bytes \<Rightarrow> bool" where
  "codes_section s b \<longleftrightarrow> encodeSection [] s = Ok b \<and> encodeSection [] (canon_section s) = Ok b
     \<and> (\<forall>rest. decodeSection (b @ rest) = Ok (canon_section s, length b))"

lemma Type_canon_value [simp]: "Type (canon_value v) = Type v"
  by (cases v) simp

lemma sort_key_map_prod:
  "sort_key fst (map (map_prod id f) xs) = map (map_prod id f) (sort_key fst xs)"
proof (induction xs)
  case (Cons x xs)
  have "insort_key fst (map_prod id f x) (map (map_prod id f) ys) = map (map_prod id f) (insort_key fst x ys)" for ys
    by (induction ys) auto
  with Cons show ?case by (simp only: list.map sort_key_simps)
qed simp

lemma entry_split:
  fixes rest :: bytes
  assumes "drop off buf = [word_of_nat (length name)] @ bytes_of name @ [t] @ b @ rest"
    and "length name \<le> 255"
  shows "off < length buf" and "unat (buf ! off) = length name"
    and "take (length name) (drop (Suc off) buf) = bytes_of name"
    and "Suc (off + length name) < length buf" and "buf ! Suc (off + length name) = t"
    and "drop (Suc (Suc (off + length name))) buf = b @ rest"
proof -
  note d = drop_Cons_nth [OF assms(1) [unfolded append_Cons append_Nil]]
  show "off < length buf" by (rule d)
  show "unat (buf ! off) = length name"
    using assms(2) by (simp add: d(2) unat_byte_of_nat)
  have e: "drop (Suc off + length (bytes_of name)) buf = t # b @ rest"
    using d(3) by (intro drop_append_shift) simp
  note drop_Cons_nth [OF e]
  then show "Suc (off + length name) < length buf" "buf ! Suc (off + length name) = t"
    "drop (Suc (Suc (off + length name))) buf = b @ rest"
    by simp_all
  show "take (length name) (drop (Suc off) buf) = bytes_of name"
    by (simp add: d(3))
qed

lemma entries_code:
  assumes "\<And>n v. (n, v) \<in> set es \<Longrightarrow> length n \<le> 255 \<and> (\<exists>b. codes_value v b)"
  shows "\<exists>b. encodeEntries [] es = Ok b \<and> encodeEntries [] (map (map_prod id canon_value) es) = Ok b
     \<and> (\<forall>buf off rest acc. drop off buf = b @ rest \<longrightarrow> distinct (map fst (acc @ es)) \<longrightarrow>
          decodeEntries buf off (length es) acc
          = Ok (acc @ map (map_prod id canon_value) es, off + length b))"
  using assms
proof (induction es)
  case (Cons e es)
  obtain n v where e: "e = (n, v)" by (cases e)
  from Cons.prems [of n v] e obtain bv where n: "length n \<le> 255" and v: "codes_value v bv"
    by auto
  from Cons.IH Cons.prems obtain bs where
    enc: "encodeEntries [] es = Ok bs" "encodeEntries [] (map (map_prod id canon_value) es) = Ok bs"
    and dec: "\<And>buf off rest acc. drop off buf = bs @ rest \<Longrightarrow> distinct (map fst (acc @ es)) \<Longrightarrow>
      decodeEntries buf off (length es) acc = Ok (acc @ map (map_prod id canon_value) es, off + length bs)"
    by (smt (verit, best) list.set_intros(2))
  let ?h = "[word_of_nat (length n)] @ bytes_of n @ [Type v]"
  let ?b = "?h @ bv @ bs"
  have "encodeEntries [] (e # es) = Ok ?b"
    and "encodeEntries [] (map (map_prod id canon_value) (e # es)) = Ok ?b"
    using n v enc encode_split(3) [of ?h v] encode_split(3) [of ?h "canon_value v"]
      encode_split(2) [of "?h @ bv" es] encode_split(2) [of "?h @ bv" "map (map_prod id canon_value) es"]
    by (simp_all add: e codes_value_def)
  moreover have "decodeEntries buf off (length (e # es)) acc
      = Ok (acc @ map (map_prod id canon_value) (e # es), off + length ?b)"
    if d: "drop off buf = ?b @ rest" and dist: "distinct (map fst (acc @ e # es))" for buf off rest acc
  proof -
    let ?off = "Suc (Suc (off + length n))"
    note s = entry_split [of off buf n "Type v" bv "bs @ rest", OF _ n, unfolded append_assoc, OF d [unfolded append_assoc]]
    have "decodeValue (drop ?off buf) (Type v) = Ok (canon_value v, length bv)"
      using v by (simp add: s(6) codes_value_def)
    moreover have "drop (?off + length bv) buf = bs @ rest"
      using s(6) by (rule drop_append_shift)
    moreover have "n \<notin> fst ` set acc" and "distinct (map fst ((acc @ [(n, canon_value v)]) @ es))"
      using dist by (auto simp: e)
    ultimately show ?thesis
      using s(1-5) dec [of "?off + length bv" buf rest "acc @ [(n, canon_value v)]"]
      by (simp add: e decodeEntries.simps(2) Let_def update_fresh)
  qed
  ultimately show ?case by blast
qed simp

definition section_bytes :: "Section \<Rightarrow> bytes" where
  "section_bytes s = (case encodeSection [] s of Ok b \<Rightarrow> b | _ \<Rightarrow> [])"

lemma codes_section_bytes: "codes_section s b \<Longrightarrow> section_bytes s = b"
  by (simp add: codes_section_def section_bytes_def)

interpretation sec: prefix_codec "\<lambda>s. codes_section s (section_bytes s)" canon_section section_bytes decodeSection
  by unfold_locales (simp add: codes_section_def)

lemma section_codes:
  assumes "\<And>n v. (n, v) \<in> set s \<Longrightarrow> length n \<le> 255 \<and> (\<exists>b. codes_value v b)"
    and "distinct (map fst s)" and "fits (length s)"
  shows "\<exists>b. codes_section s b"
proof -
  let ?es = "sort_key fst s" and ?p = "PackVarint (word_of_nat (length s))"
  have canon: "canon_section s = map (map_prod id canon_value) ?es"
    by (simp only: canon_section_def sort_key_map_prod)
  then have sorted: "sort_key fst (canon_section s) = canon_section s"
    by (metis canon_section_def sort_key_id_if_sorted sorted_sort_key)
  from assms(1) entries_code [of ?es] obtain b where
    enc: "encodeEntries [] ?es = Ok b" "encodeEntries [] (map (map_prod id canon_value) ?es) = Ok b"
    and dec: "\<And>buf off rest acc. drop off buf = b @ rest \<Longrightarrow> distinct (map fst (acc @ ?es)) \<Longrightarrow>
      decodeEntries buf off (length ?es) acc = Ok (acc @ map (map_prod id canon_value) ?es, off + length b)"
    by (metis set_sort)
  have dist: "distinct (map fst ([] @ ?es))"
    using assms(2) by (metis append_Nil distinct_map distinct_sort set_sort)
  have "decodeSection ((?p @ b) @ rest) = Ok (canon_section s, length (?p @ b))" for rest
    using dec [of "length ?p" "?p @ b @ rest" rest "[]", OF _ dist] assms(3)
    by (simp add: decodeSection.simps UnpackVarint_length fits_unat canon)
  moreover have "encodeSection [] s = Ok (?p @ b)"
    using enc(1) encode_split(2) [of ?p ?es] by (simp add: encodeSection.simps)
  moreover have "length (canon_section s) = length s" by (simp add: canon)
  then have "encodeSection [] (canon_section s) = Ok (?p @ b)"
    using enc(2) encode_split(2) [of ?p "canon_section s"] sorted
    by (simp add: encodeSection.simps canon)
  ultimately show ?thesis unfolding codes_section_def by blast
qed

lemma encodeSections_bytes:
  assumes "\<And>s. s \<in> set ss \<Longrightarrow> \<exists>b. encodeSection [] s = Ok b"
  shows "encodeSections [] ss = Ok (concat (map section_bytes ss))"
  using assms
proof (induction ss)
  case (Cons s ss)
  then obtain b where "encodeSection [] s = Ok b" by auto
  then have "encodeSection [] s = Ok (section_bytes s)" by (simp add: section_bytes_def)
  with Cons encode_split(5) [of "section_bytes s" ss] show ?case by simp
qed simp

lemma section_bytes_canon: "codes_section s b \<Longrightarrow> section_bytes (canon_section s) = section_bytes s"
  by (simp add: codes_section_def section_bytes_def)

subsection \<open>All values\<close>

lemmas codes_simps = codes_value_def encodeValue.simps decodeValue.simps type_tags value_constructors
lemmas array_simps = encodeArray.simps decodeArray.simps Let_def

lemma scalar_codes:
  "codes_value (Uint64Val a) (PutUint64 a)" "codes_value (Int64Val a) (PutUint64 a)"
  "codes_value (DoubleVal a) (PutUint64 a)"
  "codes_value (Uint32Val b) (PutUint32 b)" "codes_value (Int32Val b) (PutUint32 b)"
  "codes_value (Uint16Val c) (PutUint16 c)" "codes_value (Int16Val c) (PutUint16 c)"
  "codes_value (Uint8Val d) [d]" "codes_value (Int8Val d) [d]"
  "codes_value (BoolVal t) [if t then 1 else 0]"
  using u64.get_put [of a "[]"] u32.get_put [of b "[]"] u16.get_put [of c "[]"]
  by (simp_all add: codes_simps ucast_ucast_shrink ucast_scast_shrink)

lemma string_codes:
  "fits (length s) \<Longrightarrow> codes_value (StringVal s) (PackVarint (word_of_nat (length s)) @ s)"
  using str.dec_enc [of s] by (simp add: codes_simps)

lemma object_codes: "codes_section s b \<Longrightarrow> codes_value (ObjectVal s) b"
  by (simp add: codes_simps codes_section_def canon_section_def)

lemma array_codes:
  "8 * length xs \<le> maxAlloc \<Longrightarrow> codes_value (Uint64ArrayVal xs)
     (PackVarint (word_of_nat (length xs)) @ concat (map PutUint64 xs))"
  "4 * length ys \<le> maxAlloc \<Longrightarrow> codes_value (Uint32ArrayVal ys)
     (PackVarint (word_of_nat (length ys)) @ concat (map PutUint32 ys))"
  "24 * length ss \<le> maxAlloc \<Longrightarrow> list_all (\<lambda>s. fits (length s)) ss \<Longrightarrow> codes_value (StringArrayVal ss)
     (PackVarint (word_of_nat (length ss)) @ concat (map (\<lambda>s. PackVarint (word_of_nat (length s)) @ s) ss))"
  using elem64.dec_loop_enc [of xs "length (PackVarint (word_of_nat (length xs)))"]
    elem32.dec_loop_enc [of ys "length (PackVarint (word_of_nat (length ys)))"]
    str.dec_loop_enc [of ss "length (PackVarint (word_of_nat (length ss)))"]
    UnpackVarint_length [OF fits_maxAlloc, of 8 "length xs"] fits_unat [OF fits_maxAlloc, of 8 "length xs"]
    UnpackVarint_length [OF fits_maxAlloc, of 4 "length ys"] fits_unat [OF fits_maxAlloc, of 4 "length ys"]
    UnpackVarint_length [OF fits_maxAlloc, of 24 "length ss"] fits_unat [OF fits_maxAlloc, of 24 "length ss"]
  by (simp_all add: codes_simps array_simps make_slice_ok list.pred_True)

lemma object_array_codes:
  assumes "8 * length ss \<le> maxAlloc" and "\<And>s. s \<in> set ss \<Longrightarrow> \<exists>b. codes_section s b"
  shows "codes_value (ObjectArrayVal ss) (PackVarint (word_of_nat (length ss)) @ concat (map section_bytes ss))"
proof -
  let ?p = "PackVarint (word_of_nat (length ss))"
  note fits = fits_maxAlloc [OF assms(1)]
  have codes: "codes_section s (section_bytes s)" if "s \<in> set ss" for s
    using assms(2) [OF that] codes_section_bytes by metis
  then have all: "list_all (\<lambda>s. codes_section s (section_bytes s)) ss"
    by (simp add: list_all_iff)
  have same: "map section_bytes (map canon_section ss) = map section_bytes ss"
    using codes by (auto intro: section_bytes_canon)
  have "encodeSections [] (map canon_section ss) = Ok (concat (map section_bytes ss))"
    using codes encodeSections_bytes [of "map canon_section ss"] unfolding same
    by (auto simp: codes_section_def)
  moreover have "encodeSections [] ss = Ok (concat (map section_bytes ss))"
    using codes by (intro encodeSections_bytes) (auto simp: codes_section_def)
  moreover have "sort_key fst \<circ> map (map_prod id canon_value) = canon_section"
    by (rule ext) (simp add: canon_section_def)
  ultimately show ?thesis
    using sec.dec_loop_enc [OF all, of "length ?p" "?p @ concat (map section_bytes ss) @ rest" rest "[]" for rest]
      fits encode_split(5) [of ?p]
    by (simp add: codes_simps array_simps make_slice_ok assms(1) UnpackVarint_length fits_unat)
qed

lemma section_okD:
  assumes "section_ok (map (map_prod id f) s)"
  shows "(n, v) \<in> set s \<Longrightarrow> length n \<le> 255 \<and> f v" and "distinct (map fst s)" and "fits (length s)"
  using assms by (auto simp: section_ok_def list_all_iff comp_def)

lemma valid_value_codes: "valid_value v \<Longrightarrow> \<exists>b. codes_value v b"
proof (induction v)
  case (Value t i u f bo bs ob a64 a32 sa oa)
  let ?v = "Value t i u f bo bs ob a64 a32 sa oa"
  have sec: "\<exists>b. codes_section s b"
    if "section_ok (map (map_prod id valid_value) s)"
      and IH: "\<And>n v. (n, v) \<in> set s \<Longrightarrow> valid_value v \<Longrightarrow> \<exists>b. codes_value v b" for s
    using section_okD [OF that(1)] by (intro section_codes) (auto intro: IH)
  have ob: "\<exists>b. codes_section ob b"
    using Value.prems Value.IH(1) by (intro sec) auto
  have oa: "\<exists>b. codes_section s b" if "s \<in> set oa" for s
    using Value.prems Value.IH(2) that by (intro sec) (auto simp: list_all_iff)
  from Value.prems have built: "built ?v" and "fits (length bs)" "8 * length a64 \<le> maxAlloc"
    "4 * length a32 \<le> maxAlloc" "24 * length sa \<le> maxAlloc" "list_all (\<lambda>s. fits (length s)) sa"
    "8 * length oa \<le> maxAlloc"
    by simp_all
  note leaf = scalar_codes string_codes [OF this(2)] array_codes(1) [OF this(3)] array_codes(2) [OF this(4)]
    array_codes(3) [OF this(5,6)] object_array_codes [OF this(7) oa] object_codes
  show ?case
    using built ob unfolding built_def Value.sel by (elim disjE exE) (erule ssubst, blast intro: leaf)+
qed

lemma valid_section_codes: "valid_section s \<Longrightarrow> \<exists>b. codes_section s b"
  using section_okD [of valid_value s] valid_value_codes
  by (intro section_codes) (auto simp: valid_section_def)

lemma storage_header_simps [simp]:
  "length storage_header = StorageHeaderSize"
  "DecodeStorage (storage_header @ b) = and_then (decodeSection b) (\<lambda>(sec, _). Ok sec)"
  using u32.get_put [of StorageSignatureA "[]"] u32.get_put [of StorageSignatureB "[]"]
  by (simp_all add: storage_header_def StorageHeaderSize_def DecodeStorage_def nth_append)

text \<open>
  C4. Storage round trip: encoding a valid section succeeds and decoding the bytes gives the
  section back, up to the order in which its maps list their entries; encoding the decoded section
  again reproduces the bytes.
\<close>

theorem storage_roundtrip:
  assumes "valid_section s"
  shows "\<exists>b. EncodeStorage s = Ok b \<and> DecodeStorage b = Ok (canon_section s)
           \<and> EncodeStorage (canon_section s) = Ok b"
proof -
  from valid_section_codes [OF assms] obtain b where "codes_section s b" ..
  then have "EncodeStorage s = Ok (storage_header @ b)" "EncodeStorage (canon_section s) = Ok (storage_header @ b)"
    and "decodeSection (b @ []) = Ok (canon_section s, length b)"
    unfolding EncodeStorage_def encode_split(1) [of storage_header] by (simp_all only: codes_section_def prepend_simps)
  then show ?thesis by simp
qed

definition example_section :: Section where
  "example_section =
     [(''node'', ObjectVal [(''port'', Uint16Val 18080), (''id'', StringVal [1, 2, 3])]),
      (''heights'', Uint64ArrayVal [5, 6]),
      (''hosts'', ObjectArrayVal [[(''b'', Int8Val 7), (''a'', BoolVal True)], []])]"

lemma example_section_valid: "valid_section example_section"
  by (simp add: example_section_def valid_section_def section_ok_def fits_def varintMax8_def maxAlloc_def
      built_def value_constructors type_tags ucast_ucast_shrink ucast_scast_shrink)

theorem storage_roundtrip_witness:
  "\<exists>b. EncodeStorage example_section = Ok b \<and> DecodeStorage b = Ok (canon_section example_section)
     \<and> EncodeStorage (canon_section example_section) = Ok b"
  by (rule storage_roundtrip) (rule example_section_valid)

section \<open>What the decoder returns\<close>

definition entries_ok :: "Section \<Rightarrow> bool" where
  "entries_ok s \<longleftrightarrow> distinct (map fst s) \<and> (\<forall>(name, v) \<in> set s. length name \<le> 255 \<and> valid_value v)"

lemma valid_section_iff: "valid_section s \<longleftrightarrow> fits (length s) \<and> entries_ok s"
  by (fastforce simp: valid_section_def section_ok_def entries_ok_def list_all_iff comp_def)

lemma entries_ok_update:
  assumes "entries_ok s" and "length name \<le> 255" and "valid_value v"
  shows "entries_ok (AList.update name v s)" and "length (AList.update name v s) \<le> Suc (length s)"
proof -
  have "set (AList.update name v s) \<subseteq> insert (name, v) (set s)"
    by (induction s) auto
  then show "entries_ok (AList.update name v s)"
    using assms unfolding entries_ok_def by (auto simp: distinct_update)
  show "length (AList.update name v s) \<le> Suc (length s)"
    by (induction s) auto
qed

lemmas valid_leaf_simps = value_constructors built_def fits_def section_ok_def maxAlloc_def
  ucast_ucast_shrink ucast_scast_shrink

lemma valid_scalar_values [simp]:
  "valid_value (Uint64Val a)" "valid_value (Int64Val a)" "valid_value (DoubleVal a)"
  "valid_value (Uint32Val b)" "valid_value (Int32Val b)" "valid_value (Uint16Val c)"
  "valid_value (Int16Val c)" "valid_value (Uint8Val d)" "valid_value (Int8Val d)" "valid_value (BoolVal t)"
  by (simp_all add: valid_leaf_simps)

lemma valid_compound_values [simp]:
  "valid_value (StringVal s) \<longleftrightarrow> fits (length s)"
  "valid_value (ObjectVal sec) \<longleftrightarrow> valid_section sec"
  "valid_value (Uint64ArrayVal xs) \<longleftrightarrow> 8 * length xs \<le> maxAlloc"
  "valid_value (Uint32ArrayVal ys) \<longleftrightarrow> 4 * length ys \<le> maxAlloc"
  "valid_value (StringArrayVal ss) \<longleftrightarrow> 24 * length ss \<le> maxAlloc \<and> list_all (\<lambda>s. fits (length s)) ss"
  "valid_value (ObjectArrayVal secs) \<longleftrightarrow> 8 * length secs \<le> maxAlloc \<and> list_all valid_section secs"
  by (simp_all add: valid_leaf_simps valid_section_def list_all_iff)

lemma array_tag_cases:
  fixes tag :: byte
  assumes "tag AND ArrayFlag \<noteq> 0"
  shows "tag = ArrayFlag OR (tag AND NOT ArrayFlag)"
proof (rule bit_eqI)
  have flag: "bit ArrayFlag n \<longleftrightarrow> n = 7" for n
    using bit_push_bit_iff [of 7 "1 :: byte" n] by (auto simp: ArrayFlag_def bit_simps)
  have "bit tag 7"
  proof (rule ccontr)
    assume "\<not> bit tag 7"
    then have "tag AND ArrayFlag = 0" by (intro bit_eqI) (auto simp: bit_and_iff flag)
    with assms show False ..
  qed
  then show "bit tag n \<longleftrightarrow> bit (ArrayFlag OR (tag AND NOT ArrayFlag)) n" if "possible_bit TYPE(8 word) n" for n
    using that by (auto simp: bit_simps flag)
qed

lemma decodeStringElem_Ok:
  "decodeStringElem b = Ok (s, k) \<Longrightarrow> k \<le> length b \<and> 0 < k \<and> fits (length s)"
  using UnpackVarint_consumed [of b] UnpackVarint_bounds [of b]
  by (auto simp: decodeStringElem_def Let_def fits_def word_le_nat_alt split: if_splits)

lemma decodeUintElem_Ok:
  "decodeUint64Elem b = Ok (x, k) \<Longrightarrow> k \<le> length b"
  "decodeUint32Elem b = Ok (y, k) \<Longrightarrow> k \<le> length b"
  by (auto simp: decodeUint64Elem_def decodeUint32Elem_def split: if_splits)

lemma make_slice_OkD: "make_slice k n = Ok u \<Longrightarrow> k * unat n \<le> maxAlloc"
  by (simp add: make_slice_def split: if_splits)

text \<open>The decoder's explicit values are those of the constructors.\<close>

lemmas decoded_values = value_constructors [symmetric]

lemma Type_constructors [simp]:
  "Type (Uint64Val a) = TypeUint64" "Type (Int64Val a) = TypeInt64" "Type (DoubleVal a) = TypeDouble"
  "Type (Uint32Val b) = TypeUint32" "Type (Int32Val b) = TypeInt32" "Type (Uint16Val c) = TypeUint16"
  "Type (Int16Val c) = TypeInt16" "Type (Uint8Val d) = TypeUint8" "Type (Int8Val d) = TypeInt8"
  "Type (BoolVal t) = TypeBool" "Type (StringVal s) = TypeString" "Type (ObjectVal sec) = TypeObject"
  "Type (Uint64ArrayVal xs) = ArrayFlag OR TypeUint64" "Type (Uint32ArrayVal ys) = ArrayFlag OR TypeUint32"
  "Type (StringArrayVal ss) = ArrayFlag OR TypeString" "Type (ObjectArrayVal secs) = ArrayFlag OR TypeObject"
  by (simp_all add: value_constructors)

lemma decodeArray_Ok:
  assumes "decodeArray buf tag = Ok (v, n)" and "tag AND ArrayFlag \<noteq> 0"
    and "\<And>u b s k. UnpackVarint buf = Ok u \<Longrightarrow> tag AND NOT ArrayFlag = TypeObject \<Longrightarrow>
           make_slice 8 (uvValue u) = Ok () \<Longrightarrow> length b \<le> length buf \<Longrightarrow>
           decodeSection b = Ok (s, k) \<Longrightarrow> k \<le> length b \<and> valid_section s"
  shows "0 < n \<and> n \<le> length buf \<and> Type v = tag \<and> valid_value v"
proof -
  from assms(1) obtain u where u: "UnpackVarint buf = Ok u"
    by (auto simp: decodeArray.simps Let_def)
  note off = UnpackVarint_consumed [OF u]
  have tag: "tag = ArrayFlag OR t" if "tag AND NOT ArrayFlag = t" for t
    using array_tag_cases [OF assms(2)] that by simp
  note loop = dec_loop_Ok [where acc = "[]" and off = "uvBytesConsumed u" and buf = buf, simplified]
  from assms(1) consider
      vs where "tag AND NOT ArrayFlag = TypeUint64" "v = Value tag 0 0 0 False [] [] vs [] [] []"
        "8 * unat (uvValue u) \<le> maxAlloc"
        "dec_loop decodeUint64Elem buf (uvBytesConsumed u) (unat (uvValue u)) [] = Ok (vs, n)"
    | vs where "tag AND NOT ArrayFlag = TypeUint32" "v = Value tag 0 0 0 False [] [] [] vs [] []"
        "4 * unat (uvValue u) \<le> maxAlloc"
        "dec_loop decodeUint32Elem buf (uvBytesConsumed u) (unat (uvValue u)) [] = Ok (vs, n)"
    | vs where "tag AND NOT ArrayFlag = TypeString" "v = Value tag 0 0 0 False [] [] [] [] vs []"
        "24 * unat (uvValue u) \<le> maxAlloc"
        "dec_loop decodeStringElem buf (uvBytesConsumed u) (unat (uvValue u)) [] = Ok (vs, n)"
    | vs where "tag AND NOT ArrayFlag = TypeObject" "v = Value tag 0 0 0 False [] [] [] [] [] vs"
        "8 * unat (uvValue u) \<le> maxAlloc"
        "dec_loop decodeSection buf (uvBytesConsumed u) (unat (uvValue u)) [] = Ok (vs, n)"
    by (auto simp: decodeArray.simps Let_def u dest!: make_slice_OkD split: if_splits prod.splits)
  then show ?thesis
  proof cases
    case 1
    with loop [OF 1(4), where P = "\<lambda>_. True"] decodeUintElem_Ok off tag [OF 1(1)] show ?thesis
      by (auto simp: decoded_values)
  next
    case 2
    with loop [OF 2(4), where P = "\<lambda>_. True"] decodeUintElem_Ok off tag [OF 2(1)] show ?thesis
      by (auto simp: decoded_values)
  next
    case 3
    with loop [OF 3(4), where P = "\<lambda>s. fits (length s)"] decodeStringElem_Ok off tag [OF 3(1)] show ?thesis
      by (auto simp: decoded_values)
  next
    case 4
    have "make_slice 8 (uvValue u) = Ok ()" using 4(3) by (simp add: make_slice_def)
    with 4 loop [OF 4(4), where P = valid_section] assms(3) [OF u 4(1)] off tag [OF 4(1)] show ?thesis
      by (auto simp: decoded_values)
  qed
qed

lemma decodeValue_Ok:
  assumes "decodeValue buf tag = Ok (v, n)"
    and "\<And>s k. tag = TypeObject \<Longrightarrow> decodeSection buf = Ok (s, k) \<Longrightarrow> 0 < k \<and> k \<le> length buf \<and> valid_section s"
    and "tag AND ArrayFlag \<noteq> 0 \<Longrightarrow> decodeArray buf tag = Ok (v, n) \<Longrightarrow>
           0 < n \<and> n \<le> length buf \<and> Type v = tag \<and> valid_value v"
  shows "0 < n \<and> n \<le> length buf \<and> Type v = tag \<and> valid_value v"
  using assms decodeStringElem_Ok [of buf]
  by (auto simp: decodeValue.simps decoded_values Suc_le_eq split: if_splits)

lemma decodeEntries_Suc_Ok:
  assumes "decodeEntries buf off (Suc cnt) s = Ok (s', n)" and "off \<le> length buf" and "entries_ok s"
  defines "off2 \<equiv> off + 1 + unat (buf ! off)"
  defines "name \<equiv> string_of (take (unat (buf ! off)) (drop (off + 1) buf))"
  assumes val: "\<And>v k. off < length buf \<Longrightarrow> off2 < length buf \<Longrightarrow>
      decodeValue (drop (off2 + 1) buf) (buf ! off2) = Ok (v, k) \<Longrightarrow>
      0 < k \<and> k \<le> length (drop (off2 + 1) buf) \<and> Type v = buf ! off2 \<and> valid_value v"
    and rec: "\<And>v k. off < length buf \<Longrightarrow> off2 < length buf \<Longrightarrow>
      decodeValue (drop (off2 + 1) buf) (buf ! off2) = Ok (v, k) \<Longrightarrow>
      decodeEntries buf (off2 + 1 + k) cnt (AList.update name v s) = Ok (s', n) \<Longrightarrow>
      off2 + 1 + k \<le> length buf \<Longrightarrow> entries_ok (AList.update name v s) \<Longrightarrow>
      off2 + 1 + k \<le> n \<and> n \<le> length buf \<and> entries_ok s' \<and> length s' \<le> length (AList.update name v s) + cnt"
  shows "off \<le> n \<and> n \<le> length buf \<and> entries_ok s' \<and> length s' \<le> length s + Suc cnt"
proof -
  from assms(1) obtain v k where g: "off < length buf" "off2 < length buf"
    and v: "decodeValue (drop (off2 + 1) buf) (buf ! off2) = Ok (v, k)"
    and d: "decodeEntries buf (off2 + 1 + k) cnt (AList.update name v s) = Ok (s', n)"
    by (auto simp: decodeEntries.simps(2) Let_def off2_def name_def split: if_splits)
  have "length name \<le> 255"
    using unsigned_less [of "buf ! off", where ?'a = nat] by (simp add: name_def)
  with val [OF g v] assms(3) have upd: "entries_ok (AList.update name v s)"
    "length (AList.update name v s) \<le> Suc (length s)"
    using entries_ok_update by blast+
  moreover have k: "off2 + 1 + k \<le> length buf" using val [OF g v] g by auto
  ultimately show ?thesis using rec [OF g v d k upd(1)] by (simp add: off2_def)
qed

lemma decode_Ok:
  "\<And>s n. decodeSection buf = Ok (s, n) \<Longrightarrow> 0 < n \<and> n \<le> length buf \<and> valid_section s"
  "\<And>s' n. decodeEntries buf' off cnt s = Ok (s', n) \<Longrightarrow> off \<le> length buf' \<Longrightarrow> entries_ok s \<Longrightarrow>
     off \<le> n \<and> n \<le> length buf' \<and> entries_ok s' \<and> length s' \<le> length s + cnt"
  "\<And>v n. decodeValue bufv tag = Ok (v, n) \<Longrightarrow> 0 < n \<and> n \<le> length bufv \<and> Type v = tag \<and> valid_value v"
  "\<And>v n. decodeArray bufa taga = Ok (v, n) \<Longrightarrow> taga AND ArrayFlag \<noteq> 0 \<Longrightarrow>
     0 < n \<and> n \<le> length bufa \<and> Type v = taga \<and> valid_value v"
proof (induction buf and buf' off cnt s and bufv tag and bufa taga
    rule: decodeSection_decodeEntries_decodeValue_decodeArray.induct)
  case (1 buf s n)
  then obtain u where u: "UnpackVarint buf = Ok u"
    and d: "decodeEntries buf (uvBytesConsumed u) (unat (uvValue u)) [] = Ok (s, n)"
    by (auto simp: decodeSection.simps)
  note c = UnpackVarint_consumed [OF u]
  from "1.IH" [of u s n] u d c have "uvBytesConsumed u \<le> n \<and> n \<le> length buf \<and> entries_ok s \<and> length s \<le> unat (uvValue u)"
    by (auto simp: entries_ok_def)
  with c UnpackVarint_bounds [OF u] show ?case
    by (auto simp: valid_section_iff fits_def word_le_nat_alt)
next
  case (3 buf off cnt s s' n)
  note v = "3.IH"(1) [OF _ refl refl _ refl refl _ refl refl]
    and rec = "3.IH"(2) [OF _ refl refl _ refl refl _ refl refl _ refl]
  show ?case
    by (rule decodeEntries_Suc_Ok [OF "3.prems"]) (rule v rec; simp)+
next
  case (4 buf tag v n)
  show ?case
  proof (rule decodeValue_Ok [OF "4.prems"])
    fix s k assume tag: "tag = TypeObject" and "decodeSection buf = Ok (s, k)"
    then show "0 < k \<and> k \<le> length buf \<and> valid_section s"
      by (intro "4.IH"(2)) (simp_all add: tag type_tags)
  qed (use "4.IH"(1) in simp)
next
  case (5 buf tag v n)
  show ?case
  proof (rule decodeArray_Ok [OF "5.prems"])
    fix u b s k
    assume a: "UnpackVarint buf = Ok u" "tag AND NOT ArrayFlag = TypeObject" "make_slice 8 (uvValue u) = Ok ()"
      "length b \<le> length buf" "decodeSection b = Ok (s, k)"
    have "0 < k \<and> k \<le> length b \<and> valid_section s"
      by (rule "5.IH" [OF a(2) [symmetric] a(1) refl refl _ _ _ refl a(3-5)]) (simp_all add: type_tags)
    then show "k \<le> length b \<and> valid_section s" by simp
  qed
qed auto

lemma DecodeStorage_Ok: "DecodeStorage data = Ok s \<Longrightarrow> valid_section s"
  by (auto simp: DecodeStorage_def dest: decode_Ok(1) split: if_splits)

text \<open>
  C25. Whatever the input, a section the decoder accepts is well formed at every depth: distinct
  keys, names of at most 255 bytes, only known type tags with the fields their accessors read. It
  can therefore be encoded again, and that encoding decodes to the same maps.
\<close>

theorem DecodeStorage_wellformed:
  assumes "DecodeStorage data = Ok s"
  shows "valid_section s \<and> (\<exists>b. EncodeStorage s = Ok b \<and> DecodeStorage b = Ok (canon_section s))"
proof -
  have "valid_section s" using assms by (rule DecodeStorage_Ok)
  moreover from valid_section_codes [OF this] obtain b where "codes_section s b" ..
  then have "EncodeStorage s = Ok (storage_header @ b)" "decodeSection (b @ []) = Ok (canon_section s, length b)"
    unfolding EncodeStorage_def encode_split(1) [of storage_header] by (simp_all only: codes_section_def prepend_simps)
  ultimately show ?thesis by simp
qed

lemma small_storage_decodes:
  "DecodeStorage (storage_header @ [4, 1, 97, 8, 9]) = Ok [(''a'', Uint8Val 9)]"
  by (simp add: decodeSection.simps decodeEntries.simps(2) decodeValue.simps UnpackVarint_def varint_consts
      type_tags string_of_def char_of_def bit_0 value_constructors)

theorem DecodeStorage_wellformed_witness:
  "valid_section [(''a'', Uint8Val 9)] \<and> (\<exists>b. EncodeStorage [(''a'', Uint8Val 9)] = Ok b
     \<and> DecodeStorage b = Ok (canon_section [(''a'', Uint8Val 9)]))"
  using DecodeStorage_wellformed [OF small_storage_decodes] .

subsection \<open>Panics\<close>

lemma decodeElem_no_Panic [simp]:
  "decodeUint64Elem b \<noteq> Panic p" "decodeUint32Elem b \<noteq> Panic p" "decodeStringElem b \<noteq> Panic p"
  by (simp_all add: decodeUint64Elem_def decodeUint32Elem_def decodeStringElem_def and_then_eq_Panic Let_def)

lemma make_slice_Panic: "make_slice k n = Panic p \<Longrightarrow> p = MakeSliceLenOutOfRange"
  by (simp add: make_slice_def split: if_splits)

lemma decodeArray_Panic:
  assumes "decodeArray buf tag = Panic p"
    and "\<And>u b. UnpackVarint buf = Ok u \<Longrightarrow> tag AND NOT ArrayFlag = TypeObject \<Longrightarrow>
           make_slice 8 (uvValue u) = Ok () \<Longrightarrow> length b \<le> length buf \<Longrightarrow>
           decodeSection b = Panic p \<Longrightarrow> p = MakeSliceLenOutOfRange"
  shows "p = MakeSliceLenOutOfRange"
  using assms
  by (auto simp: decodeArray.simps Let_def and_then_eq_Panic dest!: dec_loop_Panic dest: make_slice_Panic
      split: if_splits prod.splits)

lemma decodeEntries_Suc_PanicE:
  assumes "decodeEntries buf off (Suc cnt) s = Panic p"
  defines "off2 \<equiv> off + 1 + unat (buf ! off)"
  defines "name \<equiv> string_of (take (unat (buf ! off)) (drop (off + 1) buf))"
  obtains "off < length buf" "off2 < length buf" "decodeValue (drop (off2 + 1) buf) (buf ! off2) = Panic p"
  | v k where "off < length buf" "off2 < length buf"
      "decodeValue (drop (off2 + 1) buf) (buf ! off2) = Ok (v, k)"
      "decodeEntries buf (off2 + 1 + k) cnt (AList.update name v s) = Panic p"
  using assms by (auto simp: decodeEntries.simps(2) and_then_eq_Panic Let_def split: if_splits)

lemma decodeValue_PanicE:
  assumes "decodeValue buf tag = Panic p"
  obtains "tag AND ArrayFlag \<noteq> 0" "decodeArray buf tag = Panic p"
  | "tag = TypeObject" "decodeSection buf = Panic p"
  using assms by (auto simp: decodeValue.simps and_then_eq_Panic split: if_splits)

lemma decode_Panic:
  "decodeSection buf = Panic p \<Longrightarrow> p = MakeSliceLenOutOfRange"
  "decodeEntries buf' off cnt s = Panic p \<Longrightarrow> p = MakeSliceLenOutOfRange"
  "decodeValue bufv tag = Panic p \<Longrightarrow> p = MakeSliceLenOutOfRange"
  "decodeArray bufa taga = Panic p \<Longrightarrow> p = MakeSliceLenOutOfRange"
proof (induction buf and buf' off cnt s and bufv tag and bufa taga
    rule: decodeSection_decodeEntries_decodeValue_decodeArray.induct)
  case (1 buf)
  from "1.prems" show ?case
    by (auto simp: decodeSection.simps and_then_eq_Panic intro: "1.IH")
next
  case (3 buf off cnt s)
  note v = "3.IH"(1) [OF _ refl refl _ refl refl _ refl refl]
    and rec = "3.IH"(2) [OF _ refl refl _ refl refl _ refl refl _ refl]
  from "3.prems" show ?case
    by (elim decodeEntries_Suc_PanicE) (rule v rec; simp)+
next
  case (4 buf tag)
  from "4.prems" show ?case
  proof (cases rule: decodeValue_PanicE)
    case 1
    then show ?thesis by (rule "4.IH"(1))
  next
    case 2
    then show ?thesis by (intro "4.IH"(2)) (simp_all add: type_tags)
  qed
next
  case (5 buf tag)
  show ?case
  proof (rule decodeArray_Panic [OF "5.prems"])
    fix u b
    assume a: "UnpackVarint buf = Ok u" "tag AND NOT ArrayFlag = TypeObject" "make_slice 8 (uvValue u) = Ok ()"
      "length b \<le> length buf" "decodeSection b = Panic p"
    show "p = MakeSliceLenOutOfRange"
      by (rule "5.IH" [OF a(2) [symmetric] a(1) refl refl _ _ _ refl a(3-5)]) (simp_all add: type_tags)
  qed
qed simp_all


definition huge_array_storage :: bytes where
  "huge_array_storage = storage_header @ [4, 1, 97, 0x85, 255, 255, 255, 255, 255, 255, 255, 255]"

lemma huge_count: "Uint64 [255, 255, 255, 255, 255, 255, 255, 255] = - 1"
  by (simp add: Uint64_def)

lemma huge_array_panics: "DecodeStorage huge_array_storage = Panic MakeSliceLenOutOfRange"
proof -
  have "unat (drop_bit 2 (- 1 :: uint64)) = 4611686018427387903"
    by (simp add: unat_drop_bit_eq drop_bit_eq_div)
  then show ?thesis
    by (simp add: huge_array_storage_def decodeSection.simps decodeEntries.simps(2) decodeValue.simps
        decodeArray.simps UnpackVarint_def varint_consts type_tags huge_count make_slice_def maxAlloc_def)
qed


text \<open>
  The panic is reachable from the network: a payload of 21 bytes whose only entry announces
  a \<^verbatim>\<open>uint64\<close> array of \<open>2\<^sup>6\<^sup>2 - 1\<close> elements crashes the decoder instead of returning
  \<^verbatim>\<open>ErrStorageTruncated\<close>.
\<close>

theorem DecodeStorage_huge_array_panics:
  "length huge_array_storage = 21 \<and> DecodeStorage huge_array_storage = Panic MakeSliceLenOutOfRange"
  using huge_array_panics by (simp add: huge_array_storage_def StorageHeaderSize_def)

end
