(* ===== verification/Sha256_Hmac.thy ===== *)
theory Sha256_Hmac
  imports P2P_Prelude
begin

text \<open>
  The parts of Go's \<^verbatim>\<open>crypto/sha256\<close>, \<^verbatim>\<open>crypto/hmac\<close> and \<^verbatim>\<open>crypto/hkdf\<close> that the packet format
  relies on, as executable functions on byte lists: SHA-256 (FIPS 180-4), HMAC (RFC 2104) and the
  expand step of HKDF (RFC 5869). Only the lengths of their results matter for the properties
  proved of the packets; the functions themselves make every packet computable.
\<close>

section \<open>SHA-256\<close>

text \<open>
  The constants are those the standard prescribes, computed instead of listed: the first 32 bits of
  the fractional parts of the square roots of the first 8 primes and of the cube roots of the first
  64. \<open>iroot k x\<close> is the integer \<open>k\<close>-th root, found bit by bit from bit 35 down.
\<close>

definition iroot :: "nat \<Rightarrow> nat \<Rightarrow> nat" where
  "iroot k x = foldl (\<lambda>r b. if (r + 2 ^ b) ^ k \<le> x then r + 2 ^ b else r) 0 (rev [0..<36])"

definition first_primes :: "nat list" where
  "first_primes = filter (\<lambda>n. list_all (\<lambda>d. n mod d \<noteq> 0) [2..<n]) [2..<312]"

definition sha256_H0 :: "uint32 list" where
  "sha256_H0 = map (\<lambda>p. word_of_nat (iroot 2 (p * 2 ^ 64))) [2, 3, 5, 7, 11, 13, 17, 19]"

definition sha256_K :: "uint32 list" where
  "sha256_K = map (\<lambda>p. word_of_nat (iroot 3 (p * 2 ^ 96))) first_primes"

definition rotr :: "nat \<Rightarrow> uint32 \<Rightarrow> uint32" where
  "rotr n w = drop_bit n w OR push_bit (32 - n) w"

definition be_word :: "bytes \<Rightarrow> uint32" where
  "be_word b = word_of_nat (le_nat (rev b))"

definition be_bytes :: "nat \<Rightarrow> nat \<Rightarrow> bytes" where
  "be_bytes n x = rev (le_bytes n x)"

fun chunks :: "nat \<Rightarrow> nat \<Rightarrow> 'a list \<Rightarrow> 'a list list" where
  "chunks 0 k xs = []"
| "chunks (Suc n) k xs = take k xs # chunks n k (drop k xs)"

definition sha256_pad :: "bytes \<Rightarrow> bytes" where
  "sha256_pad m = m @ [0x80] @ replicate ((119 - length m mod 64) mod 64) 0 @ be_bytes 8 (8 * length m)"

text \<open>The message schedule, newest word first.\<close>

fun sha256_extend :: "nat \<Rightarrow> uint32 list \<Rightarrow> uint32 list" where
  "sha256_extend 0 w = w"
| "sha256_extend (Suc n) w =
     (let w15 = w ! 14; w2 = w ! 1;
          s0 = rotr 7 w15 XOR rotr 18 w15 XOR drop_bit 3 w15;
          s1 = rotr 17 w2 XOR rotr 19 w2 XOR drop_bit 10 w2
      in sha256_extend n ((w ! 15 + s0 + w ! 6 + s1) # w))"

fun sha256_round :: "uint32 list \<Rightarrow> uint32 \<times> uint32 \<Rightarrow> uint32 list" where
  "sha256_round [a, b, c, d, e, f, g, h] (k, w) =
     (let s1 = rotr 6 e XOR rotr 11 e XOR rotr 25 e;
          ch = (e AND f) XOR (NOT e AND g);
          t1 = h + s1 + ch + k + w;
          s0 = rotr 2 a XOR rotr 13 a XOR rotr 22 a;
          maj = (a AND b) XOR (a AND c) XOR (b AND c)
      in [t1 + s0 + maj, a, b, c, d + t1, e, f, g])"
| "sha256_round st _ = st"

definition sha256_block :: "uint32 list \<Rightarrow> bytes \<Rightarrow> uint32 list" where
  "sha256_block H b =
     (let w = rev (sha256_extend 48 (rev (map be_word (chunks 16 4 b))))
      in map2 (+) H (foldl sha256_round H (zip sha256_K w)))"

definition Sum256 :: "bytes \<Rightarrow> bytes" where
  "Sum256 m =
     (let p = sha256_pad m
      in concat (map (\<lambda>w. be_bytes 4 (unat w)) (foldl sha256_block sha256_H0 (chunks (length p div 64) 64 p))))"

definition sha256_Size :: nat where "sha256_Size = 32"
definition sha256_BlockSize :: nat where "sha256_BlockSize = 64"

lemma length_be_bytes [simp]: "length (be_bytes n x) = n"
  by (simp add: be_bytes_def)

lemma length_sha256_round [simp]: "length (sha256_round st kw) = length st"
  by (cases "(st, kw)" rule: sha256_round.cases) (simp_all add: Let_def)

lemma length_foldl_round: "length (foldl sha256_round st kws) = length st"
  by (induction kws arbitrary: st) simp_all

lemma length_foldl_block: "length H = 8 \<Longrightarrow> length (foldl sha256_block H bs) = 8"
  by (induction bs arbitrary: H) (simp_all add: sha256_block_def Let_def length_foldl_round)

lemma length_Sum256 [simp]: "length (Sum256 m) = sha256_Size"
proof -
  have "length (concat (map (\<lambda>w. be_bytes 4 (unat w)) ws)) = 4 * length ws" for ws :: "uint32 list"
    by (induction ws) simp_all
  moreover have "length (foldl sha256_block sha256_H0 bs) = 8" for bs
    by (rule length_foldl_block) (simp add: sha256_H0_def)
  ultimately show ?thesis by (simp add: Sum256_def Let_def sha256_Size_def)
qed

section \<open>HMAC and HKDF-Expand\<close>

definition hmac_key_block :: "bytes \<Rightarrow> bytes" where
  "hmac_key_block key =
     (let k = if length key > sha256_BlockSize then Sum256 key else key
      in k @ replicate (sha256_BlockSize - length k) 0)"

definition hmac_sha256 :: "bytes \<Rightarrow> bytes \<Rightarrow> bytes" where
  "hmac_sha256 key m =
     (let k = hmac_key_block key
      in Sum256 (map (\<lambda>b. b XOR 0x5c) k @ Sum256 (map (\<lambda>b. b XOR 0x36) k @ m)))"

text \<open>\<open>hkdf_blocks prk info prev i n\<close>: the blocks \<open>T(i)\<close>, \<dots>, \<open>T(i + n - 1)\<close>, with \<open>prev = T(i - 1)\<close>.\<close>

fun hkdf_blocks :: "bytes \<Rightarrow> bytes \<Rightarrow> bytes \<Rightarrow> nat \<Rightarrow> nat \<Rightarrow> bytes" where
  "hkdf_blocks prk info prev i 0 = []"
| "hkdf_blocks prk info prev i (Suc n) =
     (let t = hmac_sha256 prk (prev @ info @ [word_of_nat i])
      in t @ hkdf_blocks prk info t (i + 1) n)"

definition hkdf_Expand :: "bytes \<Rightarrow> string \<Rightarrow> nat \<Rightarrow> bytes result" where
  "hkdf_Expand prk info keyLength =
     (if keyLength > 255 * sha256_Size then Fail (Errorf ''hkdf: requested key length too large'' None)
      else Ok (take keyLength
        (hkdf_blocks prk (bytes_of info) [] 1 ((keyLength + sha256_Size - 1) div sha256_Size))))"

lemma length_hmac_sha256 [simp]: "length (hmac_sha256 key m) = sha256_Size"
  by (simp add: hmac_sha256_def Let_def)

end
