(* ===== verification/UEPS.thy ===== *)
theory UEPS
  imports Sha256_Hmac
begin

text \<open>
  The UEPS packet format: \<^verbatim>\<open>src/go/ueps/packet.go\<close> (builder and signer) and
  \<^verbatim>\<open>src/go/ueps/reader.go\<close> (reader and verifier). A frame is a sequence of tag-length-value
  fields ended by the payload field; the signature covers every field but the signature itself, and
  of the payload only the bytes.

  The builder writes to an in-memory buffer, whose writes do not fail. The reader works on a
  finite stream: the bytes that will arrive before the connection ends.
\<close>

section \<open>Packets\<close>

definition uepsMACKeyInfoV1 :: string where "uepsMACKeyInfoV1 = ''lthn-p2p-mac-v1''"

definition TagVersion :: byte where "TagVersion = 0x01"
definition TagCurrentLay :: byte where "TagCurrentLay = 0x02"
definition TagTargetLay :: byte where "TagTargetLay = 0x03"
definition TagIntent :: byte where "TagIntent = 0x04"
definition TagThreatScore :: byte where "TagThreatScore = 0x05"
definition TagHMAC :: byte where "TagHMAC = 0x06"
definition TagPayload :: byte where "TagPayload = 0xFF"

lemmas ueps_tags = TagVersion_def TagCurrentLay_def TagTargetLay_def TagIntent_def
  TagThreatScore_def TagHMAC_def TagPayload_def

record UEPSHeader =
  Version :: byte
  CurrentLayer :: byte
  TargetLayer :: byte
  IntentID :: byte
  ThreatScore :: uint16

record PacketBuilder =
  pbHeader :: UEPSHeader
  pbPayload :: bytes

record ParsedPacket =
  ppHeader :: UEPSHeader
  ppPayload :: bytes

definition NewBuilder :: "byte \<Rightarrow> bytes \<Rightarrow> PacketBuilder" where
  "NewBuilder intentID payload =
     \<lparr>pbHeader = \<lparr>Version = 0x09, CurrentLayer = 5, TargetLayer = 5, IntentID = intentID, ThreatScore = 0\<rparr>,
      pbPayload = payload\<rparr>"

section \<open>Signing\<close>

definition TLVTooLarge :: go_error where
  "TLVTooLarge = E ''ueps.writeTLV'' ''TLV value too large for 2-byte length header'' None"

definition writeTLV :: "byte \<Rightarrow> bytes \<Rightarrow> (bytes, unit) cmd" where
  "writeTLV tag v buf =
     (if length v > 65535 then (Fail TLVTooLarge, buf)
      else (Ok (), buf @ [tag] @ PutUint16BE (word_of_nat (length v)) @ v))"

definition derivePacketMACKey :: "bytes \<Rightarrow> bytes result" where
  "derivePacketMACKey sharedSecret =
     map_err (\<lambda>e. Errorf ''derive UEPS MAC key'' (Some e)) (hkdf_Expand sharedSecret uepsMACKeyInfoV1 sha256_Size)"

definition MarshalAndSign :: "PacketBuilder \<Rightarrow> bytes \<Rightarrow> bytes result" where
  "MarshalAndSign p sharedSecret =
     fst (cmd_then (writeTLV TagVersion [Version (pbHeader p)]) (\<lambda>_.
          cmd_then (writeTLV TagCurrentLay [CurrentLayer (pbHeader p)]) (\<lambda>_.
          cmd_then (writeTLV TagTargetLay [TargetLayer (pbHeader p)]) (\<lambda>_.
          cmd_then (writeTLV TagIntent [IntentID (pbHeader p)]) (\<lambda>_.
          cmd_then (writeTLV TagThreatScore (PutUint16BE (ThreatScore (pbHeader p)))) (\<lambda>_.
          cmd_then (of_result (derivePacketMACKey sharedSecret)) (\<lambda>macKey buf.
            cmd_then (writeTLV TagHMAC (hmac_sha256 macKey (buf @ pbPayload p))) (\<lambda>_.
            cmd_then (writeTLV TagPayload (pbPayload p)) (\<lambda>_ buf'.
              (Ok buf', buf'))) buf)))))) [])"

section \<open>Verification\<close>

text \<open>One iteration's reads: tag, length bytes, value.\<close>

definition readTLV :: "(bytes, byte \<times> bytes \<times> bytes) cmd" where
  "readTLV =
     cmd_then ReadByte (\<lambda>tag.
     cmd_then (ReadFull 2) (\<lambda>lenBuf.
     cmd_then (ReadFull (unat (Uint16BE lenBuf))) (\<lambda>v r. (Ok (tag, lenBuf, v), r))))"

text \<open>
  The header fields a tag sets. \<^verbatim>\<open>value[0]\<close> and \<^verbatim>\<open>binary.BigEndian.Uint16(value)\<close> panic on a value
  that is too short; an unknown tag changes nothing.
\<close>

definition setHeader :: "byte \<Rightarrow> bytes \<Rightarrow> UEPSHeader \<Rightarrow> UEPSHeader result" where
  "setHeader tag v h =
     (if tag = TagVersion then
        (if v = [] then Panic IndexOutOfRange else Ok (h\<lparr>Version := v ! 0\<rparr>))
      else if tag = TagCurrentLay then
        (if v = [] then Panic IndexOutOfRange else Ok (h\<lparr>CurrentLayer := v ! 0\<rparr>))
      else if tag = TagTargetLay then
        (if v = [] then Panic IndexOutOfRange else Ok (h\<lparr>TargetLayer := v ! 0\<rparr>))
      else if tag = TagIntent then
        (if v = [] then Panic IndexOutOfRange else Ok (h\<lparr>IntentID := v ! 0\<rparr>))
      else if tag = TagThreatScore then
        (if length v < 2 then Panic IndexOutOfRange else Ok (h\<lparr>ThreatScore := Uint16BE v\<rparr>))
      else Ok h)"

record read_state =
  signedData :: bytes
  rsHeader :: UEPSHeader
  rsSignature :: bytes

lemma readTLV_shorter:
  assumes "readTLV r = (Ok x, r')"
  shows "length r' < length r"
proof -
  from assms obtain tag r1 lenBuf r2 v where "ReadByte r = (Ok tag, r1)" "ReadFull 2 r1 = (Ok lenBuf, r2)"
    "ReadFull (unat (Uint16BE lenBuf)) r2 = (Ok v, r')"
    unfolding readTLV_def by (elim cmd_then_OkE) auto
  then show ?thesis by (cases r) (auto simp: ReadFull_Ok_iff)
qed

function read_tlvs :: "read_state \<Rightarrow> (bytes, read_state \<times> bytes) cmd" where
  "read_tlvs st r =
     (case readTLV r of
        (Fail e, r') \<Rightarrow> (Fail e, r')
      | (Panic p, r') \<Rightarrow> (Panic p, r')
      | (Ok (tag, lenBuf, v), r') \<Rightarrow>
          if tag = TagHMAC then read_tlvs (st\<lparr>rsSignature := v\<rparr>) r'
          else if tag = TagPayload then (Ok (st, v), r')
          else (case setHeader tag v (rsHeader st) of
              Fail e \<Rightarrow> (Fail e, r')
            | Panic p \<Rightarrow> (Panic p, r')
            | Ok h \<Rightarrow> read_tlvs (st\<lparr>rsHeader := h, signedData := signedData st @ [tag] @ lenBuf @ v\<rparr>) r'))"
  by pat_completeness auto
termination by (relation "measure (\<lambda>(st, r). length r)") (auto dest: readTLV_shorter [OF sym])

declare read_tlvs.simps [simp del]

definition zero_header :: UEPSHeader where
  "zero_header = \<lparr>Version = 0, CurrentLayer = 0, TargetLayer = 0, IntentID = 0, ThreatScore = 0\<rparr>"

definition ErrMissingHMAC :: go_error where
  "ErrMissingHMAC = E ''ueps.ReadAndVerify'' ''UEPS packet missing HMAC signature'' None"
definition ErrHMACMismatch :: go_error where
  "ErrHMACMismatch = E ''ueps.ReadAndVerify'' ''integrity violation: HMAC mismatch (ThreatScore +100)'' None"

definition verifyPacket :: "bytes \<Rightarrow> read_state \<Rightarrow> bytes \<Rightarrow> ParsedPacket result" where
  "verifyPacket sharedSecret st payload =
     (if length (rsSignature st) = 0 then Fail ErrMissingHMAC
      else and_then (derivePacketMACKey sharedSecret) (\<lambda>macKey.
        if rsSignature st \<noteq> hmac_sha256 macKey (signedData st @ payload) then Fail ErrHMACMismatch
        else Ok \<lparr>ppHeader = rsHeader st, ppPayload = payload\<rparr>))"

definition ReadAndVerify :: "bytes \<Rightarrow> (bytes, ParsedPacket) cmd" where
  "ReadAndVerify sharedSecret =
     cmd_then (read_tlvs \<lparr>signedData = [], rsHeader = zero_header, rsSignature = []\<rparr>)
       (\<lambda>(st, payload). of_result (verifyPacket sharedSecret st payload))"

section \<open>Frames as lists of fields\<close>

type_synonym tlv = "byte \<times> bytes"

fun tlv_bytes :: "tlv \<Rightarrow> bytes" where
  "tlv_bytes (tag, v) = [tag] @ PutUint16BE (word_of_nat (length v)) @ v"

definition tlvs_bytes :: "tlv list \<Rightarrow> bytes" where
  "tlvs_bytes tlvs = concat (map tlv_bytes tlvs)"

text \<open>The fields before the payload field: lengths that fit in 16 bits, no payload tag.\<close>

definition framed :: "tlv list \<Rightarrow> bool" where
  "framed tlvs \<longleftrightarrow> list_all (\<lambda>(tag, v). length v \<le> 65535 \<and> tag \<noteq> TagPayload) tlvs"

fun scan :: "tlv list \<Rightarrow> UEPSHeader \<Rightarrow> UEPSHeader result" where
  "scan [] h = Ok h"
| "scan ((tag, v) # tlvs) h = and_then (if tag = TagHMAC then Ok h else setHeader tag v h) (scan tlvs)"

definition signed_part :: "tlv list \<Rightarrow> bytes" where
  "signed_part tlvs = tlvs_bytes (filter (\<lambda>(tag, _). tag \<noteq> TagHMAC) tlvs)"

definition signature_of :: "tlv list \<Rightarrow> bytes \<Rightarrow> bytes" where
  "signature_of tlvs sig = fold (\<lambda>(tag, v) s. if tag = TagHMAC then v else s) tlvs sig"

lemma tlvs_simps [simp]:
  "tlvs_bytes [] = []" "tlvs_bytes (t # ts) = tlv_bytes t @ tlvs_bytes ts"
  "framed []" "framed ((tag, v) # ts) \<longleftrightarrow> length v \<le> 65535 \<and> tag \<noteq> TagPayload \<and> framed ts"
  "signed_part [] = []"
  "signed_part ((tag, v) # ts) = (if tag = TagHMAC then signed_part ts else tlv_bytes (tag, v) @ signed_part ts)"
  "signature_of [] sig = sig"
  "signature_of ((tag, v) # ts) sig = signature_of ts (if tag = TagHMAC then v else sig)"
  by (simp_all add: tlvs_bytes_def framed_def signed_part_def signature_of_def)

declare tlv_bytes.simps [simp del]

lemma unat_length16: "n \<le> 65535 \<Longrightarrow> unat (word_of_nat n :: uint16) = n"
  by (simp add: unat_of_nat)

lemma readTLV_tlv_bytes [simp]:
  assumes "length v \<le> 65535"
  shows "readTLV (tlv_bytes (tag, v) @ rest) = (Ok (tag, PutUint16BE (word_of_nat (length v)), v), rest)"
  using unat_length16 [OF assms] be16.get_put [of "word_of_nat (length v)" "[]"]
  by (simp add: tlv_bytes.simps readTLV_def)

lemma readTLV_OkD:
  assumes "readTLV r = (Ok (tag, lenBuf, v), r')"
  shows "r = tlv_bytes (tag, v) @ r' \<and> length v \<le> 65535 \<and> lenBuf = PutUint16BE (word_of_nat (length v))"
proof -
  from assms obtain r1 r2 where "ReadByte r = (Ok tag, r1)" and l: "ReadFull 2 r1 = (Ok lenBuf, r2)"
    and v: "ReadFull (unat (Uint16BE lenBuf)) r2 = (Ok v, r')"
    unfolding readTLV_def by (elim cmd_then_OkE) auto
  then have r: "r = tag # lenBuf @ v @ r'" and n: "length v = unat (Uint16BE lenBuf)" "length lenBuf = 2"
    by (cases r; simp add: ReadFull_Ok_iff)+
  have "length v < 65536"
    using unsigned_less [of "Uint16BE lenBuf", where ?'a = nat] n(1) by simp
  moreover have "PutUint16BE (word_of_nat (length v)) = lenBuf"
    using n be16.put_get by simp
  ultimately show ?thesis by (simp add: r tlv_bytes.simps)
qed

lemma readTLV_no_Panic [simp]: "readTLV r \<noteq> (Panic p, r')"
proof
  assume "readTLV r = (Panic p, r')"
  then show False
    unfolding readTLV_def
    by (elim cmd_then_PanicE) (auto simp: ReadByte_def ReadFull_def split: list.splits if_splits)
qed

lemma read_tlvs_frame:
  assumes "framed tlvs" and "length payload \<le> 65535" and "scan tlvs (rsHeader st) = Ok h"
  shows "read_tlvs st (tlvs_bytes tlvs @ tlv_bytes (TagPayload, payload) @ rest)
       = (Ok (\<lparr>signedData = signedData st @ signed_part tlvs, rsHeader = h,
               rsSignature = signature_of tlvs (rsSignature st)\<rparr>, payload), rest)"
  using assms
proof (induction tlvs arbitrary: st)
  case Nil
  then show ?case by (subst read_tlvs.simps) (simp add: ueps_tags)
next
  case (Cons tlv tlvs)
  obtain tag v where tlv: "tlv = (tag, v)" by (cases tlv)
  with Cons.prems have v: "length v \<le> 65535" and "framed tlvs" "tag \<noteq> TagPayload" by simp_all
  note IH = Cons.IH [OF this(2) Cons.prems(2)]
  show ?case
  proof (cases "tag = TagHMAC")
    case True
    then show ?thesis
      using Cons.prems(3) v IH [of "st\<lparr>rsSignature := v\<rparr>"] by (subst read_tlvs.simps) (simp add: tlv)
  next
    case False
    with Cons.prems(3) tlv obtain h' where h': "setHeader tag v (rsHeader st) = Ok h'" "scan tlvs h' = Ok h"
      by auto
    with False \<open>tag \<noteq> TagPayload\<close> v show ?thesis
      using IH [of "st\<lparr>rsHeader := h', signedData := signedData st @ tlv_bytes (tag, v)\<rparr>"]
      by (subst read_tlvs.simps) (simp add: tlv, simp add: tlv_bytes.simps)
  qed
qed

lemma setHeader_no_Fail [simp]: "setHeader tag v h \<noteq> Fail e"
  by (simp add: setHeader_def)

lemma read_tlvs_OkE:
  assumes "read_tlvs st r = (Ok (st', payload), rest)"
  obtains (hmac) v r' where "readTLV r = (Ok (TagHMAC, PutUint16BE (word_of_nat (length v)), v), r')"
      "read_tlvs (st\<lparr>rsSignature := v\<rparr>) r' = (Ok (st', payload), rest)"
  | (payload) l where "readTLV r = (Ok (TagPayload, l, payload), rest)" "st' = st"
  | (header) tag v r' h where "readTLV r = (Ok (tag, PutUint16BE (word_of_nat (length v)), v), r')"
      "tag \<noteq> TagHMAC" "tag \<noteq> TagPayload" "setHeader tag v (rsHeader st) = Ok h"
      "read_tlvs (st\<lparr>rsHeader := h, signedData := signedData st @ tlv_bytes (tag, v)\<rparr>) r' = (Ok (st', payload), rest)"
proof -
  from assms obtain tag l v r' where t: "readTLV r = (Ok (tag, l, v), r')"
    by (subst (asm) read_tlvs.simps) (auto split: prod.splits result.splits)
  have l: "l = PutUint16BE (word_of_nat (length v))" using readTLV_OkD [OF t] by simp
  from assms t consider "tag = TagHMAC" "read_tlvs (st\<lparr>rsSignature := v\<rparr>) r' = (Ok (st', payload), rest)"
    | "tag = TagPayload" "st' = st" "v = payload" "r' = rest"
    | h where "tag \<noteq> TagHMAC" "tag \<noteq> TagPayload" "setHeader tag v (rsHeader st) = Ok h"
      "read_tlvs (st\<lparr>rsHeader := h, signedData := signedData st @ [tag] @ l @ v\<rparr>) r' = (Ok (st', payload), rest)"
    by (subst (asm) read_tlvs.simps) (auto split: result.splits if_splits)
  then show ?thesis
    by cases (use t l that in \<open>auto simp: tlv_bytes.simps\<close>)
qed

lemma read_tlvs_OkD:
  assumes "read_tlvs st r = (Ok (st', payload), rest)"
  shows "\<exists>tlvs. framed tlvs \<and> length payload \<le> 65535
     \<and> r = tlvs_bytes tlvs @ tlv_bytes (TagPayload, payload) @ rest
     \<and> scan tlvs (rsHeader st) = Ok (rsHeader st')
     \<and> signedData st' = signedData st @ signed_part tlvs
     \<and> rsSignature st' = signature_of tlvs (rsSignature st)"
  using assms
proof (induction "length r" arbitrary: st r rule: less_induct)
  case less
  from less.prems show ?case
  proof (cases rule: read_tlvs_OkE)
    case (hmac v r')
    note t = readTLV_OkD [OF hmac(1)]
    from less.hyps [OF readTLV_shorter [OF hmac(1)] hmac(2)] obtain tlvs where
      "framed tlvs" "length payload \<le> 65535" "r' = tlvs_bytes tlvs @ tlv_bytes (TagPayload, payload) @ rest"
      "scan tlvs (rsHeader st) = Ok (rsHeader st')" "signedData st' = signedData st @ signed_part tlvs"
      "rsSignature st' = signature_of tlvs v"
      by auto
    with t show ?thesis by (intro exI [of _ "(TagHMAC, v) # tlvs"]) (simp add: ueps_tags)
  next
    case (payload l)
    with readTLV_OkD [OF payload(1)] show ?thesis by (intro exI [of _ "[]"]) simp
  next
    case (header tag v r' h)
    note t = readTLV_OkD [OF header(1)]
    from less.hyps [OF readTLV_shorter [OF header(1)] header(5)] obtain tlvs where
      "framed tlvs" "length payload \<le> 65535" "r' = tlvs_bytes tlvs @ tlv_bytes (TagPayload, payload) @ rest"
      "scan tlvs h = Ok (rsHeader st')" "signedData st' = (signedData st @ tlv_bytes (tag, v)) @ signed_part tlvs"
      "rsSignature st' = signature_of tlvs (rsSignature st)"
      by auto
    with t header(2-4) show ?thesis by (intro exI [of _ "(tag, v) # tlvs"]) simp
  qed
qed

text \<open>The MAC of a packet, with the key derivation written out; deriving 32 bytes never fails.\<close>

definition packet_mac :: "bytes \<Rightarrow> bytes \<Rightarrow> bytes" where
  "packet_mac sharedSecret m =
     hmac_sha256 (hmac_sha256 sharedSecret (bytes_of uepsMACKeyInfoV1 @ [1])) m"

lemma derivePacketMACKey_Ok:
  "derivePacketMACKey sharedSecret = Ok (hmac_sha256 sharedSecret (bytes_of uepsMACKeyInfoV1 @ [1]))"
proof -
  have "(sha256_Size + sha256_Size - 1) div sha256_Size = Suc 0" by (simp add: sha256_Size_def)
  then show ?thesis by (simp add: derivePacketMACKey_def hkdf_Expand_def)
qed

lemma length_packet_mac [simp]: "length (packet_mac k m) = 32"
  by (simp add: packet_mac_def sha256_Size_def)

lemma verifyPacket_Ok_iff:
  "verifyPacket sharedSecret st payload = Ok pkt \<longleftrightarrow>
     rsSignature st = packet_mac sharedSecret (signedData st @ payload)
     \<and> pkt = \<lparr>ppHeader = rsHeader st, ppPayload = payload\<rparr>"
proof -
  have "rsSignature st = packet_mac sharedSecret m \<Longrightarrow> rsSignature st \<noteq> []" for m
    by (metis length_packet_mac list.size(3) zero_neq_numeral)
  then show ?thesis
    by (auto simp: verifyPacket_def derivePacketMACKey_Ok packet_mac_def)
qed

lemma ReadAndVerify_frame:
  assumes "framed tlvs" and "length payload \<le> 65535" and "scan tlvs zero_header = Ok h"
    and "signature_of tlvs [] = packet_mac sharedSecret (signed_part tlvs @ payload)"
  shows "ReadAndVerify sharedSecret (tlvs_bytes tlvs @ tlv_bytes (TagPayload, payload) @ rest)
       = (Ok \<lparr>ppHeader = h, ppPayload = payload\<rparr>, rest)"
proof -
  let ?st = "\<lparr>signedData = signed_part tlvs, rsHeader = h, rsSignature = signature_of tlvs []\<rparr>"
  have "verifyPacket sharedSecret ?st payload = Ok \<lparr>ppHeader = h, ppPayload = payload\<rparr>"
    using assms(4) by (simp add: verifyPacket_Ok_iff)
  with read_tlvs_frame [OF assms(1,2), of "\<lparr>signedData = [], rsHeader = zero_header, rsSignature = []\<rparr>"] assms(3)
  show ?thesis by (simp add: ReadAndVerify_def)
qed

text \<open>
  C3. What the verifier accepts: \<^verbatim>\<open>ReadAndVerify\<close> returns a packet, leaving \<open>rest\<close> on the stream,
  exactly when the stream starts with a well-formed frame (fields of at most 65535 bytes, ended by
  the payload field) whose last signature field is the MAC of its other fields followed by the
  payload; the header is what those fields set.
\<close>

theorem ReadAndVerify_accepts_iff:
  "ReadAndVerify sharedSecret r = (Ok pkt, rest) \<longleftrightarrow>
   (\<exists>tlvs. framed tlvs \<and> length (ppPayload pkt) \<le> 65535
      \<and> r = tlvs_bytes tlvs @ tlv_bytes (TagPayload, ppPayload pkt) @ rest
      \<and> scan tlvs zero_header = Ok (ppHeader pkt)
      \<and> signature_of tlvs [] = packet_mac sharedSecret (signed_part tlvs @ ppPayload pkt))"
  (is "?lhs \<longleftrightarrow> ?rhs")
proof
  assume ?lhs
  then obtain st payload r' where l: "read_tlvs \<lparr>signedData = [], rsHeader = zero_header, rsSignature = []\<rparr> r
      = (Ok (st, payload), r')" and v: "verifyPacket sharedSecret st payload = Ok pkt" and "r' = rest"
    unfolding ReadAndVerify_def by (elim cmd_then_OkE) auto
  with read_tlvs_OkD [OF l] show ?rhs
    by (auto simp: verifyPacket_Ok_iff)
next
  assume ?rhs
  then show ?lhs using ReadAndVerify_frame [where h = "ppHeader pkt" and payload = "ppPayload pkt"] by auto
qed

section \<open>Builder against verifier\<close>

definition header_tlvs :: "UEPSHeader \<Rightarrow> tlv list" where
  "header_tlvs h =
     [(TagVersion, [Version h]), (TagCurrentLay, [CurrentLayer h]), (TagTargetLay, [TargetLayer h]),
      (TagIntent, [IntentID h]), (TagThreatScore, PutUint16BE (ThreatScore h))]"

lemma PutUint16BE_bytes: "PutUint16BE v = [word_of_nat (unat v div 256), word_of_nat (unat v)]"
proof -
  have "le_bytes 2 x = [word_of_nat x, word_of_nat (x div 256)]" for x
    by (simp add: numeral_2_eq_2)
  then show ?thesis by (simp add: PutUint16BE_def)
qed

lemma writeTLV_simps:
  "length v \<le> 65535 \<Longrightarrow> writeTLV tag v buf = (Ok (), buf @ tlv_bytes (tag, v))"
  "65535 < length v \<Longrightarrow> writeTLV tag v buf = (Fail TLVTooLarge, buf)"
  by (simp_all add: writeTLV_def tlv_bytes.simps)

lemma MarshalAndSign_eq:
  "MarshalAndSign p sharedSecret =
     (if 65535 < length (pbPayload p) then Fail TLVTooLarge
      else Ok (tlvs_bytes (header_tlvs (pbHeader p))
             @ tlv_bytes (TagHMAC, packet_mac sharedSecret (tlvs_bytes (header_tlvs (pbHeader p)) @ pbPayload p))
             @ tlv_bytes (TagPayload, pbPayload p)))"
  by (simp add: MarshalAndSign_def writeTLV_simps derivePacketMACKey_Ok header_tlvs_def packet_mac_def sha256_Size_def)

lemma header_tlvs_props:
  "framed (header_tlvs h)" "scan (header_tlvs h) h0 = Ok h"
  "signed_part (header_tlvs h) = tlvs_bytes (header_tlvs h)" "signature_of (header_tlvs h) sig = sig"
  using be16.get_put [of "ThreatScore h" "[]"]
  by (simp_all add: header_tlvs_def ueps_tags setHeader_def)

lemma tlvs_append [simp]:
  "tlvs_bytes (xs @ ys) = tlvs_bytes xs @ tlvs_bytes ys"
  "framed (xs @ ys) \<longleftrightarrow> framed xs \<and> framed ys"
  "signed_part (xs @ ys) = signed_part xs @ signed_part ys"
  "signature_of (xs @ ys) sig = signature_of ys (signature_of xs sig)"
  "scan (xs @ ys) h = and_then (scan xs h) (scan ys)"
  by (simp_all add: tlvs_bytes_def framed_def signed_part_def signature_of_def)
    (induction xs arbitrary: h; auto simp: and_then_assoc intro!: and_then_cong)

lemma ReadAndVerify_MarshalAndSign:
  assumes "MarshalAndSign p sharedSecret = Ok b"
  shows "ReadAndVerify sharedSecret (b @ rest) = (Ok \<lparr>ppHeader = pbHeader p, ppPayload = pbPayload p\<rparr>, rest)"
proof -
  let ?h = "header_tlvs (pbHeader p)"
  let ?tlvs = "?h @ [(TagHMAC, packet_mac sharedSecret (tlvs_bytes ?h @ pbPayload p))]"
  from assms have "length (pbPayload p) \<le> 65535"
    and "b = tlvs_bytes ?tlvs @ tlv_bytes (TagPayload, pbPayload p)"
    by (simp_all add: MarshalAndSign_eq split: if_splits)
  with ReadAndVerify_frame [of ?tlvs "pbPayload p" "pbHeader p" sharedSecret rest] show ?thesis
    by (simp add: header_tlvs_props) (simp add: ueps_tags)
qed

text \<open>
  C35. Packet round trip: a signed packet, followed by anything else on the stream, is read back
  with its header and payload, and the reader stops right after it.
\<close>

theorem ueps_roundtrip:
  assumes "MarshalAndSign p sharedSecret = Ok b"
  shows "ReadAndVerify sharedSecret (b @ rest) = (Ok \<lparr>ppHeader = pbHeader p, ppPayload = pbPayload p\<rparr>, rest)"
  using assms by (rule ReadAndVerify_MarshalAndSign)

theorem ueps_roundtrip_witness:
  "\<exists>b. MarshalAndSign (NewBuilder 1 [104, 105]) [7, 7] = Ok b
     \<and> ReadAndVerify [7, 7] (b @ [1, 2]) =
         (Ok \<lparr>ppHeader = pbHeader (NewBuilder 1 [104, 105]), ppPayload = [104, 105]\<rparr>, [1, 2])"
proof -
  obtain b where b: "MarshalAndSign (NewBuilder 1 [104, 105]) [7, 7] = Ok b"
    by (simp add: MarshalAndSign_eq NewBuilder_def)
  from ueps_roundtrip [OF b, of "[1, 2]"] b show ?thesis by (auto simp: NewBuilder_def)
qed

text \<open>
  Signing fails only on a payload that does not fit the 16-bit length, with the field-too-large
  error, and never panics; a signed packet is 59 bytes longer than its payload.
\<close>

theorem MarshalAndSign_outcome:
  "(if 65535 < length (pbPayload p) then MarshalAndSign p sharedSecret = Fail TLVTooLarge
    else \<exists>b. MarshalAndSign p sharedSecret = Ok b \<and> length b = length (pbPayload p) + 59)"
  by (simp add: MarshalAndSign_eq header_tlvs_def tlv_bytes.simps)

text \<open>
  Two manipulations of a frame on the wire that need no key: moving the threat-score field (bytes
  16 to 20) into the payload, and sending a header field with an empty value.
\<close>

definition strip_threat :: "bytes \<Rightarrow> bytes" where
  "strip_threat b = take 16 b @ take 35 (drop 21 b) @ tlv_bytes (TagPayload, take 5 (drop 16 b) @ drop 59 b)"

lemma strip_threat_frame:
  assumes "length mac = 32"
  shows "strip_threat (tlvs_bytes (header_tlvs h) @ tlv_bytes (TagHMAC, mac) @ tlv_bytes (TagPayload, payload))
       = tlvs_bytes (butlast (header_tlvs h) @ [(TagHMAC, mac)])
         @ tlv_bytes (TagPayload, tlv_bytes (last (header_tlvs h)) @ payload)"
proof -
  let ?h = "tlvs_bytes (butlast (header_tlvs h))" and ?t = "tlv_bytes (last (header_tlvs h))"
  let ?m = "tlv_bytes (TagHMAC, mac)" and ?pre = "[TagPayload] @ PutUint16BE (word_of_nat (length payload))"
  have b: "tlvs_bytes (header_tlvs h) @ ?m @ tlv_bytes (TagPayload, payload) = ?h @ ?t @ ?m @ ?pre @ payload"
    by (simp add: header_tlvs_def tlv_bytes.simps)
  have len: "length ?h = 16" "length ?t = 5" "length ?m = 35" "length ?pre = 3"
    using assms by (simp_all add: header_tlvs_def tlv_bytes.simps)
  have "take 16 (?h @ ?t @ ?m @ ?pre @ payload) = ?h"
    "take 35 (drop 21 (?h @ ?t @ ?m @ ?pre @ payload)) = ?m"
    "take 5 (drop 16 (?h @ ?t @ ?m @ ?pre @ payload)) = ?t"
    "drop 59 (?h @ ?t @ ?m @ ?pre @ payload) = payload"
    using len by (simp_all only: append_assoc [symmetric] take_append drop_append) simp_all
  then show ?thesis unfolding b strip_threat_def by (simp only:) simp
qed

text \<open>
  The signature does not bind the boundary between header fields and payload: from any signed
  packet, moving the threat-score field into the payload makes another packet that verifies under
  the same key. It carries threat score 0.
\<close>

theorem threat_score_strippable:
  assumes "MarshalAndSign p sharedSecret = Ok b" and "length (pbPayload p) \<le> 65530"
  shows "ReadAndVerify sharedSecret (strip_threat b @ rest)
       = (Ok \<lparr>ppHeader = (pbHeader p)\<lparr>ThreatScore := 0\<rparr>,
              ppPayload = tlv_bytes (TagThreatScore, PutUint16BE (ThreatScore (pbHeader p))) @ pbPayload p\<rparr>, rest)"
proof -
  let ?h = "header_tlvs (pbHeader p)" and ?t = "(TagThreatScore, PutUint16BE (ThreatScore (pbHeader p)))"
  let ?mac = "packet_mac sharedSecret (tlvs_bytes ?h @ pbPayload p)"
  let ?tlvs = "butlast ?h @ [(TagHMAC, ?mac)]" and ?p = "tlv_bytes ?t @ pbPayload p"
  have h: "?h = butlast ?h @ [?t]" "last ?h = ?t" by (simp_all add: header_tlvs_def)
  from assms have "b = tlvs_bytes ?h @ tlv_bytes (TagHMAC, ?mac) @ tlv_bytes (TagPayload, pbPayload p)"
    by (simp add: MarshalAndSign_eq split: if_splits)
  then have b: "strip_threat b = tlvs_bytes ?tlvs @ tlv_bytes (TagPayload, ?p)"
    by (simp only: strip_threat_frame length_packet_mac h(2))
  have "tlvs_bytes ?h @ pbPayload p = signed_part ?tlvs @ ?p"
    by (simp add: header_tlvs_def ueps_tags)
  then have mac: "signature_of ?tlvs [] = packet_mac sharedSecret (signed_part ?tlvs @ ?p)"
    by (simp add: header_tlvs_def ueps_tags)
  have "length ?p \<le> 65535" using assms(2) by (simp add: tlv_bytes.simps)
  moreover have "framed ?tlvs" "scan ?tlvs zero_header = Ok ((pbHeader p)\<lparr>ThreatScore := 0\<rparr>)"
    by (simp_all add: header_tlvs_def ueps_tags setHeader_def zero_header_def)
  ultimately show ?thesis
    using ReadAndVerify_frame [OF _ _ _ mac, of _ rest] by (simp add: b)
qed

definition hostile :: PacketBuilder where
  "hostile = \<lparr>pbHeader = \<lparr>Version = 9, CurrentLayer = 5, TargetLayer = 5, IntentID = 1, ThreatScore = 60000\<rparr>,
              pbPayload = [104, 105]\<rparr>"

theorem threat_score_strippable_witness:
  "\<exists>b. MarshalAndSign hostile [7, 7] = Ok b
     \<and> ReadAndVerify [7, 7] (strip_threat b @ []) =
         (Ok \<lparr>ppHeader = (pbHeader hostile)\<lparr>ThreatScore := 0\<rparr>, ppPayload = [5, 0, 2, 234, 96, 104, 105]\<rparr>, [])"
proof -
  obtain b where b: "MarshalAndSign hostile [7, 7] = Ok b"
    by (simp add: MarshalAndSign_eq hostile_def)
  have "length (pbPayload hostile) \<le> 65530" by (simp add: hostile_def)
  from threat_score_strippable [OF b this, of "[]"] b show ?thesis
    by (auto simp: hostile_def tlv_bytes.simps TagThreatScore_def PutUint16BE_bytes)
qed

text \<open>
  The reader panics before it looks at any signature: a header field with an empty value (or a
  one-byte threat score) at the start of the stream is enough, whatever the key.
\<close>

theorem empty_header_field_panics:
  assumes "tag \<in> {TagVersion, TagCurrentLay, TagTargetLay, TagIntent, TagThreatScore}"
  shows "fst (ReadAndVerify sharedSecret ([tag, 0, 0] @ rest)) = Panic IndexOutOfRange"
proof -
  have "[tag, 0, 0] = tlv_bytes (tag, [])"
    by (simp add: tlv_bytes.simps PutUint16BE_bytes)
  then have r: "readTLV ([tag, 0, 0] @ rest) = (Ok (tag, PutUint16BE 0, []), rest)"
    using readTLV_tlv_bytes [of "[]" tag rest] by simp
  have "fst (read_tlvs st ([tag, 0, 0] @ rest)) = Panic IndexOutOfRange" for st
    using assms by (subst read_tlvs.simps, unfold r) (auto simp: setHeader_def ueps_tags)
  then obtain r' where "read_tlvs \<lparr>signedData = [], rsHeader = zero_header, rsSignature = []\<rparr> ([tag, 0, 0] @ rest)
      = (Panic IndexOutOfRange, r')"
    by (metis prod.collapse)
  then show ?thesis by (simp add: ReadAndVerify_def)
qed

theorem empty_header_field_panics_witness:
  "fst (ReadAndVerify [1] ([TagVersion, 0, 0] @ [])) = Panic IndexOutOfRange"
  by (rule empty_header_field_panics) simp

end
