(* ===== verification/Dispatcher.thy ===== *)
theory Dispatcher
  imports UEPS
begin

text \<open>
  The intent dispatcher, \<^verbatim>\<open>src/go/node/dispatcher.go\<close>: a map from intent identifiers to
  handlers, guarded by the threat circuit breaker. A handler is application code: any function that
  returns a \<^verbatim>\<open>core.Result\<close> and may change the application's state \<open>'s\<close>; the map may also hold a nil
  handler, whose call panics. What the dispatcher logs is kept as a list of events.
\<close>

definition ThreatScoreThreshold :: uint16 where "ThreatScoreThreshold = 50000"

definition IntentHandshake :: byte where "IntentHandshake = 0x01"
definition IntentCompute :: byte where "IntentCompute = 0x20"
definition IntentRehab :: byte where "IntentRehab = 0x30"
definition IntentCustom :: byte where "IntentCustom = 0xFF"

definition ErrThreatScoreExceeded :: go_error where
  "ErrThreatScoreExceeded =
     E ''Dispatcher.Dispatch'' ''packet rejected: threat score exceeds safety threshold (50000)'' None"
definition ErrUnknownIntent :: go_error where
  "ErrUnknownIntent = E ''Dispatcher.Dispatch'' ''packet dropped: unknown intent'' None"
definition ErrNilPacket :: go_error where
  "ErrNilPacket = E ''Dispatcher.Dispatch'' ''nil packet'' None"

type_synonym 's IntentHandler = "ParsedPacket \<Rightarrow> ('s, unit) cmd"

datatype dispatch_event =
    HandlerRegistered byte
  | ThreatDropped uint16 byte byte
  | UnknownIntentDropped byte byte

record 's Dispatcher =
  handlers :: "byte \<rightharpoonup> 's IntentHandler option"
  dlog :: "dispatch_event list"

definition NewDispatcher :: "'s Dispatcher" where
  "NewDispatcher = \<lparr>handlers = Map.empty, dlog = []\<rparr>"

definition RegisterHandler :: "byte \<Rightarrow> 's IntentHandler option \<Rightarrow> 's Dispatcher \<Rightarrow> 's Dispatcher" where
  "RegisterHandler intentID handler d =
     d\<lparr>handlers := (handlers d)(intentID \<mapsto> handler), dlog := dlog d @ [HandlerRegistered intentID]\<rparr>"

definition call_handler :: "'s IntentHandler option \<Rightarrow> 's IntentHandler" where
  "call_handler h pkt s = (case h of None \<Rightarrow> (Panic NilDereference, s) | Some f \<Rightarrow> f pkt s)"

definition Dispatch :: "ParsedPacket option \<Rightarrow> ('s Dispatcher \<times> 's, unit) cmd" where
  "Dispatch pkt_ptr = (\<lambda>(d, s).
     case pkt_ptr of
       None \<Rightarrow> (Fail ErrNilPacket, d, s)
     | Some pkt \<Rightarrow>
         let h = ppHeader pkt in
         if ThreatScore h > ThreatScoreThreshold then
           (Fail ErrThreatScoreExceeded,
            d\<lparr>dlog := dlog d @ [ThreatDropped (ThreatScore h) (IntentID h) (Version h)]\<rparr>, s)
         else (case handlers d (IntentID h) of
             None \<Rightarrow> (Fail ErrUnknownIntent,
                      d\<lparr>dlog := dlog d @ [UnknownIntentDropped (IntentID h) (Version h)]\<rparr>, s)
           | Some handler \<Rightarrow> (case call_handler handler pkt s of (r, s') \<Rightarrow> (r, d, s'))))"

text \<open>Registrations in the order they were made, and the handler the last one for an intent chose.\<close>

definition register_all :: "(byte \<times> 's IntentHandler option) list \<Rightarrow> 's Dispatcher \<Rightarrow> 's Dispatcher" where
  "register_all regs d = fold (\<lambda>(i, h). RegisterHandler i h) regs d"

lemma handlers_register_all:
  "handlers (register_all regs d) i = (case map_of (rev regs) i of None \<Rightarrow> handlers d i | Some h \<Rightarrow> Some h)"
proof (induction regs arbitrary: d)
  case (Cons r regs)
  then show ?case
    by (cases r) (auto simp: register_all_def RegisterHandler_def map_add_def split: option.splits)
qed (simp add: register_all_def)


end
