(* ===== verification/Float64.thy ===== *)
theory Float64
  imports Complex_Main "HOL-Library.Log_Nat" P2P_Prelude
begin

text \<open>
  Go's \<^verbatim>\<open>float64\<close> as IEEE-754 binary64: not-a-number, the infinities, and finite values as
  rationals, with every arithmetic result rounded to nearest, ties to even. The sign of zero is not
  represented: no comparison and none of the modelled operations can observe it.
\<close>

datatype f64 = NaN | PosInf | NegInf | Fin rat

section \<open>Rounding\<close>

text \<open>\<open>round_even q\<close>: the nearest integer, the even one of two equally near.\<close>

definition round_even :: "rat \<Rightarrow> int" where
  "round_even q =
     (let n = \<lfloor>q\<rfloor>; d = q - of_int n in
      if d < 1 / 2 then n else if d > 1 / 2 then n + 1 else if even n then n else n + 1)"

text \<open>
  \<open>ulp_exp q\<close>: the exponent of the last of the 53 significant bits of \<open>q\<close>, never below that of the
  smallest subnormal. \<open>floor_log2 q\<close> is the position of the leading bit of a positive rational.
\<close>

definition floor_log2 :: "rat \<Rightarrow> int" where
  "floor_log2 q =
     (let (a, b) = quotient_of q;
          k = bitlen a - bitlen b
      in if (2 :: rat) powi k \<le> q then k else k - 1)"

definition ulp_exp :: "rat \<Rightarrow> int" where
  "ulp_exp q = max (floor_log2 \<bar>q\<bar> - 52) (- 1074)"

definition round64 :: "rat \<Rightarrow> f64" where
  "round64 q =
     (if q = 0 then Fin 0
      else let e = ulp_exp q; r = of_int (round_even (q / 2 powi e)) * 2 powi e
           in if r \<ge> 2 powi 1024 then PosInf else if r \<le> - (2 powi 1024) then NegInf else Fin r)"

section \<open>Arithmetic and comparison\<close>

fun f64_neg :: "f64 \<Rightarrow> f64" where
  "f64_neg NaN = NaN"
| "f64_neg PosInf = NegInf"
| "f64_neg NegInf = PosInf"
| "f64_neg (Fin q) = Fin (- q)"

fun f64_add :: "f64 \<Rightarrow> f64 \<Rightarrow> f64" where
  "f64_add (Fin p) (Fin q) = round64 (p + q)"
| "f64_add NaN _ = NaN"
| "f64_add _ NaN = NaN"
| "f64_add PosInf NegInf = NaN"
| "f64_add NegInf PosInf = NaN"
| "f64_add PosInf _ = PosInf"
| "f64_add _ PosInf = PosInf"
| "f64_add NegInf _ = NegInf"
| "f64_add _ NegInf = NegInf"

definition f64_sub :: "f64 \<Rightarrow> f64 \<Rightarrow> f64" where
  "f64_sub x y = f64_add x (f64_neg y)"

text \<open>An infinity times a number of sign \<open>s\<close>.\<close>

definition inf_times :: "bool \<Rightarrow> rat \<Rightarrow> f64" where
  "inf_times pos s = (if s = 0 then NaN else if (0 < s) = pos then PosInf else NegInf)"

fun f64_mul :: "f64 \<Rightarrow> f64 \<Rightarrow> f64" where
  "f64_mul (Fin p) (Fin q) = round64 (p * q)"
| "f64_mul NaN _ = NaN"
| "f64_mul _ NaN = NaN"
| "f64_mul PosInf PosInf = PosInf"
| "f64_mul NegInf NegInf = PosInf"
| "f64_mul PosInf NegInf = NegInf"
| "f64_mul NegInf PosInf = NegInf"
| "f64_mul PosInf (Fin q) = inf_times True q"
| "f64_mul (Fin q) PosInf = inf_times True q"
| "f64_mul NegInf (Fin q) = inf_times False q"
| "f64_mul (Fin q) NegInf = inf_times False q"

text \<open>\<^verbatim>\<open>float64(n)\<close> of an integer.\<close>

definition f64_of_int :: "int \<Rightarrow> f64" where
  "f64_of_int n = round64 (of_int n)"

text \<open>The comparisons \<^verbatim>\<open>x < y\<close> and \<^verbatim>\<open>x == y\<close>, false on a NaN operand.\<close>

fun f64_less :: "f64 \<Rightarrow> f64 \<Rightarrow> bool" where
  "f64_less (Fin p) (Fin q) \<longleftrightarrow> p < q"
| "f64_less NegInf (Fin _) \<longleftrightarrow> True"
| "f64_less (Fin _) PosInf \<longleftrightarrow> True"
| "f64_less NegInf PosInf \<longleftrightarrow> True"
| "f64_less _ _ \<longleftrightarrow> False"

definition f64_eq :: "f64 \<Rightarrow> f64 \<Rightarrow> bool" where
  "f64_eq x y \<longleftrightarrow> x \<noteq> NaN \<and> x = y"

text \<open>Go's built-in \<^verbatim>\<open>min\<close> and \<^verbatim>\<open>max\<close>, which propagate NaN.\<close>

definition go_min :: "f64 \<Rightarrow> f64 \<Rightarrow> f64" where
  "go_min x y = (if x = NaN \<or> y = NaN then NaN else if f64_less y x then y else x)"

definition go_max :: "f64 \<Rightarrow> f64 \<Rightarrow> f64" where
  "go_max x y = (if x = NaN \<or> y = NaN then NaN else if f64_less x y then y else x)"

section \<open>Rounding keeps integer bounds\<close>

lemma round_even_bounds:
  "of_int n \<le> q \<Longrightarrow> n \<le> round_even q" "q \<le> of_int n \<Longrightarrow> round_even q \<le> n"
proof -
  show "n \<le> round_even q" if "of_int n \<le> q"
    using le_floor_iff [of n q] that by (auto simp: round_even_def Let_def)
  assume q: "q \<le> of_int n"
  show "round_even q \<le> n"
  proof (cases "q = of_int n")
    case True
    then show ?thesis by (simp add: round_even_def)
  next
    case False
    with q have "\<lfloor>q\<rfloor> < n" by (simp add: floor_less_iff)
    then show ?thesis by (auto simp: round_even_def Let_def)
  qed
qed

lemma floor_log2_le:
  assumes "0 < q"
  shows "2 powi floor_log2 q \<le> q"
proof -
  obtain a b where ab: "quotient_of q = (a, b)" by (cases "quotient_of q")
  have b: "0 < b" using quotient_of_denom_pos [OF ab] .
  have q: "q = of_int a / of_int b" using quotient_of_div [OF ab] .
  have a: "0 < a" using assms b by (simp add: q zero_less_divide_iff)
  have "(2::rat) powi (bitlen a - 1) \<le> of_int a" "of_int b < (2::rat) powi bitlen b"
  proof -
    have "2 ^ nat (bitlen a - 1) \<le> a" "b < 2 ^ nat (bitlen b)"
      using bitlen_bounds [OF a] bitlen_bounds [OF b] by auto
    then have "(of_int (2 ^ nat (bitlen a - 1)) :: rat) \<le> of_int a" "(of_int b :: rat) < of_int (2 ^ nat (bitlen b))"
      by linarith+
    moreover have "0 \<le> bitlen a - 1" "0 \<le> bitlen b" 
      using a bitlen_nonneg [of a] bitlen_nonneg [of b] bitlen_eq_zero_iff [of a] by linarith+
    ultimately show "(2::rat) powi (bitlen a - 1) \<le> of_int a" "of_int b < (2::rat) powi bitlen b"
      by (simp_all add: power_int_def)
  qed
  then have "2 powi (bitlen a - 1) * of_int b \<le> (of_int a * 2 powi bitlen b :: rat)"
    using a b by (intro mult_mono) auto
  then have "2 powi (bitlen a - 1) / 2 powi bitlen b \<le> (of_int a / of_int b :: rat)"
    using b by (simp add: divide_simps mult.commute)
  then have "2 powi (bitlen a - bitlen b - 1) \<le> q"
    by (simp add: q flip: power_int_diff) (simp add: algebra_simps)
  then show ?thesis by (simp add: floor_log2_def ab Let_def)
qed

lemma ulp_exp_nonpos:
  assumes "\<bar>q\<bar> \<le> 2 ^ 52" and "q \<noteq> 0"
  shows "ulp_exp q \<le> 0"
proof -
  have "(2::rat) powi floor_log2 \<bar>q\<bar> \<le> 2 powi 52"
    using floor_log2_le [of "\<bar>q\<bar>"] assms by (simp add: power_int_def)
  then have "floor_log2 \<bar>q\<bar> \<le> 52"
    using power_int_strict_increasing [of 52 "floor_log2 \<bar>q\<bar>" "2::rat"] by (meson not_le one_less_numeral_iff semiring_norm(76))
  then show ?thesis by (simp add: ulp_exp_def)
qed

lemma round64_nonneg:
  assumes "0 \<le> q"
  shows "round64 q = PosInf \<or> (\<exists>r \<ge> 0. round64 q = Fin r)"
proof (cases "q = 0")
  case False
  let ?e = "ulp_exp q"
  have "0 \<le> round_even (q / 2 powi ?e)"
    using assms by (intro round_even_bounds(1)) simp
  then have "0 \<le> of_int (round_even (q / 2 powi ?e)) * (2::rat) powi ?e" by simp
  moreover have "- ((2::rat) powi 1024) < 0" by simp
  ultimately show ?thesis using False by (auto simp: round64_def Let_def simp del: power_int_numeral)
qed (simp add: round64_def)

lemma round64_le:
  assumes "q \<le> of_int n" and "0 \<le> n" and "n \<le> 2 ^ 52"
  shows "round64 q = NegInf \<or> (\<exists>r \<le> of_int n. round64 q = Fin r)"
proof (cases "q = 0")
  case False
  let ?e = "ulp_exp q" let ?r = "of_int (round_even (q / 2 powi ?e)) * (2::rat) powi ?e"
  have le: "?r \<le> of_int n"
  proof (cases "q < 0")
    case True
    then have "round_even (q / 2 powi ?e) \<le> 0"
      by (intro round_even_bounds(2)) (simp add: divide_le_0_iff)
    then have "?r \<le> 0" by (simp add: mult_le_0_iff)
    with assms(2) show ?thesis by (meson of_int_0_le_iff order_trans)
  next
    case False
    have "(of_int n :: rat) \<le> of_int (2 ^ 52)" using assms(3) by (subst of_int_le_iff)
    then have "\<bar>q\<bar> \<le> 2 ^ 52" using False assms(1) by simp
    then have e: "?e \<le> 0" using \<open>q \<noteq> 0\<close> by (intro ulp_exp_nonpos) auto
    then have n: "of_int (n * 2 ^ nat (- ?e)) * (2::rat) powi ?e = of_int n"
      by (simp add: power_int_def flip: power_mult_distrib)
    have "q / 2 powi ?e \<le> of_int (n * 2 ^ nat (- ?e))"
      using assms(1) n by (metis divide_le_eq zero_less_numeral zero_less_power_int)
    then have "round_even (q / 2 powi ?e) \<le> n * 2 ^ nat (- ?e)" by (rule round_even_bounds(2))
    then have "?r \<le> of_int (n * 2 ^ nat (- ?e)) * 2 powi ?e"
      by (intro mult_right_mono) (simp_all only: of_int_le_iff zero_le_power_int zero_le_numeral)
    then show ?thesis unfolding n .
  qed
  have "of_int n < (2::rat) powi 1024"
  proof -
    have "(of_int n :: rat) \<le> of_int (2 ^ 52)" using assms(3) by (subst of_int_le_iff)
    also have "\<dots> = 2 powi 52" by simp
    also have "\<dots> < 2 powi 1024" by (rule power_int_strict_increasing) simp_all
    finally show ?thesis .
  qed
  with le False show ?thesis by (auto simp: round64_def Let_def simp del: power_int_numeral)
qed (use assms in \<open>simp add: round64_def\<close>)

text \<open>Results between two bounds stay there.\<close>

lemma round64_range:
  assumes "0 \<le> q" and "q \<le> of_int n" and "n \<le> 2 ^ 52"
  shows "\<exists>r. round64 q = Fin r \<and> 0 \<le> r \<and> r \<le> of_int n"
proof -
  have "0 \<le> n" using assms(1,2) by (meson of_int_0_le_iff order_trans)
  with round64_nonneg [OF assms(1)] round64_le [OF assms(2) _ assms(3)] show ?thesis by auto
qed

section \<open>Sums of squares\<close>

definition f64_nonneg :: "f64 \<Rightarrow> bool" where
  "f64_nonneg x \<longleftrightarrow> x = PosInf \<or> (\<exists>q \<ge> 0. x = Fin q)"

lemma round64_number [simp]: "round64 q \<noteq> NaN"
  by (simp add: round64_def Let_def)

lemma f64_nonneg_square: "x \<noteq> NaN \<Longrightarrow> f64_nonneg (f64_mul x x)"
  using round64_nonneg by (cases x) (auto simp: f64_nonneg_def)

lemma f64_nonneg_add:
  assumes "f64_nonneg x" and "f64_nonneg y"
  shows "f64_nonneg (f64_add x y)"
proof -
  consider "x = PosInf \<or> y = PosInf" | q q' where "x = Fin q" "y = Fin q'" "0 \<le> q" "0 \<le> q'"
    using assms by (auto simp: f64_nonneg_def)
  then show ?thesis
  proof cases
    case 2
    with round64_nonneg [of "q + q'"] show ?thesis by (simp add: f64_nonneg_def)
  qed (use assms in \<open>auto simp: f64_nonneg_def\<close>)
qed

section \<open>Durations in seconds\<close>

fun f64_div :: "f64 \<Rightarrow> f64 \<Rightarrow> f64" where
  "f64_div (Fin p) (Fin q) =
     (if q \<noteq> 0 then round64 (p / q) else if p = 0 then NaN else if 0 < p then PosInf else NegInf)"
| "f64_div NaN _ = NaN"
| "f64_div _ NaN = NaN"
| "f64_div (Fin _) _ = Fin 0"
| "f64_div PosInf (Fin q) = (if 0 \<le> q then PosInf else NegInf)"
| "f64_div NegInf (Fin q) = (if 0 \<le> q then NegInf else PosInf)"
| "f64_div _ _ = NaN"

text \<open>The conversion of a finite value to an integer truncates towards zero.\<close>

fun trunc64 :: "f64 \<Rightarrow> int" where
  "trunc64 (Fin q) = (if q < 0 then - \<lfloor>- q\<rfloor> else \<lfloor>q\<rfloor>)"
| "trunc64 _ = 0"

text \<open>\<^verbatim>\<open>Duration.Seconds\<close>: the whole seconds plus the remaining nanoseconds, each converted to float64.\<close>

definition Seconds :: "duration \<Rightarrow> f64" where
  "Seconds d =
     (let sec = (if d < 0 then - (- d div second) else d div second); nsec = d - sec * second in
      f64_add (f64_of_int sec) (f64_div (f64_of_int nsec) (Fin 1000000000)))"

text \<open>Rounding keeps bounds that are multiples of a power of two no finer than the last place.\<close>

lemma rounded_dyadic:
  fixes q :: rat
  assumes "u \<le> e"
  shows "of_int m * 2 powi e \<le> q \<Longrightarrow> of_int m * 2 powi e \<le> (of_int (round_even (q / 2 powi u)) * 2 powi u :: rat)"
    and "q \<le> of_int m * 2 powi e \<Longrightarrow> (of_int (round_even (q / 2 powi u)) * 2 powi u :: rat) \<le> of_int m * 2 powi e"
proof -
  let ?k = "m * 2 ^ nat (e - u)"
  have "(2::rat) powi e = 2 ^ nat (e - u) * 2 powi u"
    using assms power_int_add [of "2::rat" "e - u" u] by (simp add: power_int_def)
  then have m: "of_int m * (2::rat) powi e = of_int ?k * 2 powi u" by simp
  have pos: "(0::rat) < 2 powi u" by simp
  show "of_int m * 2 powi e \<le> (of_int (round_even (q / 2 powi u)) * 2 powi u :: rat)" if "of_int m * 2 powi e \<le> q"
  proof -
    have "of_int ?k \<le> q / 2 powi u" using that pos unfolding m by (simp add: pos_le_divide_eq)
    then have "?k \<le> round_even (q / 2 powi u)" by (rule round_even_bounds(1))
    then show ?thesis unfolding m using pos by (intro mult_right_mono) (simp_all only: of_int_le_iff less_imp_le)
  qed
  show "(of_int (round_even (q / 2 powi u)) * 2 powi u :: rat) \<le> of_int m * 2 powi e" if "q \<le> of_int m * 2 powi e"
  proof -
    have "q / 2 powi u \<le> of_int ?k" using that pos unfolding m by (simp add: pos_divide_le_eq)
    then have "round_even (q / 2 powi u) \<le> ?k" by (rule round_even_bounds(2))
    then show ?thesis unfolding m using pos by (intro mult_right_mono) (simp_all only: of_int_le_iff less_imp_le)
  qed
qed

lemma round64_Fin:
  assumes "round64 q = Fin r" and "q \<noteq> 0"
  shows "r = of_int (round_even (q / 2 powi ulp_exp q)) * 2 powi ulp_exp q"
  using assms by (auto simp: round64_def Let_def simp del: power_int_numeral split: if_splits)

lemma two_powi_minus_30: "(2::rat) powi - 30 = 1 / 1073741824"
  by (simp add: power_int_def power_one_over)

lemma ulp_exp_le:
  assumes "0 < q" and "q < 2 ^ 23"
  shows "ulp_exp q \<le> - 30"
proof -
  have "(2::rat) powi floor_log2 q < 2 powi 23"
    using floor_log2_le [OF assms(1)] assms(2) by (simp add: power_int_def)
  then have "floor_log2 q < 23"
    using power_int_increasing [of 23 "floor_log2 q" "2::rat"] by (meson not_le one_le_numeral)
  then show ?thesis using assms(1) by (simp add: ulp_exp_def)
qed

text \<open>Below \<open>2 ^ 23\<close>, rounding stays between any two neighbouring multiples of \<open>2 powi - 30\<close>.\<close>

lemma round64_between:
  fixes q :: rat
  assumes "of_int a * 2 powi - 30 \<le> q" and "q \<le> of_int b * 2 powi - 30" and "0 \<le> a" and "q < 2 ^ 23"
  shows "\<exists>r. round64 q = Fin r \<and> of_int a * 2 powi - 30 \<le> r \<and> r \<le> of_int b * 2 powi - 30"
proof (cases "q = 0")
  case False
  have "0 \<le> of_int a * (2::rat) powi - 30" using assms(3) by simp
  then have "0 < q" using assms(1) False by linarith
  then have u: "ulp_exp q \<le> - 30" using assms(4) by (rule ulp_exp_le)
  let ?r = "of_int (round_even (q / 2 powi ulp_exp q)) * (2::rat) powi ulp_exp q"
  have lo: "of_int a * 2 powi - 30 \<le> ?r" and hi: "?r \<le> of_int b * 2 powi - 30"
    using rounded_dyadic [OF u] assms(1,2) by blast+
  have "q \<le> of_int (2 ^ 23)" using assms(4) by simp
  then obtain r where "round64 q = Fin r" using round64_range [of q "2 ^ 23"] \<open>0 < q\<close> by auto
  moreover from this have "r = ?r" using False by (rule round64_Fin)
  ultimately show ?thesis using lo hi by blast
qed (use assms in \<open>auto simp: round64_def\<close>)

lemma f64_of_int_exact:
  assumes "0 \<le> k" and "k \<le> 2 ^ 52"
  shows "f64_of_int k = Fin (of_int k)"
proof (cases "k = 0")
  case False
  have le: "\<bar>of_int k :: rat\<bar> \<le> 2 ^ 52" using assms by (metis abs_of_nonneg of_int_0_le_iff of_int_le_iff of_int_numeral of_int_power)
  then have u: "ulp_exp (of_int k) \<le> 0" using False by (intro ulp_exp_nonpos) simp_all
  obtain r where r: "round64 (of_int k) = Fin r" using round64_range [of "of_int k" k] assms by auto
  then have "r = of_int (round_even (of_int k / 2 powi ulp_exp (of_int k))) * 2 powi ulp_exp (of_int k)"
    using False by (intro round64_Fin) simp_all
  then have "r = of_int k" using rounded_dyadic [OF u, where m = k and q = "of_int k"] by simp
  then show ?thesis using r by (simp add: f64_of_int_def)
qed (simp add: f64_of_int_def round64_def)

text \<open>Up to \<open>2 ^ 23\<close> seconds the rounding does not change the whole seconds.\<close>

lemma round64_near_integer:
  fixes f :: rat
  assumes "0 \<le> k" and "k < 2 ^ 23" and "0 \<le> f" and "f \<le> 1073741823 / 1073741824"
  shows "\<exists>r. round64 (of_int k + f) = Fin r \<and> of_int k \<le> r \<and> r \<le> of_int k + 1073741823 / 1073741824"
proof -
  have "(of_int (k + 1) :: rat) \<le> of_int 8388608" using assms(2) by (subst of_int_le_iff) simp
  then have k: "(of_int k :: rat) + 1 \<le> 8388608" by simp
  have lo: "of_int (k * 1073741824) * (2::rat) powi - 30 = of_int k"
    and hi: "of_int (k * 1073741824 + 1073741823) * (2::rat) powi - 30 = of_int k + 1073741823 / 1073741824"
    unfolding two_powi_minus_30 by (simp_all add: field_simps)
  show ?thesis
    by (rule round64_between [of "k * 1073741824" "of_int k + f" "k * 1073741824 + 1073741823", unfolded lo hi])
      (use assms k in simp_all)
qed

lemma trunc64_Seconds:
  assumes "0 \<le> d" and "d < 2 ^ 23 * second"
  shows "trunc64 (Seconds d) = d div second"
proof -
  let ?s = "d div second" and ?n = "d mod second"
  have s: "0 \<le> ?s" "?s < 2 ^ 23" using assms by (simp_all add: pos_imp_zdiv_nonneg_iff div_less_iff_less_mult)
  have n: "0 \<le> ?n" "?n \<le> 999999999" using pos_mod_bound [of second d] by simp_all
  have parts: "f64_of_int ?s = Fin (of_int ?s)" "f64_of_int ?n = Fin (of_int ?n)" "d - ?s * second = ?n"
    using s n by (auto intro!: f64_of_int_exact simp: minus_div_mult_eq_mod)
  have "(of_int ?n :: rat) \<le> 999999999" using n(2) by linarith
  then have "(of_int ?n :: rat) / 1000000000 \<le> 1073741823 / 1073741824" by simp
  moreover have "(0::rat) \<le> of_int ?n / 1000000000" using n(1) by simp
  ultimately obtain f where f: "round64 (of_int ?n / 1000000000) = Fin f" "0 \<le> f" "f \<le> 1073741823 / 1073741824"
    using round64_near_integer [of 0 "of_int ?n / 1000000000"] by fastforce
  obtain r where r: "round64 (of_int ?s + f) = Fin r" "of_int ?s \<le> r" "r \<le> of_int ?s + 1073741823 / 1073741824"
    using round64_near_integer [OF s f(2,3)] by blast
  have "Seconds d = Fin r" using parts f(1) r(1) assms(1) by (simp add: Seconds_def Let_def)
  moreover have "\<lfloor>r\<rfloor> = ?s" using r(2,3) by (simp add: floor_eq_iff)
  moreover have "0 \<le> r" using r(2) s(1) by (meson of_int_0_le_iff order_trans)
  ultimately show ?thesis by simp
qed

text \<open>For every duration an int64 can hold, the truncated value is at least the whole seconds.\<close>

lemma trunc64_Seconds_ge:
  assumes "0 \<le> d" and "d < 2 ^ 63"
  shows "d div second \<le> trunc64 (Seconds d)"
proof -
  let ?s = "d div second" and ?n = "d mod second"
  have s: "0 \<le> ?s" "?s \<le> 2 ^ 34" using assms zdiv_mono1 [of d "2 ^ 63" second] by (simp_all add: pos_imp_zdiv_nonneg_iff)
  have n: "0 \<le> ?n" "?n \<le> 999999999" using pos_mod_bound [of second d] by simp_all
  have parts: "f64_of_int ?s = Fin (of_int ?s)" "f64_of_int ?n = Fin (of_int ?n)" "d - ?s * second = ?n"
    using s n by (auto intro!: f64_of_int_exact simp: minus_div_mult_eq_mod)
  have "(of_int ?n :: rat) \<le> 999999999" using n(2) by linarith
  then obtain f where f: "round64 (of_int ?n / 1000000000) = Fin f" "0 \<le> f" "f \<le> 1"
    using round64_range [of "of_int ?n / 1000000000" 1] n(1) by auto
  have "(of_int ?s :: rat) \<le> of_int 17179869184" using s(2) by (subst of_int_le_iff) simp
  then have q: "0 \<le> of_int ?s + f" "of_int ?s + f \<le> of_int 17179869185" using s(1) f(2,3) by simp_all
  obtain r where r: "round64 (of_int ?s + f) = Fin r" "0 \<le> r" using round64_range [OF q] by auto
  have "of_int ?s \<le> r"
  proof (cases "of_int ?s + f = 0")
    case True
    then show ?thesis using f(2) r(2) by linarith
  next
    case False
    have "ulp_exp (of_int ?s + f) \<le> 0" using q False by (intro ulp_exp_nonpos) simp_all
    then show ?thesis
      unfolding round64_Fin [OF r(1) False]
      using rounded_dyadic(1) [where m = ?s and e = 0 and q = "of_int ?s + f"] f(2) by simp
  qed
  moreover have "Seconds d = Fin r" using parts f(1) r(1) assms(1) by (simp add: Seconds_def Let_def)
  ultimately show ?thesis using r(2) by (simp add: le_floor_iff)
qed

end
