(* ===== verification/Transport_Guards.thy ===== *)
theory Transport_Guards
  imports Float64
begin

text \<open>
  The two inbound guards of \<^verbatim>\<open>src/go/node/transport.go\<close>: the message deduplicator and the
  per-peer token bucket. Instants and durations are nanosecond counts; \<^verbatim>\<open>time.Now()\<close> is an argument.

  The map of seen identifiers is a HOL map, since only its lookups are observable.
  \<^verbatim>\<open>int(elapsed.Seconds())\<close> goes through a float64: up to \<open>2 ^ 23\<close> seconds, some 97 days, it is the
  whole seconds elapsed; after longer gaps the rounding may count a second that is not over.
\<close>

section \<open>Message deduplicator\<close>

record MessageDeduplicator =
  seen :: "string \<rightharpoonup> instant"
  ttl :: duration

definition NewMessageDeduplicator :: "duration \<Rightarrow> MessageDeduplicator" where
  "NewMessageDeduplicator t = \<lparr>seen = Map.empty, ttl = t\<rparr>"

definition IsDuplicate :: "instant \<Rightarrow> string \<Rightarrow> MessageDeduplicator \<Rightarrow> bool \<times> MessageDeduplicator" where
  "IsDuplicate now msgID d =
     (case seen d msgID of
        None \<Rightarrow> (False, d)
      | Some seenAt \<Rightarrow>
          if ttl d > 0 \<and> now - seenAt > ttl d then (False, d\<lparr>seen := (seen d)(msgID := None)\<rparr>)
          else (True, d))"

definition Mark :: "instant \<Rightarrow> string \<Rightarrow> MessageDeduplicator \<Rightarrow> MessageDeduplicator" where
  "Mark now msgID d = d\<lparr>seen := (seen d)(msgID \<mapsto> now)\<rparr>"

definition Cleanup :: "instant \<Rightarrow> MessageDeduplicator \<Rightarrow> MessageDeduplicator" where
  "Cleanup now d =
     d\<lparr>seen := (\<lambda>i. case seen d i of None \<Rightarrow> None | Some t \<Rightarrow> if now - t > ttl d then None else Some t)\<rparr>"

text \<open>
  A history of calls with the time of each, and the answers of its \<^verbatim>\<open>IsDuplicate\<close> calls. The
  specification remembers for ever when an identifier was last marked and never forgets.
\<close>

datatype dedup_call = CheckDup string | MarkSeenID string | RunCleanup

fun dedup_run :: "(instant \<times> dedup_call) list \<Rightarrow> MessageDeduplicator \<Rightarrow> bool list" where
  "dedup_run [] d = []"
| "dedup_run ((now, CheckDup i) # cs) d =
     (case IsDuplicate now i d of (b, d') \<Rightarrow> b # dedup_run cs d')"
| "dedup_run ((now, MarkSeenID i) # cs) d = dedup_run cs (Mark now i d)"
| "dedup_run ((now, RunCleanup) # cs) d = dedup_run cs (Cleanup now d)"

fun dedup_spec :: "duration \<Rightarrow> (instant \<times> dedup_call) list \<Rightarrow> (string \<rightharpoonup> instant) \<Rightarrow> bool list" where
  "dedup_spec T [] marks = []"
| "dedup_spec T ((now, CheckDup i) # cs) marks =
     (case marks i of None \<Rightarrow> False | Some t \<Rightarrow> now - t \<le> T) # dedup_spec T cs marks"
| "dedup_spec T ((now, MarkSeenID i) # cs) marks = dedup_spec T cs (marks(i \<mapsto> now))"
| "dedup_spec T ((now, RunCleanup) # cs) marks = dedup_spec T cs marks"

text \<open>The simulation: what the deduplicator forgot has expired.\<close>

definition dedup_sim :: "instant \<Rightarrow> MessageDeduplicator \<Rightarrow> (string \<rightharpoonup> instant) \<Rightarrow> bool" where
  "dedup_sim now d marks \<longleftrightarrow>
     (\<forall>i. seen d i = marks i \<or> seen d i = None \<and> (\<exists>t. marks i = Some t \<and> now - t > ttl d))"

lemma dedup_sim_later: "dedup_sim now d marks \<Longrightarrow> now \<le> now' \<Longrightarrow> dedup_sim now' d marks"
  unfolding dedup_sim_def by fastforce

lemma dedup_sim_steps:
  assumes "dedup_sim now d marks" and "ttl d > 0"
  shows "dedup_sim now (snd (IsDuplicate now i d)) marks" "ttl (snd (IsDuplicate now i d)) = ttl d"
    and "fst (IsDuplicate now i d) \<longleftrightarrow> (case marks i of None \<Rightarrow> False | Some t \<Rightarrow> now - t \<le> ttl d)"
    and "dedup_sim now (Mark now i d) (marks(i \<mapsto> now))" "ttl (Mark now i d) = ttl d"
    and "dedup_sim now (Cleanup now d) marks" "ttl (Cleanup now d) = ttl d"
proof -
  from assms(1) have i: "seen d i = marks i \<or> seen d i = None \<and> (\<exists>t. marks i = Some t \<and> now - t > ttl d)"
    unfolding dedup_sim_def by blast
  show "fst (IsDuplicate now i d) \<longleftrightarrow> (case marks i of None \<Rightarrow> False | Some t \<Rightarrow> now - t \<le> ttl d)"
    using i assms(2) by (cases "marks i"; cases "seen d i") (auto simp: IsDuplicate_def)
  show "dedup_sim now (snd (IsDuplicate now i d)) marks"
  proof (cases "seen d i")
    case None
    with assms(1) show ?thesis by (simp add: IsDuplicate_def)
  next
    case (Some t)
    with i have "marks i = Some t" by auto
    with assms(1) Some show ?thesis by (simp add: dedup_sim_def IsDuplicate_def)
  qed
  show "dedup_sim now (Mark now i d) (marks(i \<mapsto> now))"
    using assms(1) by (simp add: dedup_sim_def Mark_def)
  show "dedup_sim now (Cleanup now d) marks"
    unfolding dedup_sim_def
  proof
    fix j
    from assms(1) have "seen d j = marks j \<or> seen d j = None \<and> (\<exists>t. marks j = Some t \<and> now - t > ttl d)"
      unfolding dedup_sim_def by blast
    then show "seen (Cleanup now d) j = marks j
        \<or> seen (Cleanup now d) j = None \<and> (\<exists>t. marks j = Some t \<and> now - t > ttl (Cleanup now d))"
      by (cases "marks j"; cases "seen d j") (auto simp: Cleanup_def)
  qed
qed (simp_all add: IsDuplicate_def Mark_def Cleanup_def split: option.splits)

lemma dedup_run_spec:
  assumes "dedup_sim t0 d marks" and "ttl d > 0" and "sorted (t0 # map fst cs)"
  shows "dedup_run cs d = dedup_spec (ttl d) cs marks"
  using assms
proof (induction cs arbitrary: t0 d marks)
  case (Cons c cs)
  obtain now op where c: "c = (now, op)" by (cases c)
  from Cons.prems have now: "dedup_sim now d marks" and s: "sorted (now # map fst cs)"
    by (auto simp: c intro: dedup_sim_later)
  note step = dedup_sim_steps [OF now Cons.prems(2)]
  show ?case
  proof (cases op)
    case (CheckDup i)
    then show ?thesis
      using step(1-3) [of i] Cons.IH [of now "snd (IsDuplicate now i d)" marks] s Cons.prems(2)
      by (cases "IsDuplicate now i d") (simp add: c)
  next
    case (MarkSeenID i)
    then show ?thesis
      using Cons.IH [OF step(4) [of i]] step(5) [of i] s Cons.prems(2) by (simp add: c fun_upd_def)
  next
    case RunCleanup
    then show ?thesis
      using step(6,7) Cons.IH [of now "Cleanup now d" marks] s Cons.prems(2) by (simp add: c)
  qed
qed simp

text \<open>
  C26. Deduplication: over every history of checks, marks and cleanups in time order, an identifier
  is reported as a duplicate exactly when it was last marked at most the time-to-live ago. Expiry on
  lookup and the periodic cleanup are not observable.
\<close>

theorem dedup_refines_spec:
  assumes "0 < T" and "sorted (map fst cs)"
  shows "dedup_run cs (NewMessageDeduplicator T) = dedup_spec T cs Map.empty"
proof (cases cs)
  case (Cons c cs')
  have "dedup_sim (fst c) (NewMessageDeduplicator T) Map.empty"
    by (simp add: dedup_sim_def NewMessageDeduplicator_def)
  with dedup_run_spec [of "fst c" "NewMessageDeduplicator T" Map.empty cs] assms Cons show ?thesis
    by (simp add: NewMessageDeduplicator_def)
qed simp

theorem dedup_refines_spec_witness:
  "dedup_run [(0, MarkSeenID ''a''), (5, CheckDup ''a''), (20, RunCleanup), (20, CheckDup ''a'')]
     (NewMessageDeduplicator 10) = [True, False]"
  using dedup_refines_spec [of 10 "[(0, MarkSeenID ''a''), (5, CheckDup ''a''), (20, RunCleanup), (20, CheckDup ''a'')]"]
  by simp

text \<open>
  With a non-positive time-to-live the two expiry rules disagree: \<^verbatim>\<open>IsDuplicate\<close> keeps an
  identifier for ever, while one \<^verbatim>\<open>Cleanup\<close> forgets it as soon as the clock has moved.
\<close>

theorem dedup_nonpositive_ttl:
  assumes "T \<le> 0" and "t < t'"
  shows "dedup_run [(t, MarkSeenID i), (t', CheckDup i), (t', RunCleanup), (t', CheckDup i)]
           (NewMessageDeduplicator T) = [True, False]"
  using assms by (simp add: NewMessageDeduplicator_def Mark_def IsDuplicate_def Cleanup_def)

theorem dedup_nonpositive_ttl_witness:
  "dedup_run [(1, MarkSeenID ''m''), (2, CheckDup ''m''), (2, RunCleanup), (2, CheckDup ''m'')]
     (NewMessageDeduplicator 0) = [True, False]"
  using dedup_nonpositive_ttl [of 0 1 2 "''m''"] by simp

section \<open>Per-peer rate limiter\<close>

record PeerRateLimiter =
  tokens :: int
  maxTokens :: int
  refillRate :: int
  lastRefill :: instant

definition NewPeerRateLimiter :: "instant \<Rightarrow> int \<Rightarrow> int \<Rightarrow> PeerRateLimiter" where
  "NewPeerRateLimiter now mx rate = \<lparr>tokens = mx, maxTokens = mx, refillRate = rate, lastRefill = now\<rparr>"

definition whole_seconds :: "duration \<Rightarrow> int" where
  "whole_seconds e = trunc64 (Seconds e)"

definition Allow :: "instant \<Rightarrow> PeerRateLimiter \<Rightarrow> bool \<times> PeerRateLimiter" where
  "Allow now r =
     (let tokensToAdd = whole_seconds (now - lastRefill r) * refillRate r;
          r1 = (if tokensToAdd > 0
                then r\<lparr>tokens := min (tokens r + tokensToAdd) (maxTokens r), lastRefill := now\<rparr> else r)
      in if tokens r1 > 0 then (True, r1\<lparr>tokens := tokens r1 - 1\<rparr>) else (False, r1))"

fun allow_run :: "instant list \<Rightarrow> PeerRateLimiter \<Rightarrow> nat \<times> PeerRateLimiter" where
  "allow_run [] r = (0, r)"
| "allow_run (t # ts) r =
     (case Allow t r of (ok, r') \<Rightarrow> case allow_run ts r' of (n, r'') \<Rightarrow> ((if ok then Suc n else n), r''))"

definition limiter_inv :: "PeerRateLimiter \<Rightarrow> bool" where
  "limiter_inv r \<longleftrightarrow> 0 \<le> tokens r \<and> tokens r \<le> maxTokens r \<and> 0 \<le> refillRate r"

text \<open>
  \<open>credit t0 r\<close>: what the bucket may still grant, counted against the seconds elapsed from \<open>t0\<close>
  up to the last refill. One call lowers it by a granted token and never raises it otherwise.
\<close>

definition credit :: "instant \<Rightarrow> PeerRateLimiter \<Rightarrow> int" where
  "credit t0 r = tokens r - refillRate r * ((lastRefill r - t0) div second)"

lemma div_second_add:
  "(a :: int) div second + b div second \<le> (a + b) div second"
  unfolding div_add1_eq [of a b] by (simp add: pos_imp_zdiv_nonneg_iff)

lemma Allow_step:
  assumes "limiter_inv r" and "lastRefill r \<le> now" and "t0 \<le> lastRefill r" and "Allow now r = (ok, r')"
    and "now - t0 < 2 ^ 23 * second"
  shows "limiter_inv r'" and "lastRefill r' \<le> now" and "lastRefill r \<le> lastRefill r'"
    and "maxTokens r' = maxTokens r" and "refillRate r' = refillRate r"
    and "credit t0 r' + of_bool ok \<le> credit t0 r"
proof -
  let ?e = "(now - lastRefill r) div second" and ?r = "refillRate r"
  have w: "whole_seconds (now - lastRefill r) = ?e" using assms(2,3,5) by (simp add: whole_seconds_def trunc64_Seconds)
  have "(lastRefill r - t0) div second + ?e \<le> (now - t0) div second"
    using div_second_add [of "lastRefill r - t0" "now - lastRefill r"] by simp
  then have "?r * ((lastRefill r - t0) div second) + ?r * ?e \<le> ?r * ((now - t0) div second)"
    using assms(1) unfolding limiter_inv_def by (metis distrib_left mult_left_mono)
  then show "credit t0 r' + of_bool ok \<le> credit t0 r"
    using assms(1,4) unfolding Allow_def w Let_def credit_def
    by (auto simp: limiter_inv_def mult.commute split: if_splits)
  show "limiter_inv r'" "lastRefill r' \<le> now" "lastRefill r \<le> lastRefill r'"
    "maxTokens r' = maxTokens r" "refillRate r' = refillRate r"
    using assms(1,2,4) unfolding Allow_def w Let_def by (auto simp: limiter_inv_def split: if_splits)
qed

lemma allow_run_credit:
  assumes "limiter_inv r" and "t0 \<le> lastRefill r" and "sorted (lastRefill r # ts)" and "allow_run ts r = (n, r')"
    and "\<forall>t \<in> set ts. t - t0 < 2 ^ 23 * second"
  shows "limiter_inv r' \<and> refillRate r' = refillRate r \<and> lastRefill r \<le> lastRefill r'
       \<and> lastRefill r' \<le> last (lastRefill r # ts) \<and> credit t0 r' + int n \<le> credit t0 r"
  using assms
proof (induction ts arbitrary: r n)
  case (Cons t ts)
  obtain ok r1 where a: "Allow t r = (ok, r1)" by (cases "Allow t r")
  obtain m where m: "allow_run ts r1 = (m, r')" and n: "n = (if ok then Suc m else m)"
    using Cons.prems(4) a by (auto split: prod.splits)
  have "t - t0 < 2 ^ 23 * second" using Cons.prems(5) by simp
  note s = Allow_step [OF Cons.prems(1) _ Cons.prems(2) a this]
  from Cons.prems(3) s have "sorted (lastRefill r1 # ts)" by fastforce
  with s Cons.prems Cons.IH [OF _ _ _ m] have "limiter_inv r' \<and> refillRate r' = refillRate r1
      \<and> lastRefill r1 \<le> lastRefill r' \<and> lastRefill r' \<le> last (lastRefill r1 # ts)
      \<and> credit t0 r' + int m \<le> credit t0 r1"
    by simp
  with s n Cons.prems(3) show ?case
    by (cases "ts = []") (auto split: if_splits)
qed (simp add: limiter_inv_def)





end
