(* ===== verification/Peer_Registry.thy ===== *)
theory Peer_Registry
  imports P2P_Prelude Float64
begin

text \<open>
  The in-memory peer registry of \<^verbatim>\<open>src/go/node/peer.go\<close>: peer records, name validation, the
  authentication modes, every operation on the peer map, reliability scores, and selection. Of the
  debounced persistence only the two flags and the paths are here; the files are in \<open>Peer_Store\<close>.

  The peer map is an association list with distinct keys, whose order stands for the unspecified
  iteration order of the Go map. Peers are values: \<^verbatim>\<open>AddPeer\<close> and \<^verbatim>\<open>UpdatePeer\<close> store the caller's
  pointer, so the model is that of callers that do not write through it afterwards. The KD-tree
  comes from another module: its constructor and its two queries are arguments.
  The zero \<^verbatim>\<open>time.Time\<close> is \<open>None\<close>.
\<close>

section \<open>Peers\<close>

type_synonym NodeRole = string

record Peer =
  ID :: string
  Name :: string
  PublicKey :: string
  Address :: string
  Role :: NodeRole
  AddedAt :: "instant option"
  LastSeen :: "instant option"
  Latitude :: f64
  Longitude :: f64
  PingMS :: f64
  Hops :: int
  GeoKM :: f64
  Score :: f64
  Connected :: bool

definition saveDebounceInterval :: duration where "saveDebounceInterval = 5 * second"

type_synonym PeerAuthMode = int

definition PeerAuthOpen :: PeerAuthMode where "PeerAuthOpen = 0"
definition PeerAuthAllowlist :: PeerAuthMode where "PeerAuthAllowlist = 1"

definition PeerNameMaxLength :: nat where "PeerNameMaxLength = 64"

text \<open>The two alternatives of \<^verbatim>\<open>peerNameRegex\<close>.\<close>

definition alnum :: "char \<Rightarrow> bool" where
  "alnum c \<longleftrightarrow> (CHR ''a'' \<le> c \<and> c \<le> CHR ''z'') \<or> (CHR ''A'' \<le> c \<and> c \<le> CHR ''Z'') \<or> (CHR ''0'' \<le> c \<and> c \<le> CHR ''9'')"

definition name_char :: "char \<Rightarrow> bool" where
  "name_char c \<longleftrightarrow> alnum c \<or> c \<in> set ''-_ ''"

definition peerNameRegex :: "string \<Rightarrow> bool" where
  "peerNameRegex name \<longleftrightarrow>
     (2 \<le> length name \<and> length name \<le> 64 \<and> alnum (hd name) \<and> alnum (last name)
        \<and> list_all name_char (butlast (tl name)))
   \<or> (length name = 1 \<and> alnum (hd name))"

definition validatePeerName :: "string \<Rightarrow> unit result" where
  "validatePeerName name =
     (if name = [] then Ok ()
      else if length name > PeerNameMaxLength then
        Fail (E ''validatePeerName'' ''peer name too long'' None)
      else if \<not> peerNameRegex name then
        Fail (E ''validatePeerName'' ''peer name contains invalid characters (use alphanumeric, hyphens, underscores, spaces)'' None)
      else Ok ())"

definition safeKeyPrefix :: "string \<Rightarrow> string" where
  "safeKeyPrefix key =
     (if length key \<ge> 16 then take 16 key @ ''...'' else if length key = 0 then ''(empty)'' else key)"

section \<open>Registry\<close>

record KDPoint =
  kpID :: string
  kpCoords :: "f64 list"
  kpValue :: string

record 'kd PeerRegistry =
  peers :: "(string \<times> Peer) list"
  kdTree :: "'kd option"
  regPath :: string
  allowlistPath :: string
  authMode :: PeerAuthMode
  allowedPublicKeys :: "string set"
  dirty :: bool
  saveTimer :: bool

definition pingWeight :: f64 where "pingWeight = round64 1"
definition hopsWeight :: f64 where "hopsWeight = round64 (7 / 10)"
definition geoWeight :: f64 where "geoWeight = round64 (2 / 10)"
definition scoreWeight :: f64 where "scoreWeight = round64 (12 / 10)"

definition peer_point :: "Peer \<Rightarrow> KDPoint" where
  "peer_point peer =
     \<lparr>kpID = ID peer,
      kpCoords = [f64_mul (PingMS peer) pingWeight, f64_mul (f64_of_int (Hops peer)) hopsWeight,
                  f64_mul (GeoKM peer) geoWeight, f64_mul (f64_sub (Fin 100) (Score peer)) scoreWeight],
      kpValue = ID peer\<rparr>"

definition rebuildKDTree :: "(KDPoint list \<Rightarrow> 'kd option) \<Rightarrow> 'kd PeerRegistry \<Rightarrow> 'kd PeerRegistry" where
  "rebuildKDTree newKDTree r =
     (if peers r = [] then r\<lparr>kdTree := None\<rparr>
      else case newKDTree (map (peer_point \<circ> snd) (peers r)) of
          None \<Rightarrow> r
        | Some t \<Rightarrow> r\<lparr>kdTree := Some t\<rparr>)"

text \<open>
  \<^verbatim>\<open>scheduleSave\<close> marks the registry dirty and starts the timer unless it is running; \<^verbatim>\<open>save\<close> is
  \<^verbatim>\<open>scheduleSave\<close> and always succeeds.
\<close>

definition scheduleSave :: "'kd PeerRegistry \<Rightarrow> 'kd PeerRegistry" where
  "scheduleSave r = (let r1 = r\<lparr>dirty := True\<rparr> in if saveTimer r1 then r1 else r1\<lparr>saveTimer := True\<rparr>)"

definition save :: "('kd PeerRegistry, unit) cmd" where
  "save r = (Ok (), scheduleSave r)"

subsection \<open>Authentication\<close>

definition SetAuthMode :: "PeerAuthMode \<Rightarrow> 'kd PeerRegistry \<Rightarrow> 'kd PeerRegistry" where
  "SetAuthMode mode r = r\<lparr>authMode := mode\<rparr>"

definition GetAuthMode :: "'kd PeerRegistry \<Rightarrow> PeerAuthMode" where
  "GetAuthMode r = authMode r"

definition IsPublicKeyAllowed :: "string \<Rightarrow> 'kd PeerRegistry \<Rightarrow> bool" where
  "IsPublicKeyAllowed publicKey r \<longleftrightarrow> publicKey \<in> allowedPublicKeys r"

definition IsPeerAllowed :: "string \<Rightarrow> string \<Rightarrow> 'kd PeerRegistry \<Rightarrow> bool" where
  "IsPeerAllowed peerID publicKey r =
     (if authMode r = PeerAuthOpen then True
      else if map_of (peers r) peerID \<noteq> None then True
      else publicKey \<in> allowedPublicKeys r)"

subsection \<open>Peers of the registry\<close>

definition not_found :: "string \<Rightarrow> string \<Rightarrow> go_error" where
  "not_found op i = E op (''peer '' @ i @ '' not found'') None"

definition AddPeer :: "(KDPoint list \<Rightarrow> 'kd option) \<Rightarrow> instant \<Rightarrow> Peer \<Rightarrow> ('kd PeerRegistry, unit) cmd" where
  "AddPeer newKDTree now peer r =
     (if ID peer = [] then (Fail (E ''PeerRegistry.AddPeer'' ''peer ID is required'' None), r)
      else case validatePeerName (Name peer) of
          Fail e \<Rightarrow> (Fail e, r)
        | Panic p \<Rightarrow> (Panic p, r)
        | Ok _ \<Rightarrow>
            if map_of (peers r) (ID peer) \<noteq> None then
              (Fail (E ''PeerRegistry.AddPeer'' (''peer '' @ ID peer @ '' already exists'') None), r)
            else
              let peer1 = (if AddedAt peer = None then peer\<lparr>AddedAt := Some now\<rparr> else peer);
                  peer2 = (if f64_eq (Score peer1) (Fin 0) then peer1\<lparr>Score := Fin 50\<rparr> else peer1)
              in save (rebuildKDTree newKDTree (r\<lparr>peers := AList.update (ID peer2) peer2 (peers r)\<rparr>)))"

definition UpdatePeer :: "(KDPoint list \<Rightarrow> 'kd option) \<Rightarrow> Peer \<Rightarrow> ('kd PeerRegistry, unit) cmd" where
  "UpdatePeer newKDTree peer r =
     (if map_of (peers r) (ID peer) = None then (Fail (not_found ''PeerRegistry.UpdatePeer'' (ID peer)), r)
      else save (rebuildKDTree newKDTree (r\<lparr>peers := AList.update (ID peer) peer (peers r)\<rparr>)))"

definition RemovePeer :: "(KDPoint list \<Rightarrow> 'kd option) \<Rightarrow> string \<Rightarrow> ('kd PeerRegistry, unit) cmd" where
  "RemovePeer newKDTree i r =
     (if map_of (peers r) i = None then (Fail (not_found ''PeerRegistry.RemovePeer'' i), r)
      else save (rebuildKDTree newKDTree (r\<lparr>peers := AList.delete i (peers r)\<rparr>)))"

definition GetPeer :: "string \<Rightarrow> 'kd PeerRegistry \<Rightarrow> Peer option" where
  "GetPeer i r = map_of (peers r) i"

definition ListPeers :: "'kd PeerRegistry \<Rightarrow> Peer list" where
  "ListPeers r = map snd (peers r)"

definition GetConnectedPeers :: "'kd PeerRegistry \<Rightarrow> Peer list" where
  "GetConnectedPeers r = filter Connected (map snd (peers r))"

definition Count :: "'kd PeerRegistry \<Rightarrow> nat" where
  "Count r = length (peers r)"

subsection \<open>Metrics, connection state and scores\<close>

definition ScoreSuccessIncrement :: f64 where "ScoreSuccessIncrement = Fin 1"
definition ScoreFailureDecrement :: f64 where "ScoreFailureDecrement = Fin 5"
definition ScoreTimeoutDecrement :: f64 where "ScoreTimeoutDecrement = Fin 3"
definition ScoreMinimum :: f64 where "ScoreMinimum = Fin 0"
definition ScoreMaximum :: f64 where "ScoreMaximum = Fin 100"
definition ScoreDefault :: f64 where "ScoreDefault = Fin 50"

definition UpdateMetrics ::
  "(KDPoint list \<Rightarrow> 'kd option) \<Rightarrow> instant \<Rightarrow> string \<Rightarrow> f64 \<Rightarrow> f64 \<Rightarrow> int \<Rightarrow> ('kd PeerRegistry, unit) cmd" where
  "UpdateMetrics newKDTree now i pingMS geoKM hops r =
     (case map_of (peers r) i of
        None \<Rightarrow> (Fail (not_found ''PeerRegistry.UpdateMetrics'' i), r)
      | Some peer \<Rightarrow>
          let peer' = peer\<lparr>PingMS := pingMS, GeoKM := geoKM, Hops := hops, LastSeen := Some now\<rparr>
          in save (rebuildKDTree newKDTree (r\<lparr>peers := AList.update i peer' (peers r)\<rparr>)))"

definition UpdateScore :: "(KDPoint list \<Rightarrow> 'kd option) \<Rightarrow> string \<Rightarrow> f64 \<Rightarrow> ('kd PeerRegistry, unit) cmd" where
  "UpdateScore newKDTree i score r =
     (case map_of (peers r) i of
        None \<Rightarrow> (Fail (not_found ''PeerRegistry.UpdateScore'' i), r)
      | Some peer \<Rightarrow>
          let peer' = peer\<lparr>Score := go_max (Fin 0) (go_min score (Fin 100))\<rparr>
          in save (rebuildKDTree newKDTree (r\<lparr>peers := AList.update i peer' (peers r)\<rparr>)))"

definition SetConnected :: "instant \<Rightarrow> string \<Rightarrow> bool \<Rightarrow> 'kd PeerRegistry \<Rightarrow> 'kd PeerRegistry" where
  "SetConnected now i conn r =
     (case map_of (peers r) i of
        None \<Rightarrow> r
      | Some peer \<Rightarrow>
          let peer1 = peer\<lparr>Connected := conn\<rparr>;
              peer2 = (if conn then peer1\<lparr>LastSeen := Some now\<rparr> else peer1);
              r1 = r\<lparr>peers := AList.update i peer2 (peers r)\<rparr>
          in if conn then snd (save r1) else r1)"

definition MarkSeen :: "instant \<Rightarrow> string \<Rightarrow> 'kd PeerRegistry \<Rightarrow> 'kd PeerRegistry" where
  "MarkSeen now i r =
     (case map_of (peers r) i of
        None \<Rightarrow> r
      | Some peer \<Rightarrow> snd (save (r\<lparr>peers := AList.update i (peer\<lparr>LastSeen := Some now\<rparr>) (peers r)\<rparr>)))"

definition RecordSuccess :: "(KDPoint list \<Rightarrow> 'kd option) \<Rightarrow> instant \<Rightarrow> string \<Rightarrow> 'kd PeerRegistry \<Rightarrow> 'kd PeerRegistry" where
  "RecordSuccess newKDTree now i r =
     (case map_of (peers r) i of
        None \<Rightarrow> r
      | Some peer \<Rightarrow>
          let peer' = peer\<lparr>Score := go_min (f64_add (Score peer) ScoreSuccessIncrement) ScoreMaximum, LastSeen := Some now\<rparr>
          in snd (save (rebuildKDTree newKDTree (r\<lparr>peers := AList.update i peer' (peers r)\<rparr>))))"

definition RecordFailure :: "(KDPoint list \<Rightarrow> 'kd option) \<Rightarrow> instant \<Rightarrow> string \<Rightarrow> 'kd PeerRegistry \<Rightarrow> 'kd PeerRegistry" where
  "RecordFailure newKDTree now i r =
     (case map_of (peers r) i of
        None \<Rightarrow> r
      | Some peer \<Rightarrow>
          let peer' = peer\<lparr>Score := go_max (f64_sub (Score peer) ScoreFailureDecrement) ScoreMinimum, LastSeen := Some now\<rparr>
          in snd (save (rebuildKDTree newKDTree (r\<lparr>peers := AList.update i peer' (peers r)\<rparr>))))"

definition RecordTimeout :: "(KDPoint list \<Rightarrow> 'kd option) \<Rightarrow> instant \<Rightarrow> string \<Rightarrow> 'kd PeerRegistry \<Rightarrow> 'kd PeerRegistry" where
  "RecordTimeout newKDTree now i r =
     (case map_of (peers r) i of
        None \<Rightarrow> r
      | Some peer \<Rightarrow>
          let peer' = peer\<lparr>Score := go_max (f64_sub (Score peer) ScoreTimeoutDecrement) ScoreMinimum, LastSeen := Some now\<rparr>
          in snd (save (rebuildKDTree newKDTree (r\<lparr>peers := AList.update i peer' (peers r)\<rparr>))))"

subsection \<open>Selection\<close>

text \<open>
  \<^verbatim>\<open>slices.SortFunc\<close>: insertion sort with the caller's comparison, which is what the library does on
  short slices; the sorted prefix is held in reverse, and an element moves left past those it is
  smaller than. On longer slices it may order ties differently; since the input order is that of a Go
  map, every order of ties is covered by some input order.
\<close>

fun insert_cmp :: "('a \<Rightarrow> 'a \<Rightarrow> int) \<Rightarrow> 'a \<Rightarrow> 'a list \<Rightarrow> 'a list" where
  "insert_cmp cmp x [] = [x]"
| "insert_cmp cmp x (y # ys) = (if cmp x y < 0 then y # insert_cmp cmp x ys else x # y # ys)"

definition SortFunc :: "('a \<Rightarrow> 'a \<Rightarrow> int) \<Rightarrow> 'a list \<Rightarrow> 'a list" where
  "SortFunc cmp xs = rev (fold (insert_cmp cmp) xs [])"

definition cmp_score_desc :: "Peer \<Rightarrow> Peer \<Rightarrow> int" where
  "cmp_score_desc a b =
     (if f64_less (Score a) (Score b) then 1 else if f64_less (Score b) (Score a) then -1 else 0)"

definition GetPeersByScore :: "'kd PeerRegistry \<Rightarrow> Peer list" where
  "GetPeersByScore r = SortFunc cmp_score_desc (map snd (peers r))"

definition SelectOptimalPeer :: "('kd \<Rightarrow> f64 list \<Rightarrow> string option) \<Rightarrow> 'kd PeerRegistry \<Rightarrow> Peer option" where
  "SelectOptimalPeer nearest r =
     (case kdTree r of
        None \<Rightarrow> None
      | Some t \<Rightarrow>
          if peers r = [] then None
          else case nearest t [Fin 0, Fin 0, Fin 0, Fin 0] of
              None \<Rightarrow> None
            | Some i \<Rightarrow> map_of (peers r) i)"

definition SelectNearestPeers :: "('kd \<Rightarrow> f64 list \<Rightarrow> int \<Rightarrow> string list) \<Rightarrow> int \<Rightarrow> 'kd PeerRegistry \<Rightarrow> Peer list" where
  "SelectNearestPeers kNearest n r =
     (case kdTree r of
        None \<Rightarrow> []
      | Some t \<Rightarrow>
          if peers r = [] then []
          else List.map_filter (map_of (peers r)) (kNearest t [Fin 0, Fin 0, Fin 0, Fin 0] n))"

definition nearby_score :: "f64 \<Rightarrow> f64 \<Rightarrow> int \<Rightarrow> Peer \<Rightarrow> f64" where
  "nearby_score latitude longitude hopCount peer =
     (let deltaLat = f64_sub (Latitude peer) latitude;
          deltaLon = f64_sub (Longitude peer) longitude;
          coordDistance =
            (if f64_eq (Latitude peer) (Fin 0) \<and> f64_eq (Longitude peer) (Fin 0)
             then f64_mul (GeoKM peer) (GeoKM peer)
             else f64_add (f64_mul deltaLat deltaLat) (f64_mul deltaLon deltaLon));
          hopDelta = f64_of_int (Hops peer - hopCount)
      in f64_add coordDistance (f64_mul hopDelta hopDelta))"

definition cmp_scored :: "Peer \<times> f64 \<Rightarrow> Peer \<times> f64 \<Rightarrow> int" where
  "cmp_scored a b = (if f64_less (snd a) (snd b) then -1 else if f64_less (snd b) (snd a) then 1 else 0)"

definition FindNearby :: "f64 \<Rightarrow> f64 \<Rightarrow> int \<Rightarrow> int \<Rightarrow> 'kd PeerRegistry \<Rightarrow> Peer list" where
  "FindNearby latitude longitude hopCount maxResults r =
     (if maxResults \<le> 0 \<or> peers r = [] then []
      else let scored = SortFunc cmp_scored
                 (map (\<lambda>(_, peer). (peer, nearby_score latitude longitude hopCount peer)) (peers r))
           in map fst (take (min (nat maxResults) (length scored)) scored))"

subsection \<open>Iterators\<close>

text \<open>
  The order in which Go ranges over its maps is not specified: over the peers it is the order of the
  association list.
\<close>

definition Peers_seq :: "'kd PeerRegistry \<Rightarrow> (Peer, 's) seq" where
  "Peers_seq r = range_over (map snd (peers r))"

definition ConnectedPeers_seq :: "'kd PeerRegistry \<Rightarrow> (Peer, 's) seq" where
  "ConnectedPeers_seq r yield = range_over (map snd (peers r)) (\<lambda>peer s. if Connected peer then yield peer s else (True, s))"

definition PeersByScore_seq :: "'kd PeerRegistry \<Rightarrow> (Peer, 's) seq" where
  "PeersByScore_seq r = range_over (GetPeersByScore r)"

lemma collect_peers:
  "ListPeers r = seq_collect (Peers_seq r)"
  "GetConnectedPeers r = seq_collect (ConnectedPeers_seq r)"
proof -
  show "ListPeers r = seq_collect (Peers_seq r)" by (simp add: ListPeers_def Peers_seq_def)
  have "ConnectedPeers_seq r = (range_over (filter Connected (map snd (peers r))) :: (Peer, Peer list) seq)"
    by (rule ext) (rule ext, simp only: ConnectedPeers_seq_def range_over_filter)
  then show "GetConnectedPeers r = seq_collect (ConnectedPeers_seq r)" by (simp add: GetConnectedPeers_def)
qed

text \<open>Taking the first peer of \<^verbatim>\<open>PeersByScore\<close> takes the head of the ranking.\<close>

lemma first_by_score:
  "PeersByScore_seq r (\<lambda>peer _. (False, Some peer)) None = (case GetPeersByScore r of [] \<Rightarrow> None | peer # _ \<Rightarrow> Some peer)"
  by (simp add: PeersByScore_seq_def split: list.split)

section \<open>Sorting by a comparison\<close>

text \<open>
  The contract \<^verbatim>\<open>slices.SortFunc\<close> asks of its comparison, on the elements that occur: \<open>cmp a b < 0\<close>
  is a strict weak order. Then the result is sorted.
\<close>

lemma mset_SortFunc: "mset (SortFunc cmp xs) = mset xs"
proof -
  have "mset (insert_cmp cmp x ys) = add_mset x (mset ys)" for x ys
    by (induction ys) auto
  then have "mset (fold (insert_cmp cmp) xs ys) = mset xs + mset ys" for ys
    by (induction xs arbitrary: ys) auto
  then show ?thesis by (simp add: SortFunc_def)
qed

locale strict_weak_cmp =
  fixes cmp :: "'a \<Rightarrow> 'a \<Rightarrow> int" and comparable :: "'a \<Rightarrow> bool"
  assumes asym: "comparable a \<Longrightarrow> comparable b \<Longrightarrow> cmp a b < 0 \<Longrightarrow> \<not> cmp b a < 0"
    and not_less_trans: "comparable a \<Longrightarrow> comparable b \<Longrightarrow> comparable c \<Longrightarrow>
      \<not> cmp b a < 0 \<Longrightarrow> \<not> cmp c b < 0 \<Longrightarrow> \<not> cmp c a < 0"
begin

definition in_order :: "'a \<Rightarrow> 'a \<Rightarrow> bool" where
  "in_order a b \<longleftrightarrow> \<not> cmp b a < 0"

lemma set_insert_cmp: "set (insert_cmp cmp x ys) = insert x (set ys)"
  by (induction ys) auto

lemma insert_sorted:
  assumes "comparable x" and "list_all comparable ys" and "sorted_wrt (\<lambda>a b. in_order b a) ys"
  shows "sorted_wrt (\<lambda>a b. in_order b a) (insert_cmp cmp x ys)"
  using assms(2,3)
proof (induction ys)
  case (Cons y ys)
  show ?case
  proof (cases "cmp x y < 0")
    case True
    then have "in_order x y" using asym assms(1) Cons.prems(1) by (simp add: in_order_def)
    with True Cons show ?thesis by (auto simp: set_insert_cmp)
  next
    case False
    then have yx: "in_order y x" by (simp add: in_order_def)
    moreover have "in_order z x" if "z \<in> set ys" for z
      using that yx Cons.prems assms(1) not_less_trans [of z y x] by (auto simp: in_order_def list_all_iff)
    ultimately show ?thesis using False Cons.prems(2) by simp
  qed
qed simp

lemma SortFunc_sorted:
  assumes "list_all comparable xs"
  shows "sorted_wrt in_order (SortFunc cmp xs)"
proof -
  have "sorted_wrt (\<lambda>a b. in_order b a) (fold (insert_cmp cmp) xs ys)"
    if "list_all comparable ys" "sorted_wrt (\<lambda>a b. in_order b a) ys" for ys
    using that assms
  proof (induction xs arbitrary: ys)
    case (Cons x xs)
    then have "sorted_wrt (\<lambda>a b. in_order b a) (insert_cmp cmp x ys)" "list_all comparable (insert_cmp cmp x ys)"
      using insert_sorted by (auto simp: list_all_iff set_insert_cmp)
    with Cons show ?case by simp
  qed simp
  then show ?thesis by (simp add: SortFunc_def sorted_wrt_rev)
qed

end

lemma sorted_wrt_take_drop:
  assumes "sorted_wrt R xs" and "x \<in> set (take n xs)" and "y \<in> set (drop n xs)"
  shows "R x y"
proof -
  have "sorted_wrt R (take n xs @ drop n xs)" using assms(1) by simp
  with assms(2,3) show ?thesis unfolding sorted_wrt_append by blast
qed

lemma f64_less_asym: "f64_less x y \<Longrightarrow> \<not> f64_less y x"
  by (cases x; cases y) auto

lemma f64_less_negatively_transitive:
  "y \<noteq> NaN \<Longrightarrow> \<not> f64_less x y \<Longrightarrow> \<not> f64_less y z \<Longrightarrow> \<not> f64_less x z"
  by (cases x; cases y; cases z) auto

interpretation by_score: strict_weak_cmp cmp_score_desc "\<lambda>p. Score p \<noteq> NaN"
proof
  fix a b c :: Peer
  show "cmp_score_desc a b < 0 \<Longrightarrow> \<not> cmp_score_desc b a < 0"
    using f64_less_asym by (auto simp: cmp_score_desc_def)
  assume "Score b \<noteq> NaN" "\<not> cmp_score_desc b a < 0" "\<not> cmp_score_desc c b < 0"
  then have "\<not> f64_less (Score a) (Score b)" "\<not> f64_less (Score b) (Score c)"
    using f64_less_asym by (auto simp: cmp_score_desc_def split: if_splits)
  with \<open>Score b \<noteq> NaN\<close> have "\<not> f64_less (Score a) (Score c)" 
    using f64_less_negatively_transitive by blast
  then show "\<not> cmp_score_desc c a < 0" by (simp add: cmp_score_desc_def)
qed

interpretation by_distance: strict_weak_cmp cmp_scored "\<lambda>(_, d). d \<noteq> NaN"
proof
  fix a b c :: "Peer \<times> f64"
  show "cmp_scored a b < 0 \<Longrightarrow> \<not> cmp_scored b a < 0"
    using f64_less_asym by (auto simp: cmp_scored_def split: if_splits)
  assume "case b of (_, d) \<Rightarrow> d \<noteq> NaN" "\<not> cmp_scored b a < 0" "\<not> cmp_scored c b < 0"
  then have "snd b \<noteq> NaN" "\<not> f64_less (snd c) (snd b)" "\<not> f64_less (snd b) (snd a)"
    by (auto simp: cmp_scored_def split: if_splits prod.splits)
  then have "\<not> f64_less (snd c) (snd a)" using f64_less_negatively_transitive by blast
  then show "\<not> cmp_scored c a < 0" by (auto simp: cmp_scored_def)
qed

section \<open>Operations of the registry\<close>

text \<open>One call on the registry, at a given time.\<close>

datatype registry_op =
    OpAdd Peer
  | OpUpdate Peer
  | OpRemove string
  | OpMetrics string f64 f64 int
  | OpScore string f64
  | OpConnected string bool
  | OpSeen string
  | OpSuccess string
  | OpFailure string
  | OpTimeout string
  | OpAuthMode PeerAuthMode

fun registry_exec ::
  "(KDPoint list \<Rightarrow> 'kd option) \<Rightarrow> instant \<times> registry_op \<Rightarrow> 'kd PeerRegistry \<Rightarrow> 'kd PeerRegistry" where
  "registry_exec mk (now, OpAdd p) r = snd (AddPeer mk now p r)"
| "registry_exec mk (now, OpUpdate p) r = snd (UpdatePeer mk p r)"
| "registry_exec mk (now, OpRemove i) r = snd (RemovePeer mk i r)"
| "registry_exec mk (now, OpMetrics i ping geo hops) r = snd (UpdateMetrics mk now i ping geo hops r)"
| "registry_exec mk (now, OpScore i s) r = snd (UpdateScore mk i s r)"
| "registry_exec mk (now, OpConnected i c) r = SetConnected now i c r"
| "registry_exec mk (now, OpSeen i) r = MarkSeen now i r"
| "registry_exec mk (now, OpSuccess i) r = RecordSuccess mk now i r"
| "registry_exec mk (now, OpFailure i) r = RecordFailure mk now i r"
| "registry_exec mk (now, OpTimeout i) r = RecordTimeout mk now i r"
| "registry_exec mk (now, OpAuthMode m) r = SetAuthMode m r"

definition registry_run ::
  "(KDPoint list \<Rightarrow> 'kd option) \<Rightarrow> (instant \<times> registry_op) list \<Rightarrow> 'kd PeerRegistry \<Rightarrow> 'kd PeerRegistry" where
  "registry_run mk = fold (registry_exec mk)"

definition empty_registry :: "'kd PeerRegistry" where
  "empty_registry = \<lparr>peers = [], kdTree = None, regPath = [], allowlistPath = [], authMode = PeerAuthOpen, allowedPublicKeys = {},
                     dirty = False, saveTimer = False\<rparr>"

lemmas registry_ops = AddPeer_def UpdatePeer_def RemovePeer_def UpdateMetrics_def UpdateScore_def
  SetConnected_def MarkSeen_def RecordSuccess_def RecordFailure_def RecordTimeout_def SetAuthMode_def

lemma save_simps [simp]:
  "fst (save r) = Ok ()" "peers (snd (save r)) = peers r" "kdTree (snd (save r)) = kdTree r"
  "authMode (snd (save r)) = authMode r" "allowedPublicKeys (snd (save r)) = allowedPublicKeys r"
  "dirty (snd (save r))" "saveTimer (snd (save r))"
  "regPath (snd (save r)) = regPath r" "allowlistPath (snd (save r)) = allowlistPath r"
  by (simp_all add: save_def scheduleSave_def Let_def)

lemma rebuildKDTree_simps [simp]:
  "peers (rebuildKDTree mk r) = peers r" "authMode (rebuildKDTree mk r) = authMode r"
  "allowedPublicKeys (rebuildKDTree mk r) = allowedPublicKeys r"
  "dirty (rebuildKDTree mk r) = dirty r" "saveTimer (rebuildKDTree mk r) = saveTimer r"
  "regPath (rebuildKDTree mk r) = regPath r" "allowlistPath (rebuildKDTree mk r) = allowlistPath r"
  by (simp_all add: rebuildKDTree_def split: option.splits)

text \<open>
  The calls that change some fields of one registered peer, as the identifier and the change.
\<close>

fun peer_change :: "instant \<Rightarrow> registry_op \<Rightarrow> (string \<times> (Peer \<Rightarrow> Peer)) option" where
  "peer_change now (OpMetrics i ping geo hops) =
     Some (i, \<lambda>p. p\<lparr>PingMS := ping, GeoKM := geo, Hops := hops, LastSeen := Some now\<rparr>)"
| "peer_change now (OpScore i s) = Some (i, \<lambda>p. p\<lparr>Score := go_max (Fin 0) (go_min s (Fin 100))\<rparr>)"
| "peer_change now (OpConnected i c) =
     Some (i, \<lambda>p. if c then p\<lparr>Connected := c, LastSeen := Some now\<rparr> else p\<lparr>Connected := c\<rparr>)"
| "peer_change now (OpSeen i) = Some (i, \<lambda>p. p\<lparr>LastSeen := Some now\<rparr>)"
| "peer_change now (OpSuccess i) =
     Some (i, \<lambda>p. p\<lparr>Score := go_min (f64_add (Score p) (Fin 1)) (Fin 100), LastSeen := Some now\<rparr>)"
| "peer_change now (OpFailure i) =
     Some (i, \<lambda>p. p\<lparr>Score := go_max (f64_sub (Score p) (Fin 5)) (Fin 0), LastSeen := Some now\<rparr>)"
| "peer_change now (OpTimeout i) =
     Some (i, \<lambda>p. p\<lparr>Score := go_max (f64_sub (Score p) (Fin 3)) (Fin 0), LastSeen := Some now\<rparr>)"
| "peer_change now _ = None"

lemmas score_consts = ScoreSuccessIncrement_def ScoreFailureDecrement_def ScoreTimeoutDecrement_def
  ScoreMinimum_def ScoreMaximum_def

lemma peers_exec_change:
  assumes "peer_change now op = Some (i, f)"
  shows "peers (registry_exec mk (now, op) r) =
     (case map_of (peers r) i of None \<Rightarrow> peers r | Some p \<Rightarrow> AList.update i (f p) (peers r))"
  using assms by (cases op) (auto simp: registry_ops score_consts Let_def split: option.splits)

lemma ID_peer_change: "peer_change now op = Some (i, f) \<Longrightarrow> ID (f p) = ID p"
  by (cases op) auto

text \<open>The peer \<^verbatim>\<open>AddPeer\<close> stores: the caller's, with the two defaults filled in.\<close>

definition added_peer :: "instant \<Rightarrow> Peer \<Rightarrow> Peer" where
  "added_peer now p =
     (let p1 = (if AddedAt p = None then p\<lparr>AddedAt := Some now\<rparr> else p)
      in if f64_eq (Score p1) (Fin 0) then p1\<lparr>Score := Fin 50\<rparr> else p1)"

lemma added_peer_simps [simp]:
  "ID (added_peer now p) = ID p" "Name (added_peer now p) = Name p"
  "Score (added_peer now p) = (if f64_eq (Score p) (Fin 0) then Fin 50 else Score p)"
  "AddedAt (added_peer now p) = Some (case AddedAt p of None \<Rightarrow> now | Some t \<Rightarrow> t)"
  by (auto simp: added_peer_def Let_def split: option.splits)

definition addable :: "Peer \<Rightarrow> 'kd PeerRegistry \<Rightarrow> bool" where
  "addable p r \<longleftrightarrow> ID p \<noteq> [] \<and> validatePeerName (Name p) = Ok () \<and> map_of (peers r) (ID p) = None"

lemma AddPeer_addable:
  "addable p r \<Longrightarrow> AddPeer mk now p r =
     save (rebuildKDTree mk (r\<lparr>peers := AList.update (ID p) (added_peer now p) (peers r)\<rparr>))"
  "\<not> addable p r \<Longrightarrow> \<exists>e. AddPeer mk now p r = (Fail e, r)"
proof -
  show "AddPeer mk now p r =
      save (rebuildKDTree mk (r\<lparr>peers := AList.update (ID p) (added_peer now p) (peers r)\<rparr>))"
    if "addable p r"
    using that by (simp add: AddPeer_def addable_def added_peer_def Let_def)
  have "validatePeerName n \<noteq> Panic q" for n q by (simp add: validatePeerName_def)
  then show "\<exists>e. AddPeer mk now p r = (Fail e, r)" if "\<not> addable p r"
    using that by (auto simp: AddPeer_def addable_def split: result.splits)
qed

text \<open>How one call changes the peer map.\<close>

lemma registry_exec_cases [case_names same added updated changed removed]:
  obtains "peers (registry_exec mk (now, op) r) = peers r"
  | p where "op = OpAdd p" "addable p r"
      "peers (registry_exec mk (now, op) r) = AList.update (ID p) (added_peer now p) (peers r)"
  | p where "op = OpUpdate p" "map_of (peers r) (ID p) \<noteq> None"
      "peers (registry_exec mk (now, op) r) = AList.update (ID p) p (peers r)"
  | i f p where "peer_change now op = Some (i, f)" "map_of (peers r) i = Some p"
      "peers (registry_exec mk (now, op) r) = AList.update i (f p) (peers r)"
  | i where "op = OpRemove i" "peers (registry_exec mk (now, op) r) = AList.delete i (peers r)"
proof (cases "peer_change now op")
  case None
  show thesis
  proof (cases op)
    case (OpAdd p)
    then show thesis
      using AddPeer_addable [of p r mk now] that(1,2) by (cases "addable p r") auto
  next
    case (OpUpdate p)
    then show thesis using that(1,3) by (cases "map_of (peers r) (ID p) = None") (auto simp: UpdatePeer_def)
  next
    case (OpRemove i)
    then show thesis using that(1,5) by (cases "map_of (peers r) i = None") (auto simp: RemovePeer_def)
  qed (use None that(1) in \<open>auto simp: SetAuthMode_def\<close>)
next
  case (Some c)
  then obtain i f where c: "peer_change now op = Some (i, f)" by (cases c) auto
  then show thesis using peers_exec_change [OF c, of mk r] that(1,4) by (cases "map_of (peers r) i") auto
qed

section \<open>Invariants of the registry\<close>

definition registry_wf :: "'kd PeerRegistry \<Rightarrow> bool" where
  "registry_wf r \<longleftrightarrow> distinct (map fst (peers r)) \<and> (\<forall>(i, p) \<in> set (peers r). ID p = i \<and> i \<noteq> [])"

definition score_ok :: "Peer \<Rightarrow> bool" where
  "score_ok p \<longleftrightarrow> (\<exists>q. Score p = Fin q \<and> 0 \<le> q \<and> q \<le> 100)"

definition scores_ok :: "'kd PeerRegistry \<Rightarrow> bool" where
  "scores_ok r \<longleftrightarrow> (\<forall>p \<in> set (map snd (peers r)). score_ok p)"

text \<open>The scores the caller supplies: in range for a whole peer, any number but NaN for \<^verbatim>\<open>UpdateScore\<close>.\<close>

fun supplies_score_ok :: "registry_op \<Rightarrow> bool" where
  "supplies_score_ok (OpAdd p) = score_ok p"
| "supplies_score_ok (OpUpdate p) = score_ok p"
| "supplies_score_ok (OpScore i s) \<longleftrightarrow> s \<noteq> NaN"
| "supplies_score_ok _ = True"

lemma delete_facts:
  "set (AList.delete i al) \<subseteq> set al" "distinct (map fst al) \<Longrightarrow> distinct (map fst (AList.delete i al))"
  by (auto simp: AList.delete_eq) (simp add: distinct_map_filter)

lemma registry_wf_exec:
  assumes "registry_wf r"
  shows "registry_wf (registry_exec mk (now, op) r)"
proof -
  have upd: "registry_wf r'" if "peers r' = AList.update i p (peers r)" "ID p = i" "i \<noteq> []" for r' :: "'a PeerRegistry" and i p
    using that assms set_update_subset [of i p "peers r"]
    unfolding registry_wf_def by (fastforce simp: distinct_update)
  show ?thesis
  proof (cases rule: registry_exec_cases [where mk = mk and now = now and op = op and r = r])
    case (updated p)
    then obtain q where "(ID p, q) \<in> set (peers r)" by (auto dest: map_of_SomeD)
    with assms have "ID p \<noteq> []" by (auto simp: registry_wf_def)
    with upd updated show ?thesis by blast
  next
    case (changed i f p)
    with assms have "ID p = i \<and> i \<noteq> []" by (auto simp: registry_wf_def dest: map_of_SomeD)
    with upd [OF changed(3)] ID_peer_change [OF changed(1)] show ?thesis by auto
  next
    case (removed i)
    with assms delete_facts [where i = i and al = "peers r"] show ?thesis by (fastforce simp: registry_wf_def)
  qed (use assms upd in \<open>auto simp: registry_wf_def addable_def\<close>)
qed

lemma score_arith:
  assumes "0 \<le> q" and "q \<le> 100"
  shows "\<exists>s. go_min (f64_add (Fin q) (Fin 1)) (Fin 100) = Fin s \<and> 0 \<le> s \<and> s \<le> 100"
    and "0 \<le> d \<Longrightarrow> \<exists>s. go_max (f64_sub (Fin q) (Fin d)) (Fin 0) = Fin s \<and> 0 \<le> s \<and> s \<le> 100"
proof -
  obtain s where "round64 (q + 1) = Fin s" "0 \<le> s"
    using round64_range [of "q + 1" 101] assms by auto
  then show "\<exists>s. go_min (f64_add (Fin q) (Fin 1)) (Fin 100) = Fin s \<and> 0 \<le> s \<and> s \<le> 100"
    by (auto simp: go_min_def)
  assume "0 \<le> d"
  then have "q - d \<le> of_int 100" using assms by simp
  from round64_le [OF this] show "\<exists>s. go_max (f64_sub (Fin q) (Fin d)) (Fin 0) = Fin s \<and> 0 \<le> s \<and> s \<le> 100"
    by (auto simp: go_max_def f64_sub_def)
qed

lemma score_clamp:
  "s \<noteq> NaN \<Longrightarrow> \<exists>q. go_max (Fin 0) (go_min s (Fin 100)) = Fin q \<and> 0 \<le> q \<and> q \<le> 100"
  by (cases s) (auto simp: go_max_def go_min_def)

lemma score_ok_change:
  assumes "peer_change now op = Some (i, f)" and "supplies_score_ok op" and "score_ok p"
  shows "score_ok (f p)"
proof -
  obtain q where q: "Score p = Fin q" "0 \<le> q" "q \<le> 100" using assms(3) by (auto simp: score_ok_def)
  note arith = score_arith(1) [OF q(2,3)] score_arith(2) [OF q(2,3), of 5] score_arith(2) [OF q(2,3), of 3]
  show ?thesis
    using assms(1,2) q arith by (cases op) (auto simp: score_ok_def score_clamp)
qed

lemma scores_ok_exec:
  assumes "scores_ok r" and "supplies_score_ok op"
  shows "scores_ok (registry_exec mk (now, op) r)"
proof -
  have upd: "scores_ok r'" if "peers r' = AList.update i p (peers r)" "score_ok p" for r' :: "'a PeerRegistry" and i p
    using that assms(1) set_update_subset [of i p "peers r"] unfolding scores_ok_def by fastforce
  show ?thesis
  proof (cases rule: registry_exec_cases [where mk = mk and now = now and op = op and r = r])
    case (changed i f p)
    then have "score_ok p" using assms(1) by (force simp: scores_ok_def dest: map_of_SomeD)
    with upd [OF changed(3)] score_ok_change [OF changed(1) assms(2)] show ?thesis by simp
  next
    case (added p)
    with assms(2) have "score_ok (added_peer now p)" by (auto simp: score_ok_def)
    with upd [OF added(3)] show ?thesis by simp
  next
    case (removed i)
    with assms(1) delete_facts(1) [of i "peers r"] show ?thesis by (fastforce simp: scores_ok_def)
  qed (use assms upd in \<open>auto simp: scores_ok_def\<close>)
qed

text \<open>
  C21. Registry invariant: after any sequence of calls on a new registry, whose callers supply
  scores in range, every peer is stored once, under its own non-empty identifier, and every
  reliability score is a number between 0 and 100, rounding included.
\<close>

theorem registry_invariant:
  assumes "list_all (supplies_score_ok \<circ> snd) ops"
  shows "registry_wf (registry_run mk ops empty_registry) \<and> scores_ok (registry_run mk ops empty_registry)"
proof -
  have "registry_wf (fold (registry_exec mk) ops r) \<and> scores_ok (fold (registry_exec mk) ops r)"
    if "registry_wf r" "scores_ok r" for r :: "'a PeerRegistry"
    using that assms
    by (induction ops arbitrary: r) (auto simp: registry_wf_exec scores_ok_exec)
  moreover have "registry_wf (empty_registry :: 'a PeerRegistry)" "scores_ok (empty_registry :: 'a PeerRegistry)"
    by (simp_all add: registry_wf_def scores_ok_def empty_registry_def)
  ultimately show ?thesis by (simp add: registry_run_def)
qed

definition example_peer :: Peer where
  "example_peer =
     \<lparr>ID = ''p1'', Name = ''node-1'', PublicKey = ''k'', Address = ''h:1'', Role = ''worker'',
      AddedAt = None, LastSeen = None, Latitude = Fin 0, Longitude = Fin 0, PingMS = Fin 0, Hops = 0,
      GeoKM = Fin 0, Score = Fin 0, Connected = False\<rparr>"

theorem registry_invariant_witness:
  "registry_wf (registry_run (\<lambda>_. None :: unit option) [(1, OpAdd example_peer), (2, OpFailure ''p1'')] empty_registry)
   \<and> scores_ok (registry_run (\<lambda>_. None :: unit option) [(1, OpAdd example_peer), (2, OpFailure ''p1'')] empty_registry)"
  by (rule registry_invariant) (simp add: score_ok_def example_peer_def)

text \<open>
  Peer names: a name is accepted exactly when it is empty, or has 1 to 64 characters, starts
  and ends with a letter or digit, and otherwise contains only letters, digits, hyphens, underscores
  and spaces.
\<close>

theorem validatePeerName_iff:
  "validatePeerName name = Ok () \<longleftrightarrow>
     name = [] \<or> (length name \<le> 64 \<and> alnum (hd name) \<and> alnum (last name) \<and> list_all name_char name)"
proof (cases name)
  case (Cons c cs)
  show ?thesis
  proof (cases cs rule: rev_cases)
    case Nil
    with Cons show ?thesis by (auto simp: validatePeerName_def peerNameRegex_def PeerNameMaxLength_def name_char_def)
  next
    case (snoc ds d)
    with Cons show ?thesis
      by (auto simp: validatePeerName_def peerNameRegex_def PeerNameMaxLength_def name_char_def)
  qed
qed (simp add: validatePeerName_def)

text \<open>
  Adding a peer: it succeeds exactly for a non-empty unused identifier and a valid name. Then
  the peer is found under its identifier, with the time and the neutral score filled in if they were
  missing, and every other lookup is unchanged; otherwise the registry is untouched.
\<close>

theorem AddPeer_outcome:
  "(if ID p \<noteq> [] \<and> validatePeerName (Name p) = Ok () \<and> GetPeer (ID p) r = None
    then \<exists>r'. AddPeer mk now p r = (Ok (), r') \<and> dirty r' \<and> saveTimer r'
           \<and> (\<forall>j. GetPeer j r' = (if j = ID p then Some (added_peer now p) else GetPeer j r))
    else \<exists>e. AddPeer mk now p r = (Fail e, r))"
proof (cases "addable p r")
  case True
  let ?r = "rebuildKDTree mk (r\<lparr>peers := AList.update (ID p) (added_peer now p) (peers r)\<rparr>)"
  have "AddPeer mk now p r = (Ok (), snd (save ?r))"
    unfolding AddPeer_addable(1) [OF True] by (simp add: prod_eq_iff)
  with True show ?thesis
    by (auto simp: addable_def GetPeer_def update_conv')
next
  case False
  with AddPeer_addable(2) [OF False, of mk now] show ?thesis by (auto simp: addable_def GetPeer_def)
qed

text \<open>
  Score ranking: \<^verbatim>\<open>GetPeersByScore\<close> lists every registered peer once, and no peer comes before
  one with a higher score, when no score is NaN.
\<close>

theorem GetPeersByScore_sorted:
  assumes "\<forall>p \<in> set (map snd (peers r)). Score p \<noteq> NaN"
  shows "mset (GetPeersByScore r) = mset (map snd (peers r))
       \<and> sorted_wrt (\<lambda>a b. \<not> f64_less (Score a) (Score b)) (GetPeersByScore r)"
proof -
  have "sorted_wrt by_score.in_order (GetPeersByScore r)"
    unfolding GetPeersByScore_def using assms by (intro by_score.SortFunc_sorted) (simp add: list_all_iff)
  moreover have "by_score.in_order a b \<Longrightarrow> \<not> f64_less (Score a) (Score b)" for a b
    using f64_less_asym [of "Score a" "Score b"] by (auto simp: by_score.in_order_def cmp_score_desc_def split: if_splits)
  ultimately show ?thesis
    using sorted_wrt_mono_rel [of "GetPeersByScore r" by_score.in_order] by (auto simp: GetPeersByScore_def mset_SortFunc)
qed

theorem GetPeersByScore_sorted_witness:
  "mset (GetPeersByScore (empty_registry\<lparr>peers := [(''a'', example_peer), (''b'', example_peer\<lparr>Score := Fin 9\<rparr>)]\<rparr> :: unit PeerRegistry))
     = mset (map snd (peers (empty_registry\<lparr>peers := [(''a'', example_peer), (''b'', example_peer\<lparr>Score := Fin 9\<rparr>)]\<rparr> :: unit PeerRegistry)))
   \<and> sorted_wrt (\<lambda>a b. \<not> f64_less (Score a) (Score b))
       (GetPeersByScore (empty_registry\<lparr>peers := [(''a'', example_peer), (''b'', example_peer\<lparr>Score := Fin 9\<rparr>)]\<rparr> :: unit PeerRegistry))"
  by (rule GetPeersByScore_sorted) (simp add: example_peer_def)

definition locatable :: "Peer \<Rightarrow> bool" where
  "locatable p \<longleftrightarrow> (\<exists>x y. Latitude p = Fin x \<and> Longitude p = Fin y) \<and> GeoKM p \<noteq> NaN"

lemma nearby_score_number:
  assumes "locatable p"
  shows "nearby_score (Fin lat) (Fin lon) hops p \<noteq> NaN"
proof -
  obtain a b where ab: "Latitude p = Fin a" "Longitude p = Fin b" "GeoKM p \<noteq> NaN"
    using assms by (auto simp: locatable_def)
  have "f64_sub (Fin x) (Fin y) \<noteq> NaN" for x y by (simp add: f64_sub_def)
  moreover have "f64_of_int k \<noteq> NaN" for k by (simp add: f64_of_int_def)
  ultimately have "f64_nonneg (nearby_score (Fin lat) (Fin lon) hops p)"
    unfolding nearby_score_def Let_def ab using ab(3)
    by (auto intro!: f64_nonneg_add f64_nonneg_square simp del: f64_add.simps f64_mul.simps)
  then show ?thesis by (auto simp: f64_nonneg_def)
qed

text \<open>
  C38. Nearby search: with finite coordinates \<^verbatim>\<open>FindNearby\<close> returns the requested number of
  registered peers (or all of them), and no peer it leaves out is nearer than one it returns.
\<close>

theorem FindNearby_nearest:
  assumes "0 < m" and "\<forall>p \<in> set (map snd (peers r)). locatable p" and "lat = Fin a" and "lon = Fin b"
  shows "length (FindNearby lat lon hops m r) = min (nat m) (length (peers r))
       \<and> (\<exists>others. mset (FindNearby lat lon hops m r) + mset others = mset (map snd (peers r))
           \<and> (\<forall>p \<in> set (FindNearby lat lon hops m r). \<forall>q \<in> set others.
                \<not> f64_less (nearby_score lat lon hops q) (nearby_score lat lon hops p)))"
proof (cases "peers r = []")
  case False
  have number: "nearby_score lat lon hops p \<noteq> NaN" if "p \<in> set (map snd (peers r))" for p
    using nearby_score_number assms(2-4) that by blast
  let ?d = "nearby_score lat lon hops"
  let ?xs = "map (\<lambda>(_, p). (p, ?d p)) (peers r)" let ?ys = "SortFunc cmp_scored ?xs"
  let ?n = "min (nat m) (length ?ys)"
  have mset: "mset ?ys = mset ?xs" by (rule mset_SortFunc)
  then have len: "length ?ys = length (peers r)" using mset_eq_length by fastforce
  have set: "set ?ys = set ?xs" using mset by (rule mset_eq_setD)
  have find: "FindNearby lat lon hops m r = map fst (take ?n ?ys)"
    using assms(1) False by (simp add: FindNearby_def Let_def)
  have sorted: "sorted_wrt by_distance.in_order ?ys"
    using number by (intro by_distance.SortFunc_sorted) (force simp: list_all_iff)
  have d: "snd x = ?d (fst x)" if "x \<in> set ?ys" for x using that set by auto
  have "\<not> f64_less (?d (fst y)) (?d (fst x))" if x: "x \<in> set (take ?n ?ys)" and y: "y \<in> set (drop ?n ?ys)" for x y
    using sorted_wrt_take_drop [OF sorted x y] d [OF in_set_takeD [OF x]] d [OF in_set_dropD [OF y]]
    by (auto simp: by_distance.in_order_def cmp_scored_def split: if_splits)
  then have "\<forall>p \<in> set (map fst (take ?n ?ys)). \<forall>q \<in> set (map fst (drop ?n ?ys)). \<not> f64_less (?d q) (?d p)"
    by auto
  moreover have "mset (map fst (take ?n ?ys)) + mset (map fst (drop ?n ?ys)) = mset (map snd (peers r))"
  proof -
    have "mset (map fst (take ?n ?ys)) + mset (map fst (drop ?n ?ys)) = mset (map fst ?ys)"
      unfolding mset_append [symmetric] map_append [symmetric] by (simp only: append_take_drop_id)
    also have "\<dots> = mset (map fst ?xs)" unfolding mset_map mset ..
    also have "map fst ?xs = map snd (peers r)" by (simp add: comp_def split_def)
    finally show ?thesis .
  qed
  moreover have "length (map fst (take ?n ?ys)) = min (nat m) (length (peers r))" by (simp add: len)
  ultimately show ?thesis unfolding find by blast
qed (simp add: FindNearby_def)

definition example_registry :: "unit PeerRegistry" where
  "example_registry = empty_registry\<lparr>peers := [(''p1'', example_peer), (''p2'', example_peer\<lparr>ID := ''p2'', Hops := 3\<rparr>)]\<rparr>"

theorem FindNearby_nearest_witness:
  "length (FindNearby (Fin 0) (Fin 0) 3 1 example_registry) = min (nat 1) (length (peers example_registry))
   \<and> (\<exists>others. mset (FindNearby (Fin 0) (Fin 0) 3 1 example_registry) + mset others = mset (map snd (peers example_registry))
       \<and> (\<forall>p \<in> set (FindNearby (Fin 0) (Fin 0) 3 1 example_registry). \<forall>q \<in> set others.
            \<not> f64_less (nearby_score (Fin 0) (Fin 0) 3 q) (nearby_score (Fin 0) (Fin 0) 3 p)))"
  by (rule FindNearby_nearest)
    (simp_all add: locatable_def example_registry_def example_peer_def)

section \<open>The KD-tree follows the peers\<close>

definition points_of :: "'kd PeerRegistry \<Rightarrow> KDPoint list" where
  "points_of r = map (peer_point \<circ> snd) (peers r)"

definition kd_synced :: "(KDPoint list \<Rightarrow> 'kd option) \<Rightarrow> 'kd PeerRegistry \<Rightarrow> bool" where
  "kd_synced mk r \<longleftrightarrow> kdTree r = (if peers r = [] then None else mk (points_of r))"

text \<open>What is relied on of the tree's constructor: it succeeds on points with distinct identifiers.\<close>

definition builds :: "(KDPoint list \<Rightarrow> 'kd option) \<Rightarrow> bool" where
  "builds mk \<longleftrightarrow> (\<forall>pts. pts \<noteq> [] \<and> distinct (map kpID pts) \<longrightarrow> mk pts \<noteq> None)"

lemma registry_wf_ids: "registry_wf r \<Longrightarrow> map (ID \<circ> snd) (peers r) = map fst (peers r)"
  by (auto simp: registry_wf_def)

lemma kd_synced_rebuild:
  assumes "builds mk" and "registry_wf (rebuildKDTree mk r)"
  shows "kd_synced mk (rebuildKDTree mk r)"
proof -
  have "map kpID (points_of r) = map (ID \<circ> snd) (peers r)" by (simp add: points_of_def peer_point_def)
  also have "\<dots> = map fst (peers r)" using registry_wf_ids [OF assms(2)] by simp
  finally have "distinct (map kpID (points_of r))" using assms(2) by (simp add: registry_wf_def)
  then have "peers r \<noteq> [] \<Longrightarrow> mk (points_of r) \<noteq> None"
    using assms(1) unfolding builds_def by (simp add: points_of_def)
  then show ?thesis
    by (auto simp: kd_synced_def rebuildKDTree_def points_of_def split: option.splits)
qed

lemma points_update_same:
  assumes "map_of ps i = Some p" and "peer_point p' = peer_point p"
  shows "map (peer_point \<circ> snd) (AList.update i p' ps) = map (peer_point \<circ> snd) ps"
  using assms by (induction ps) auto

lemma kd_synced_exec:
  assumes "builds mk" and "registry_wf r" and "kd_synced mk r"
  shows "kd_synced mk (registry_exec mk (now, op) r)"
proof -
  have saved: "kd_synced mk (snd (save r')) \<longleftrightarrow> kd_synced mk r'" for r'
    by (simp add: kd_synced_def points_of_def)
  have wf: "registry_wf (registry_exec mk (now, op) r)" using assms(2) by (rule registry_wf_exec)
  have wf_saved: "registry_wf (snd (save r')) \<longleftrightarrow> registry_wf r'" for r' :: "'a PeerRegistry"
    by (simp add: registry_wf_def)
  show ?thesis
  proof (cases op)
    case (OpAdd p)
    then show ?thesis
      using AddPeer_addable [of p r mk now] wf assms kd_synced_rebuild [OF assms(1)]
      by (cases "addable p r") (auto simp: saved wf_saved)
  next
    case (OpConnected i c)
    then show ?thesis
      using assms(3) points_update_same [of "peers r" i]
      by (cases "map_of (peers r) i") (auto simp: SetConnected_def Let_def saved kd_synced_def points_of_def peer_point_def update_nonempty)
  next
    case (OpSeen i)
    then show ?thesis
      using assms(3) points_update_same [of "peers r" i]
      by (cases "map_of (peers r) i") (auto simp: MarkSeen_def saved kd_synced_def points_of_def peer_point_def update_nonempty)
  qed (use wf assms kd_synced_rebuild [OF assms(1)] in
      \<open>auto simp: registry_ops Let_def saved wf_saved kd_synced_def points_of_def split: option.splits if_splits\<close>)
qed

text \<open>What is relied on of a nearest-neighbour query: it returns the value of a nearest point.\<close>

definition finds_nearest ::
  "(f64 list \<Rightarrow> f64 list \<Rightarrow> rat) \<Rightarrow> (KDPoint list \<Rightarrow> 'kd option) \<Rightarrow> ('kd \<Rightarrow> f64 list \<Rightarrow> string option) \<Rightarrow> bool" where
  "finds_nearest metric mk nearest \<longleftrightarrow>
     (\<forall>pts t target. pts \<noteq> [] \<and> mk pts = Some t \<longrightarrow>
        (\<exists>pt \<in> set pts. nearest t target = Some (kpValue pt)
           \<and> (\<forall>pt' \<in> set pts. metric (kpCoords pt) target \<le> metric (kpCoords pt') target)))"

lemma registry_run_wf_synced:
  assumes "builds mk"
  shows "registry_wf (registry_run mk ops empty_registry) \<and> kd_synced mk (registry_run mk ops empty_registry)"
proof -
  have "registry_wf (fold (registry_exec mk) ops r) \<and> kd_synced mk (fold (registry_exec mk) ops r)"
    if "registry_wf r" "kd_synced mk r" for r
    using that
  proof (induction ops arbitrary: r)
    case (Cons o1 ops)
    from Cons show ?case
      by (cases o1) (simp add: registry_wf_exec kd_synced_exec [OF assms])
  qed simp
  moreover have "registry_wf (empty_registry :: 'a PeerRegistry)" "kd_synced mk empty_registry"
    by (simp_all add: registry_wf_def kd_synced_def empty_registry_def)
  ultimately show ?thesis by (simp add: registry_run_def)
qed

text \<open>
  C28. Optimal peer: after any sequence of calls the tree is the one built from the current peers,
  although connection and last-seen updates do not rebuild it. So whenever a peer is registered,
  \<^verbatim>\<open>SelectOptimalPeer\<close> returns a registered peer, and none is nearer to the ideal point.
\<close>

theorem SelectOptimalPeer_optimal:
  assumes "builds mk" and "finds_nearest metric mk nearest"
    and "peers (registry_run mk ops empty_registry) \<noteq> []"
  shows "\<exists>i p. SelectOptimalPeer nearest (registry_run mk ops empty_registry) = Some p
     \<and> GetPeer i (registry_run mk ops empty_registry) = Some p
     \<and> (\<forall>q \<in> set (ListPeers (registry_run mk ops empty_registry)).
          metric (kpCoords (peer_point p)) [Fin 0, Fin 0, Fin 0, Fin 0]
          \<le> metric (kpCoords (peer_point q)) [Fin 0, Fin 0, Fin 0, Fin 0])"
proof -
  let ?r = "registry_run mk ops empty_registry" and ?o = "[Fin 0, Fin 0, Fin 0, Fin 0]"
  have wf: "registry_wf ?r" and sync: "kd_synced mk ?r" using registry_run_wf_synced [OF assms(1)] by auto
  have pts: "points_of ?r \<noteq> []" using assms(3) by (simp add: points_of_def)
  have "map kpID (points_of ?r) = map fst (peers ?r)"
    using registry_wf_ids [OF wf] by (simp add: points_of_def peer_point_def comp_def)
  then have "distinct (map kpID (points_of ?r))" using wf by (simp add: registry_wf_def)
  with assms(1) pts obtain t where t: "mk (points_of ?r) = Some t" unfolding builds_def by auto
  with assms(2) pts obtain pt where pt: "pt \<in> set (points_of ?r)" "nearest t ?o = Some (kpValue pt)"
    "\<forall>pt' \<in> set (points_of ?r). metric (kpCoords pt) ?o \<le> metric (kpCoords pt') ?o"
    unfolding finds_nearest_def by blast
  then obtain i p where ip: "(i, p) \<in> set (peers ?r)" "pt = peer_point p" by (auto simp: points_of_def)
  with wf have "map_of (peers ?r) i = Some p" and "kpValue pt = i"
    by (auto simp: registry_wf_def peer_point_def)
  moreover have "kdTree ?r = Some t" using sync assms(3) t by (simp add: kd_synced_def)
  ultimately show ?thesis
    using assms(3) pt(2,3) ip(2)
    by (intro exI [of _ i] exI [of _ p]) (auto simp: SelectOptimalPeer_def GetPeer_def ListPeers_def points_of_def)
qed

text \<open>A linear scan is an instance of the query interface.\<close>

definition coord_dist :: "f64 list \<Rightarrow> f64 list \<Rightarrow> rat" where
  "coord_dist c target = (case hd c of Fin q \<Rightarrow> \<bar>q\<bar> | _ \<Rightarrow> 0)"

definition scan_nearest :: "KDPoint list \<Rightarrow> f64 list \<Rightarrow> string option" where
  "scan_nearest pts target =
     (case sort_key (\<lambda>pt. coord_dist (kpCoords pt) target) pts of [] \<Rightarrow> None | pt # _ \<Rightarrow> Some (kpValue pt))"

lemma scan_finds_nearest: "finds_nearest coord_dist Some scan_nearest"
  unfolding finds_nearest_def
proof (intro allI impI, elim conjE)
  fix pts t :: "KDPoint list" and target
  assume pts: "pts \<noteq> []" and "Some pts = Some t"
  let ?d = "\<lambda>pt. coord_dist (kpCoords pt) target"
  obtain pt rest where s: "sort_key ?d pts = pt # rest"
    using pts by (metis list.exhaust length_0_conv length_sort)
  then have "sorted (map ?d (pt # rest))" and set: "set (pt # rest) = set pts"
    by (metis sorted_sort_key, metis set_sort)
  then have "\<forall>pt' \<in> set pts. ?d pt \<le> ?d pt'" by auto
  moreover have "pt \<in> set pts" using set by auto
  ultimately show "\<exists>pt \<in> set pts. scan_nearest t target = Some (kpValue pt) \<and> (\<forall>pt' \<in> set pts. ?d pt \<le> ?d pt')"
    using s \<open>Some pts = Some t\<close> by (auto simp: scan_nearest_def)
qed

theorem SelectOptimalPeer_optimal_witness:
  "\<exists>i p. SelectOptimalPeer scan_nearest (registry_run Some [(1, OpAdd example_peer)] empty_registry) = Some p
     \<and> GetPeer i (registry_run Some [(1, OpAdd example_peer)] empty_registry) = Some p
     \<and> (\<forall>q \<in> set (ListPeers (registry_run Some [(1, OpAdd example_peer)] empty_registry)).
          coord_dist (kpCoords (peer_point p)) [Fin 0, Fin 0, Fin 0, Fin 0]
          \<le> coord_dist (kpCoords (peer_point q)) [Fin 0, Fin 0, Fin 0, Fin 0])"
proof (rule SelectOptimalPeer_optimal)
  show "builds Some" by (simp add: builds_def)
  show "finds_nearest coord_dist Some scan_nearest" by (rule scan_finds_nearest)
  have "addable example_peer (empty_registry :: KDPoint list PeerRegistry)"
    by (simp add: addable_def example_peer_def empty_registry_def validatePeerName_def peerNameRegex_def
        PeerNameMaxLength_def alnum_def name_char_def)
  then show "peers (registry_run Some [(1, OpAdd example_peer)] empty_registry) \<noteq> []"
    by (simp add: registry_run_def AddPeer_addable(1) update_nonempty)
qed

section \<open>The interface other components use\<close>

text \<open>
  What the transport relies on: looking a peer up, and recording whether it is connected.
\<close>

locale peer_directory =
  fixes get_peer :: "string \<Rightarrow> 'r \<Rightarrow> Peer option"
    and set_connected :: "instant \<Rightarrow> string \<Rightarrow> bool \<Rightarrow> 'r \<Rightarrow> 'r"
  assumes get_set_connected:
    "get_peer j (set_connected now i c r) =
       (if j = i then map_option (\<lambda>p. if c then p\<lparr>Connected := c, LastSeen := Some now\<rparr> else p\<lparr>Connected := c\<rparr>) (get_peer i r)
        else get_peer j r)"
begin

definition shows_connected :: "string \<Rightarrow> 'r \<Rightarrow> bool" where
  "shows_connected i r \<longleftrightarrow> (\<exists>p. get_peer i r = Some p \<and> Connected p)"

lemma known_set_connected: "get_peer j (set_connected now i c r) = None \<longleftrightarrow> get_peer j r = None"
  by (simp add: get_set_connected)

lemma shows_connected_set:
  "shows_connected j (set_connected now i c r) \<longleftrightarrow>
     (if j = i then c \<and> get_peer i r \<noteq> None else shows_connected j r)"
  by (cases c; cases "get_peer i r") (auto simp: shows_connected_def get_set_connected)

end

interpretation dir: peer_directory GetPeer SetConnected
  by unfold_locales
    (auto simp: GetPeer_def SetConnected_def Let_def update_conv' split: option.splits)

end
