(* ===== verification/Messages.thy ===== *)
theory Messages
  imports P2P_Prelude Float64
begin

text \<open>
  Messages between nodes: \<^verbatim>\<open>src/go/node/message.go\<close> (message and payload types, construction,
  JSON framing), \<^verbatim>\<open>src/go/node/protocol.go\<close> (validation of responses), \<^verbatim>\<open>MarshalJSON\<close> of
  \<^verbatim>\<open>src/go/node/bufpool.go\<close> and the identity record of \<^verbatim>\<open>src/go/node/identity.go\<close>.

  The JSON library is outside the repository: a \<open>json\<close> record holds its functions and is an argument
  of every definition that uses it; \<open>'any\<close> is the type of its untyped values. UUIDs and the clock
  are arguments too. A nil slice or pointer is \<open>None\<close>.
\<close>

section \<open>Identity, roles, versions\<close>

definition RoleController :: string where "RoleController = ''controller''"
definition RoleWorker :: string where "RoleWorker = ''worker''"
definition RoleDual :: string where "RoleDual = ''dual''"

record NodeIdentity =
  niID :: string
  niName :: string
  niPublicKey :: string
  niCreatedAt :: "instant option"
  niRole :: string

definition ProtocolVersion :: string where "ProtocolVersion = ''1.0''"
definition MinProtocolVersion :: string where "MinProtocolVersion = ''1.0''"
definition SupportedProtocolVersions :: "string list" where "SupportedProtocolVersions = [''1.0'']"

definition IsProtocolVersionSupported :: "string \<Rightarrow> bool" where
  "IsProtocolVersionSupported version \<longleftrightarrow> version \<in> set SupportedProtocolVersions"

section \<open>Payloads\<close>

record HandshakePayload =
  hsIdentity :: NodeIdentity
  hsChallenge :: bytes
  hsVersion :: string

record HandshakeAckPayload =
  haIdentity :: NodeIdentity
  haChallengeResponse :: bytes
  haAccepted :: bool
  haReason :: string

record PingPayload =
  piSentAt :: int

record PongPayload =
  poSentAt :: int
  poReceivedAt :: int

record StartMinerPayload =
  smMinerType :: string
  smProfileID :: string
  smConfig :: "bytes option"

record StopMinerPayload =
  stMinerName :: string

record MinerAckPayload =
  maSuccess :: bool
  maName :: string
  maMinerName :: string
  maError :: string

record MinerStatsItem =
  msName :: string
  msType :: string
  msIsRunning :: bool
  msHashrate :: f64
  msSharedCount :: int
  msInvalidCount :: int
  msTemperature :: f64
  msUptime :: int
  msShares :: int
  msRejected :: int
  msPool :: string
  msAlgorithm :: string
  msCPUThreads :: int

record StatsPayload =
  spNodeID :: string
  spNodeName :: string
  spMiners :: "MinerStatsItem list"
  spUptime :: int

record GetLogsPayload =
  glMinerName :: string
  glLines :: int
  glSince :: int

record LogsPayload =
  lpMinerName :: string
  lpLines :: "string list"
  lpHasMore :: bool

record Bundle =
  bType :: string
  bName :: string
  bData :: bytes
  bChecksum :: string

record DeployPayload =
  dpBundle :: "Bundle option"
  dpBundleType :: string
  dpData :: bytes
  dpChecksum :: string
  dpName :: string

record DeployAckPayload =
  daSuccess :: bool
  daName :: string
  daError :: string

record ErrorPayload =
  epCode :: int
  epMessage :: string
  epDetails :: string

record DisconnectPayload =
  dcReason :: string
  dcCode :: int

text \<open>The event of the content bus, \<^verbatim>\<open>src/go/pkg/contentbus/controller.go\<close>.\<close>

record wireEvent =
  weTopic :: string
  wePayload :: "bytes option"

text \<open>A payload value of any of these types; \<open>kind\<close> names the type an unmarshal call targets.\<close>

datatype Payload =
    PHandshake HandshakePayload
  | PHandshakeAck HandshakeAckPayload
  | PPing PingPayload
  | PPong PongPayload
  | PStartMiner StartMinerPayload
  | PStopMiner StopMinerPayload
  | PMinerAck MinerAckPayload
  | PStats StatsPayload
  | PGetLogs GetLogsPayload
  | PLogs LogsPayload
  | PDeploy DeployPayload
  | PDeployAck DeployAckPayload
  | PError ErrorPayload
  | PDisconnect DisconnectPayload
  | PWireEvent wireEvent

datatype kind = KHandshake | KHandshakeAck | KPing | KPong | KStartMiner | KStopMiner | KMinerAck
  | KStats | KGetLogs | KLogs | KDeploy | KDeployAck | KError | KDisconnect | KWireEvent

fun kind_of :: "Payload \<Rightarrow> kind" where
  "kind_of (PHandshake _) = KHandshake"
| "kind_of (PHandshakeAck _) = KHandshakeAck"
| "kind_of (PPing _) = KPing"
| "kind_of (PPong _) = KPong"
| "kind_of (PStartMiner _) = KStartMiner"
| "kind_of (PStopMiner _) = KStopMiner"
| "kind_of (PMinerAck _) = KMinerAck"
| "kind_of (PStats _) = KStats"
| "kind_of (PGetLogs _) = KGetLogs"
| "kind_of (PLogs _) = KLogs"
| "kind_of (PDeploy _) = KDeploy"
| "kind_of (PDeployAck _) = KDeployAck"
| "kind_of (PError _) = KError"
| "kind_of (PDisconnect _) = KDisconnect"
| "kind_of (PWireEvent _) = KWireEvent"

text \<open>The zero value of each type, which a target keeps when the message has no payload.\<close>

definition zero_identity :: NodeIdentity where
  "zero_identity = \<lparr>niID = [], niName = [], niPublicKey = [], niCreatedAt = None, niRole = []\<rparr>"

fun zero_of :: "kind \<Rightarrow> Payload" where
  "zero_of KHandshake = PHandshake \<lparr>hsIdentity = zero_identity, hsChallenge = [], hsVersion = []\<rparr>"
| "zero_of KHandshakeAck =
     PHandshakeAck \<lparr>haIdentity = zero_identity, haChallengeResponse = [], haAccepted = False, haReason = []\<rparr>"
| "zero_of KPing = PPing \<lparr>piSentAt = 0\<rparr>"
| "zero_of KPong = PPong \<lparr>poSentAt = 0, poReceivedAt = 0\<rparr>"
| "zero_of KStartMiner = PStartMiner \<lparr>smMinerType = [], smProfileID = [], smConfig = None\<rparr>"
| "zero_of KStopMiner = PStopMiner \<lparr>stMinerName = []\<rparr>"
| "zero_of KMinerAck = PMinerAck \<lparr>maSuccess = False, maName = [], maMinerName = [], maError = []\<rparr>"
| "zero_of KStats = PStats \<lparr>spNodeID = [], spNodeName = [], spMiners = [], spUptime = 0\<rparr>"
| "zero_of KGetLogs = PGetLogs \<lparr>glMinerName = [], glLines = 0, glSince = 0\<rparr>"
| "zero_of KLogs = PLogs \<lparr>lpMinerName = [], lpLines = [], lpHasMore = False\<rparr>"
| "zero_of KDeploy = PDeploy \<lparr>dpBundle = None, dpBundleType = [], dpData = [], dpChecksum = [], dpName = []\<rparr>"
| "zero_of KDeployAck = PDeployAck \<lparr>daSuccess = False, daName = [], daError = []\<rparr>"
| "zero_of KError = PError \<lparr>epCode = 0, epMessage = [], epDetails = []\<rparr>"
| "zero_of KDisconnect = PDisconnect \<lparr>dcReason = [], dcCode = 0\<rparr>"
| "zero_of KWireEvent = PWireEvent \<lparr>weTopic = [], wePayload = None\<rparr>"

definition ErrCodeUnknown :: int where "ErrCodeUnknown = 0"
definition ErrCodeNotFound :: int where "ErrCodeNotFound = 1"
definition ErrCodeAlreadyRunning :: int where "ErrCodeAlreadyRunning = 2"
definition ErrCodeNotRunning :: int where "ErrCodeNotRunning = 3"
definition ErrCodeOperationFailed :: int where "ErrCodeOperationFailed = 4"
definition ErrCodeInvalidConfig :: int where "ErrCodeInvalidConfig = 5"
definition ErrCodeAuthFailed :: int where "ErrCodeAuthFailed = 6"
definition ErrCodeInvalidMessage :: int where "ErrCodeInvalidMessage = ErrCodeUnknown"
definition ErrCodeUnauthorized :: int where "ErrCodeUnauthorized = ErrCodeAuthFailed"
definition ErrCodeTimeout :: int where "ErrCodeTimeout = ErrCodeOperationFailed"

section \<open>Messages\<close>

type_synonym MessageType = string

definition MsgHandshake :: MessageType where "MsgHandshake = ''handshake''"
definition MsgHandshakeAck :: MessageType where "MsgHandshakeAck = ''handshake_ack''"
definition MsgPing :: MessageType where "MsgPing = ''ping''"
definition MsgPong :: MessageType where "MsgPong = ''pong''"
definition MsgDisconnect :: MessageType where "MsgDisconnect = ''disconnect''"
definition MsgGetStats :: MessageType where "MsgGetStats = ''get_stats''"
definition MsgStats :: MessageType where "MsgStats = ''stats''"
definition MsgStartMiner :: MessageType where "MsgStartMiner = ''start_miner''"
definition MsgStopMiner :: MessageType where "MsgStopMiner = ''stop_miner''"
definition MsgMinerAck :: MessageType where "MsgMinerAck = ''miner_ack''"
definition MsgDeploy :: MessageType where "MsgDeploy = ''deploy''"
definition MsgDeployAck :: MessageType where "MsgDeployAck = ''deploy_ack''"
definition MsgGetLogs :: MessageType where "MsgGetLogs = ''get_logs''"
definition MsgLogs :: MessageType where "MsgLogs = ''logs''"
definition MsgError :: MessageType where "MsgError = ''error''"

lemmas message_types = MsgHandshake_def MsgHandshakeAck_def MsgPing_def MsgPong_def MsgDisconnect_def
  MsgGetStats_def MsgStats_def MsgStartMiner_def MsgStopMiner_def MsgMinerAck_def MsgDeploy_def
  MsgDeployAck_def MsgGetLogs_def MsgLogs_def MsgError_def

record Message =
  mID :: string
  mType :: MessageType
  mFrom :: string
  mTo :: string
  mTimestamp :: "instant option"
  mPayload :: "bytes option"
  mReplyTo :: string

record 'any messageJSON =
  wID :: string
  wType :: MessageType
  wFrom :: string
  wTo :: string
  wTimestamp :: "instant option"
  wPayload :: "'any option"
  wReplyTo :: string

subsection \<open>JSON\<close>

text \<open>
  The functions of the JSON library the code calls: marshalling and unmarshalling a payload
  struct, an untyped value, the message wire struct and a bundle, and the text replacement. An untyped
  \<^verbatim>\<open>null\<close> unmarshals to \<open>None\<close>.
\<close>

record 'any json =
  jsMarshal :: "Payload \<Rightarrow> string result"
  jsUnmarshal :: "kind \<Rightarrow> bytes \<Rightarrow> Payload result"
  jsMarshalAny :: "'any \<Rightarrow> string result"
  jsUnmarshalAny :: "bytes \<Rightarrow> 'any option result"
  jsMarshalWire :: "'any messageJSON \<Rightarrow> string result"
  jsUnmarshalWire :: "bytes \<Rightarrow> 'any messageJSON result"
  jsMarshalBundle :: "Bundle \<Rightarrow> string result"
  jsUnmarshalBundle :: "bytes \<Rightarrow> Bundle result"
  jsReplace :: "string \<Rightarrow> string \<Rightarrow> string \<Rightarrow> string"

text \<open>A backslash, and the escape sequences of the three HTML characters.\<close>

definition u_escape :: "string \<Rightarrow> string" where
  "u_escape digits = CHR 0x5C # CHR ''u'' # digits"

definition unescapeHTML :: "'any json \<Rightarrow> string \<Rightarrow> string" where
  "unescapeHTML j text =
     (let text1 = jsReplace j text (u_escape ''003c'') ''<'';
          text2 = jsReplace j text1 (u_escape ''003e'') ''>''
      in jsReplace j text2 (u_escape ''0026'') ''&'')"

definition MarshalRawJSON :: "bytes option \<Rightarrow> bytes result" where
  "MarshalRawJSON m = (case m of None \<Rightarrow> Ok (bytes_of ''null'') | Some b \<Rightarrow> Ok b)"

text \<open>The receiver is a pointer: the outer option is the pointer, the inner one the slice.\<close>

definition UnmarshalRawJSON :: "bytes option option \<Rightarrow> bytes \<Rightarrow> bytes option result" where
  "UnmarshalRawJSON m data =
     (case m of
        None \<Rightarrow> Fail (Errorf ''node.RawMessage: unmarshal on nil pointer'' None)
      | Some old \<Rightarrow> Ok (if old = None \<and> data = [] then None else Some data))"

definition marshalMessageJSON :: "'any json \<Rightarrow> Message option \<Rightarrow> bytes result" where
  "marshalMessageJSON j mp =
     (case mp of
        None \<Rightarrow> Ok (bytes_of ''null'')
      | Some m \<Rightarrow>
          and_then (case mPayload m of None \<Rightarrow> Ok None | Some b \<Rightarrow> jsUnmarshalAny j b) (\<lambda>payload.
          and_then (jsMarshalWire j
              \<lparr>wID = mID m, wType = mType m, wFrom = mFrom m, wTo = mTo m, wTimestamp = mTimestamp m,
               wPayload = payload, wReplyTo = mReplyTo m\<rparr>) (\<lambda>text.
          Ok (bytes_of (unescapeHTML j text)))))"

text \<open>The dynamic types \<^verbatim>\<open>MarshalJSON\<close> distinguishes; the last three are the values it hands to the library.\<close>

datatype 'any go_value =
    VRaw "bytes option"
  | VRawPtr "bytes option option"
  | VMessagePtr "Message option"
  | VMessage Message
  | VPayload Payload
  | VBundle Bundle
  | VAny 'any

fun MarshalJSON :: "'any json \<Rightarrow> 'any go_value \<Rightarrow> bytes result" where
  "MarshalJSON j (VRaw raw) = MarshalRawJSON raw"
| "MarshalJSON j (VRawPtr None) = Fail (Errorf ''node.RawMessage: marshal on nil pointer'' None)"
| "MarshalJSON j (VRawPtr (Some raw)) = MarshalRawJSON raw"
| "MarshalJSON j (VMessagePtr msg) = marshalMessageJSON j msg"
| "MarshalJSON j (VMessage msg) = marshalMessageJSON j (Some msg)"
| "MarshalJSON j (VPayload p) = and_then (jsMarshal j p) (\<lambda>text. Ok (bytes_of (unescapeHTML j text)))"
| "MarshalJSON j (VBundle b) = and_then (jsMarshalBundle j b) (\<lambda>text. Ok (bytes_of (unescapeHTML j text)))"
| "MarshalJSON j (VAny v) = and_then (jsMarshalAny j v) (\<lambda>text. Ok (bytes_of (unescapeHTML j text)))"

definition decodeMessageJSON :: "'any json \<Rightarrow> bytes \<Rightarrow> Message result" where
  "decodeMessageJSON j data =
     and_then (jsUnmarshalWire j data) (\<lambda>wire.
     and_then (case wPayload wire of None \<Rightarrow> Ok None
               | Some v \<Rightarrow> and_then (MarshalJSON j (VAny v)) (\<lambda>b. Ok (Some b))) (\<lambda>payload.
     Ok \<lparr>mID = wID wire, mType = wType wire, mFrom = wFrom wire, mTo = wTo wire,
         mTimestamp = wTimestamp wire, mPayload = payload, mReplyTo = wReplyTo wire\<rparr>))"

subsection \<open>Construction and parsing\<close>

definition NewMessage :: "'any json \<Rightarrow> string \<Rightarrow> instant \<Rightarrow> MessageType \<Rightarrow> string \<Rightarrow> string \<Rightarrow> Payload option \<Rightarrow> Message result" where
  "NewMessage j uuid now msgType from to payload =
     and_then (case payload of None \<Rightarrow> Ok None | Some p \<Rightarrow> and_then (MarshalJSON j (VPayload p)) (\<lambda>b. Ok (Some b))) (\<lambda>b.
     Ok \<lparr>mID = uuid, mType = msgType, mFrom = from, mTo = to, mTimestamp = Some now, mPayload = b, mReplyTo = []\<rparr>)"

definition Reply :: "'any json \<Rightarrow> string \<Rightarrow> instant \<Rightarrow> Message \<Rightarrow> MessageType \<Rightarrow> Payload option \<Rightarrow> Message result" where
  "Reply j uuid now m msgType payload =
     and_then (NewMessage j uuid now msgType (mTo m) (mFrom m) payload) (\<lambda>msg. Ok (msg\<lparr>mReplyTo := mID m\<rparr>))"

definition ParsePayload :: "'any json \<Rightarrow> kind \<Rightarrow> Message \<Rightarrow> Payload result" where
  "ParsePayload j k m = (case mPayload m of None \<Rightarrow> Ok (zero_of k) | Some b \<Rightarrow> jsUnmarshal j k b)"

definition NewErrorMessage :: "'any json \<Rightarrow> string \<Rightarrow> instant \<Rightarrow> string \<Rightarrow> string \<Rightarrow> int \<Rightarrow> string \<Rightarrow> string \<Rightarrow> Message result" where
  "NewErrorMessage j uuid now from to code message replyTo =
     and_then (NewMessage j uuid now MsgError from to
         (Some (PError \<lparr>epCode = code, epMessage = message, epDetails = []\<rparr>)))
       (\<lambda>msg. Ok (msg\<lparr>mReplyTo := replyTo\<rparr>))"

section \<open>Responses\<close>

definition ValidateResponse :: "'any json \<Rightarrow> Message option \<Rightarrow> MessageType \<Rightarrow> unit result" where
  "ValidateResponse j resp_ptr expectedType =
     (case resp_ptr of
        None \<Rightarrow> Fail (E ''ResponseHandler.ValidateResponse'' ''nil response'' None)
      | Some resp \<Rightarrow>
          if mType resp = MsgError then
            (case ParsePayload j KError resp of
               Ok (PError e) \<Rightarrow> Fail (ProtocolError (epCode e) (epMessage e))
             | Panic p \<Rightarrow> Panic p
             | _ \<Rightarrow> Fail (ProtocolError ErrCodeUnknown ''unable to parse error response''))
          else if mType resp \<noteq> expectedType then
            Fail (E ''ResponseHandler.ValidateResponse''
              (''unexpected response type: expected '' @ expectedType @ '', got '' @ mType resp) None)
          else Ok ())"

text \<open>The target's type is \<open>k\<close>; \<open>None\<close> is a nil target.\<close>

definition ParseResponse :: "'any json \<Rightarrow> Message option \<Rightarrow> MessageType \<Rightarrow> kind option \<Rightarrow> Payload option result" where
  "ParseResponse j resp_ptr expectedType target =
     and_then (ValidateResponse j resp_ptr expectedType) (\<lambda>_.
       case target of
         None \<Rightarrow> Ok None
       | Some k \<Rightarrow>
           (case resp_ptr of
              None \<Rightarrow> Panic NilDereference
            | Some resp \<Rightarrow>
                and_then (map_err (\<lambda>e. E ''ResponseHandler.ParseResponse''
                            (''failed to parse '' @ expectedType @ '' payload'') (Some e)) (ParsePayload j k resp))
                  (\<lambda>p. Ok (Some p))))"

definition IsProtocolError :: "go_error \<Rightarrow> bool" where
  "IsProtocolError e = (case e of ProtocolError _ _ \<Rightarrow> True | _ \<Rightarrow> False)"

definition GetProtocolErrorCode :: "go_error \<Rightarrow> int" where
  "GetProtocolErrorCode e = (case e of ProtocolError code _ \<Rightarrow> code | _ \<Rightarrow> 0)"

section \<open>Lemmas\<close>

text \<open>
  What the code relies on of the JSON library, for one payload: the text written for it, after the
  replacement of the HTML escapes, reads back as the same value.
\<close>

definition json_faithful :: "'any json \<Rightarrow> Payload \<Rightarrow> bool" where
  "json_faithful j p \<longleftrightarrow>
     (case jsMarshal j p of
        Ok text \<Rightarrow> jsUnmarshal j (kind_of p) (bytes_of (unescapeHTML j text)) = Ok p
      | _ \<Rightarrow> False)"

lemma MarshalJSON_faithful:
  assumes "json_faithful j p"
  obtains b where "MarshalJSON j (VPayload p) = Ok b" and "jsUnmarshal j (kind_of p) b = Ok p"
  using assms by (auto simp: json_faithful_def split: result.splits)

lemma NewMessage_Ok:
  assumes "NewMessage j uuid now t from to p = Ok m"
  shows "mID m = uuid" "mType m = t" "mFrom m = from" "mTo m = to" "mReplyTo m = []"
  using assms by (auto simp: NewMessage_def)

lemma Reply_Ok:
  assumes "Reply j uuid now m t p = Ok r"
  shows "mID r = uuid" "mType r = t" "mFrom r = mTo m" "mTo r = mFrom m" "mReplyTo r = mID m"
  using assms by (auto simp: Reply_def dest: NewMessage_Ok)

lemma NewErrorMessage_Ok:
  assumes "NewErrorMessage j uuid now from to code text replyTo = Ok m"
  shows "mID m = uuid" "mType m = MsgError" "mFrom m = from" "mTo m = to" "mReplyTo m = replyTo"
  using assms by (auto simp: NewErrorMessage_def dest: NewMessage_Ok)

lemma NewMessage_parses:
  assumes "json_faithful j p"
  shows "\<exists>m. NewMessage j uuid now t from to (Some p) = Ok m \<and> ParsePayload j (kind_of p) m = Ok p"
proof -
  obtain b where "MarshalJSON j (VPayload p) = Ok b" "jsUnmarshal j (kind_of p) b = Ok p"
    by (rule MarshalJSON_faithful [OF assms])
  then show ?thesis by (auto simp: NewMessage_def ParsePayload_def)
qed

lemma Reply_parses:
  assumes "json_faithful j p"
  shows "\<exists>r. Reply j uuid now m t (Some p) = Ok r \<and> ParsePayload j (kind_of p) r = Ok p"
  using NewMessage_parses [OF assms, of uuid now t "mTo m" "mFrom m"]
  by (auto simp: Reply_def ParsePayload_def split: option.splits)

text \<open>A reply of the expected type is accepted and its payload read back.\<close>

lemma ParseResponse_Reply:
  assumes "json_faithful j p" and "t \<noteq> MsgError"
    and "Reply j uuid now m t (Some p) = Ok r"
  shows "ParseResponse j (Some r) t (Some (kind_of p)) = Ok (Some p)"
  using Reply_parses [OF assms(1), of uuid now m t] Reply_Ok(2) [OF assms(3)] assms(2,3)
  by (auto simp: ParseResponse_def ValidateResponse_def)

text \<open>An error reply surfaces as a protocol error with the code and the text it was built from.\<close>

lemma ParseResponse_error:
  assumes "json_faithful j (PError \<lparr>epCode = code, epMessage = text, epDetails = []\<rparr>)"
    and "NewErrorMessage j uuid now from to code text replyTo = Ok m"
  shows "ParseResponse j (Some m) t target = Fail (ProtocolError code text)"
  using NewMessage_parses [OF assms(1), of uuid now MsgError "from" to] assms(2)
    NewErrorMessage_Ok(2) [OF assms(2)]
  by (auto simp: NewErrorMessage_def ParseResponse_def ValidateResponse_def ParsePayload_def)

section \<open>A JSON library for finitely many payloads\<close>

text \<open>
  An instance of the JSON functions on which the hypotheses can be evaluated: a payload of the table
  is written as its position in unary, and only those texts can be read.
\<close>

definition table_json :: "Payload list \<Rightarrow> unit json" where
  "table_json ps =
     \<lparr>jsMarshal = (\<lambda>p. Ok (replicate (length (takeWhile (\<lambda>q. q \<noteq> p) ps)) CHR ''x'')),
      jsUnmarshal = (\<lambda>k b. if length b < length ps \<and> kind_of (ps ! length b) = k then Ok (ps ! length b) else Fail EOF),
      jsMarshalAny = (\<lambda>_. Ok []),
      jsUnmarshalAny = (\<lambda>_. Ok (Some ())),
      jsMarshalWire = (\<lambda>_. Ok []),
      jsUnmarshalWire = (\<lambda>_. Fail EOF),
      jsMarshalBundle = (\<lambda>_. Ok []),
      jsUnmarshalBundle = (\<lambda>_. Fail EOF),
      jsReplace = (\<lambda>s old new. s)\<rparr>"

lemma json_faithful_table:
  assumes "p \<in> set ps"
  shows "json_faithful (table_json ps) p"
proof -
  let ?i = "length (takeWhile (\<lambda>q. q \<noteq> p) ps)"
  have i: "?i < length ps" using assms by (induction ps) auto
  have "ps ! ?i = p" using nth_length_takeWhile [OF i] by simp
  then show ?thesis using i by (simp add: json_faithful_def table_json_def unescapeHTML_def Let_def)
qed

lemma table_json_marshals: "is_Ok (jsMarshal (table_json ps) p)"
  by (simp add: table_json_def)

end
