(* ===== verification/Bundles.thy ===== *)
theory Bundles
  imports Messages Sha256_Hmac "HOL-Library.Sublist"
begin

text \<open>
  Deployment bundles, \<^verbatim>\<open>src/go/node/bundle.go\<close>: creation, checksum verification, extraction of
  profiles and of miner archives.

  Outside the repository, and therefore arguments: the container format of Borg (\<open>borg\<close>), the path
  functions, \<^verbatim>\<open>HasPrefix\<close> and \<^verbatim>\<open>Trim\<close> of the core library (\<open>paths\<close>), and the outcome of each
  operation on the file system (\<open>fs_env\<close>: the error, if any, given all earlier operations). Of
  \<^verbatim>\<open>archive/tar\<close> the code uses the sequence of entries a reader yields and the calls it makes on a
  writer; \<open>tar\<close> relates those to archive bytes, and no theorem depends on how.
\<close>

unbundle bit_operations_syntax

section \<open>Types\<close>

definition BundleProfile :: string where "BundleProfile = ''profile''"
definition BundleMiner :: string where "BundleMiner = ''miner''"
definition BundleFull :: string where "BundleFull = ''full''"

record BundleManifest =
  bmType :: string
  bmName :: string
  bmVersion :: string
  bmMinerType :: string
  bmProfileIDs :: "string list"
  bmCreatedAt :: string

record extractedMinerBundleResult =
  exPath :: string
  exProfile :: "bytes option"

record 'dn TIM =
  timConfig :: "bytes option"
  timRootFS :: 'dn

record 'dn borg =
  timNew :: "'dn TIM result"
  timToSigil :: "'dn TIM \<Rightarrow> string \<Rightarrow> bytes result"
  timFromSigil :: "bytes \<Rightarrow> string \<Rightarrow> 'dn TIM result"
  timFromDataNode :: "'dn \<Rightarrow> 'dn TIM result"
  dnFromTar :: "bytes \<Rightarrow> 'dn result"
  dnToTar :: "'dn \<Rightarrow> bytes result"

record paths =
  PathAbs :: "string \<Rightarrow> string result"
  CleanPath :: "string \<Rightarrow> string"
  PathIsAbs :: "string \<Rightarrow> bool"
  PathJoin :: "string list \<Rightarrow> string"
  PathDir :: "string \<Rightarrow> string"
  PathBase :: "string \<Rightarrow> string"
  HasPrefix :: "string \<Rightarrow> string \<Rightarrow> bool"
  Trim :: "string \<Rightarrow> string"

section \<open>Checksums and profiles\<close>

definition EncodeToString :: "bytes \<Rightarrow> string" where
  "EncodeToString b = concat (map hex2 b)"

definition calculateChecksum :: "bytes \<Rightarrow> string" where
  "calculateChecksum data = EncodeToString (Sum256 data)"

definition VerifyBundle :: "Bundle \<Rightarrow> bool" where
  "VerifyBundle bundle \<longleftrightarrow> calculateChecksum (bData bundle) = bChecksum bundle"

definition isJSON :: "paths \<Rightarrow> bytes \<Rightarrow> bool" where
  "isJSON P data =
     (case Trim P (string_of data) of [] \<Rightarrow> False | c # _ \<Rightarrow> c = CHR ''{'' \<or> c = CHR ''['')"

definition new_bundle :: "string \<Rightarrow> string \<Rightarrow> bytes \<Rightarrow> Bundle" where
  "new_bundle ty name data =
     \<lparr>bType = ty, bName = name, bData = data, bChecksum = calculateChecksum data\<rparr>"

definition CreateProfileBundle :: "'dn borg \<Rightarrow> bytes option \<Rightarrow> string \<Rightarrow> string \<Rightarrow> Bundle result" where
  "CreateProfileBundle B profileJSON name password =
     and_then (map_err (\<lambda>e. E ''CreateProfileBundle'' ''failed to create TIM'' (Some e)) (timNew B)) (\<lambda>t.
     and_then (map_err (\<lambda>e. E ''CreateProfileBundle'' ''failed to encrypt bundle'' (Some e))
         (timToSigil B (t\<lparr>timConfig := profileJSON\<rparr>) password)) (\<lambda>stimData.
     Ok (new_bundle BundleProfile name stimData)))"

definition CreateProfileBundleUnencrypted :: "bytes \<Rightarrow> string \<Rightarrow> Bundle result" where
  "CreateProfileBundleUnencrypted profileJSON name = Ok (new_bundle BundleProfile name profileJSON)"

definition ExtractProfileBundle :: "'dn borg \<Rightarrow> paths \<Rightarrow> Bundle \<Rightarrow> string \<Rightarrow> bytes option result" where
  "ExtractProfileBundle B P bundle password =
     (if calculateChecksum (bData bundle) \<noteq> bChecksum bundle
      then Fail (E ''ExtractProfileBundle'' ''checksum mismatch - bundle may be corrupted'' None)
      else if isJSON P (bData bundle) then Ok (Some (bData bundle))
      else and_then (map_err (\<lambda>e. E ''ExtractProfileBundle'' ''failed to decrypt bundle'' (Some e))
             (timFromSigil B (bData bundle) password)) (\<lambda>t. Ok (timConfig t)))"

section \<open>Archives\<close>

text \<open>\<open>TypeRegA\<close> is the zero flag, which a writer turns into \<open>TypeReg\<close>.\<close>

datatype tar_type = TypeRegA | TypeReg | TypeDir | TypeSymlink | TypeLink | TypeOther

record tar_header =
  hdrName :: string
  hdrMode :: int
  hdrTypeflag :: tar_type
  hdrSize :: int

text \<open>Calls on a \<^verbatim>\<open>tar.Writer\<close>.\<close>

datatype tar_call = WriteHeader tar_header | TarWrite bytes | TarClose

text \<open>
  What \<^verbatim>\<open>Next\<close> yields: an entry with the bytes that can be read from it and the error that ends
  them, if any, or an error. The end of the list is \<^verbatim>\<open>io.EOF\<close>.
\<close>

datatype tar_event = TarEntry tar_header bytes "go_error option" | TarError go_error

record tar =
  twOutcome :: "tar_call list \<Rightarrow> tar_call \<Rightarrow> go_error option"
  twBytes :: "tar_call list \<Rightarrow> bytes"
  trEvents :: "bytes \<Rightarrow> tar_event list"

definition tar_do :: "tar \<Rightarrow> tar_call \<Rightarrow> (tar_call list, unit) cmd" where
  "tar_do T c done = (case twOutcome T done c of None \<Rightarrow> Ok () | Some e \<Rightarrow> Fail e, done @ [c])"

text \<open>One file of the map; \<open>dirs\<close> are the directories written so far.\<close>

definition tar_dir_header :: "string \<Rightarrow> tar_header" where
  "tar_dir_header dir = \<lparr>hdrName = dir @ ''/'', hdrMode = 493, hdrTypeflag = TypeDir, hdrSize = 0\<rparr>"

definition tar_file_header :: "paths \<Rightarrow> string \<Rightarrow> bytes \<Rightarrow> tar_header" where
  "tar_file_header P name content =
     \<lparr>hdrName = name,
      hdrMode = (if PathDir P name = ''miners'' \<or> \<not> isJSON P content then 493 else 420),
      hdrTypeflag = TypeRegA, hdrSize = int (length content)\<rparr>"

fun createTarball_files :: "tar \<Rightarrow> paths \<Rightarrow> (string \<times> bytes) list \<Rightarrow> string list \<Rightarrow> (tar_call list, unit) cmd" where
  "createTarball_files T P [] dirs = of_result (Ok ())"
| "createTarball_files T P ((name, content) # files) dirs =
     (let dir = PathDir P name; fresh = (dir \<noteq> ''.'' \<and> dir \<notin> set dirs) in
      cmd_then (if fresh then tar_do T (WriteHeader (tar_dir_header dir)) else of_result (Ok ())) (\<lambda>_.
      cmd_then (tar_do T (WriteHeader (tar_file_header P name content))) (\<lambda>_.
      cmd_then (tar_do T (TarWrite content)) (\<lambda>_.
      createTarball_files T P files (if fresh then dir # dirs else dirs)))))"

definition createTarball :: "tar \<Rightarrow> paths \<Rightarrow> (string \<times> bytes) list \<Rightarrow> bytes result" where
  "createTarball T P files =
     (case cmd_then (createTarball_files T P files []) (\<lambda>_. tar_do T TarClose) [] of
        (r, calls) \<Rightarrow> and_then r (\<lambda>_. Ok (twBytes T calls)))"

section \<open>Extraction\<close>

datatype fs_effect =
    EnsureDir string
  | OpenFile string "32 word"
  | CopyTo string bytes
  | DeleteFile string

type_synonym fs_env = "fs_effect list \<Rightarrow> fs_effect \<Rightarrow> go_error option"

definition fs_do :: "fs_env \<Rightarrow> fs_effect \<Rightarrow> (fs_effect list, unit) cmd" where
  "fs_do env eff done = (case env done eff of None \<Rightarrow> Ok () | Some e \<Rightarrow> Fail e, done @ [eff])"

definition cmd_map_err :: "(go_error \<Rightarrow> go_error) \<Rightarrow> ('s, 'a) cmd \<Rightarrow> ('s, 'a) cmd" where
  "cmd_map_err g c s = (case c s of (r, t) \<Rightarrow> (map_err g r, t))"

definition PathSeparator :: string where "PathSeparator = ''/''"

definition maxFileSize :: nat where "maxFileSize = 100 * 1024 * 1024"

text \<open>The checks on an entry's name, giving the path it is extracted to.\<close>

definition entry_path :: "paths \<Rightarrow> string \<Rightarrow> string \<Rightarrow> string result" where
  "entry_path P absDestDir name =
     (let cleanName = CleanPath P name in
      if PathIsAbs P cleanName
      then Fail (E ''extractTarball'' (''invalid tar entry: absolute path not allowed: '' @ name) None)
      else if HasPrefix P cleanName (''..'' @ PathSeparator) \<or> cleanName = ''..''
      then Fail (E ''extractTarball'' (''invalid tar entry: path traversal attempt: '' @ name) None)
      else
        (let fullPath = CleanPath P (PathJoin P [absDestDir, cleanName]) in
         if \<not> HasPrefix P fullPath (absDestDir @ PathSeparator) \<and> fullPath \<noteq> absDestDir
         then Fail (E ''extractTarball'' (''invalid tar entry: path escape attempt: '' @ name) None)
         else Ok fullPath))"

text \<open>
  A regular file: \<^verbatim>\<open>io.Copy\<close> from a reader limited to \<open>maxFileSize + 1\<close> bytes, so the error that ends
  the entry is only seen when the entry is within the limit.
\<close>

definition extract_file :: "paths \<Rightarrow> fs_env \<Rightarrow> string \<Rightarrow> tar_header \<Rightarrow> bytes \<Rightarrow> go_error option \<Rightarrow> (fs_effect list, unit) cmd" where
  "extract_file P env fullPath hdr content readErr =
     cmd_then (fs_do env (EnsureDir (PathDir P fullPath))) (\<lambda>_.
     cmd_then (cmd_map_err (\<lambda>e. E ''extractTarball'' (''failed to create file '' @ hdrName hdr) (Some e))
         (fs_do env (OpenFile fullPath (word_of_int (hdrMode hdr))))) (\<lambda>_.
     cmd_then (cmd_map_err (\<lambda>e. E ''extractTarball'' (''failed to write file '' @ hdrName hdr) (Some e))
         (cmd_then (fs_do env (CopyTo fullPath (take (maxFileSize + 1) content))) (\<lambda>_.
          of_result (if length content > maxFileSize then Ok ()
                     else case readErr of None \<Rightarrow> Ok () | Some e \<Rightarrow> Fail e)))) (\<lambda>_ s.
     if length (take (maxFileSize + 1) content) > maxFileSize
     then (Fail (E ''extractTarball'' (''file '' @ hdrName hdr @ '' exceeds maximum size'') None),
           snd (fs_do env (DeleteFile fullPath) s))
     else (Ok (), s))))"

definition track_executable :: "tar_header \<Rightarrow> string \<Rightarrow> string \<Rightarrow> string" where
  "track_executable hdr fullPath firstExecutable =
     (if hdrMode hdr AND 73 \<noteq> 0 \<and> firstExecutable = [] then fullPath else firstExecutable)"

fun extract_entries :: "paths \<Rightarrow> fs_env \<Rightarrow> string \<Rightarrow> tar_event list \<Rightarrow> string \<Rightarrow> (fs_effect list, string) cmd" where
  "extract_entries P env absDestDir [] firstExecutable = of_result (Ok firstExecutable)"
| "extract_entries P env absDestDir (TarError e # evs) firstExecutable = of_result (Fail e)"
| "extract_entries P env absDestDir (TarEntry hdr content readErr # evs) firstExecutable =
     cmd_then (of_result (entry_path P absDestDir (hdrName hdr))) (\<lambda>fullPath.
     case hdrTypeflag hdr of
       TypeDir \<Rightarrow> cmd_then (fs_do env (EnsureDir fullPath))
                    (\<lambda>_. extract_entries P env absDestDir evs firstExecutable)
     | TypeReg \<Rightarrow> cmd_then (extract_file P env fullPath hdr content readErr)
                    (\<lambda>_. extract_entries P env absDestDir evs (track_executable hdr fullPath firstExecutable))
     | _ \<Rightarrow> extract_entries P env absDestDir evs firstExecutable)"

definition extractTarball :: "tar \<Rightarrow> paths \<Rightarrow> fs_env \<Rightarrow> bytes \<Rightarrow> string \<Rightarrow> (fs_effect list, string) cmd" where
  "extractTarball T P env tarData destDir =
     cmd_then (of_result (map_err (\<lambda>e. E ''extractTarball'' ''failed to resolve destination directory'' (Some e))
                 (PathAbs P destDir))) (\<lambda>absPath.
     let absDestDir = CleanPath P absPath in
     cmd_then (fs_do env (EnsureDir absDestDir)) (\<lambda>_.
     extract_entries P env absDestDir (trEvents T tarData) []))"

definition CreateMinerBundle :: "'dn borg \<Rightarrow> tar \<Rightarrow> paths \<Rightarrow> (string \<Rightarrow> string result) \<Rightarrow> string \<Rightarrow> bytes option \<Rightarrow> string \<Rightarrow> string \<Rightarrow> Bundle result" where
  "CreateMinerBundle B T P readFile minerPath profileJSON name password =
     (let err = (\<lambda>msg e. E ''CreateMinerBundle'' msg (Some e)) in
      and_then (map_err (err ''failed to read miner binary'') (readFile minerPath)) (\<lambda>minerContent.
      and_then (map_err (err ''failed to create tarball'')
          (createTarball T P [(PathBase P minerPath, bytes_of minerContent)])) (\<lambda>tarData.
      and_then (map_err (err ''failed to create datanode'') (dnFromTar B tarData)) (\<lambda>dn.
      and_then (map_err (err ''failed to create TIM'') (timFromDataNode B dn)) (\<lambda>t.
      and_then (map_err (err ''failed to encrypt bundle'')
          (timToSigil B (case profileJSON of None \<Rightarrow> t | Some c \<Rightarrow> t\<lparr>timConfig := Some c\<rparr>) password)) (\<lambda>stimData.
      Ok (new_bundle BundleMiner name stimData)))))))"

definition ExtractMinerBundle :: "'dn borg \<Rightarrow> tar \<Rightarrow> paths \<Rightarrow> fs_env \<Rightarrow> Bundle \<Rightarrow> string \<Rightarrow> string \<Rightarrow> (fs_effect list, extractedMinerBundleResult) cmd" where
  "ExtractMinerBundle B T P env bundle password destDir =
     (let err = (\<lambda>msg e. E ''ExtractMinerBundle'' msg (Some e)) in
      if calculateChecksum (bData bundle) \<noteq> bChecksum bundle
      then of_result (Fail (E ''ExtractMinerBundle'' ''checksum mismatch - bundle may be corrupted'' None))
      else
        cmd_then (of_result (map_err (err ''failed to decrypt bundle'') (timFromSigil B (bData bundle) password))) (\<lambda>t.
        cmd_then (of_result (map_err (err ''failed to convert rootfs to tar'') (dnToTar B (timRootFS t)))) (\<lambda>tarData.
        cmd_then (cmd_map_err (err ''failed to extract tarball'') (extractTarball T P env tarData destDir)) (\<lambda>minerPath.
        of_result (Ok \<lparr>exPath = minerPath, exProfile = timConfig t\<rparr>)))))"

section \<open>Streaming\<close>

text \<open>A writer is the list of chunks written so far and the outcome of the next write.\<close>

definition write_chunk :: "(bytes list \<Rightarrow> bytes \<Rightarrow> go_error option) \<Rightarrow> bytes \<Rightarrow> (bytes list, unit) cmd" where
  "write_chunk w data done = (case w done data of None \<Rightarrow> Ok () | Some e \<Rightarrow> Fail e, done @ [data])"

definition StreamBundle :: "'any json \<Rightarrow> (bytes list \<Rightarrow> bytes \<Rightarrow> go_error option) \<Rightarrow> Bundle \<Rightarrow> (bytes list, unit) cmd" where
  "StreamBundle j w bundle =
     cmd_then (of_result (MarshalJSON j (VBundle bundle))) (\<lambda>data.
     cmd_then (write_chunk w data) (\<lambda>_. write_chunk w [10]))"

text \<open>The argument is the outcome of \<^verbatim>\<open>io.ReadAll\<close>.\<close>

definition ReadBundle :: "'any json \<Rightarrow> bytes result \<Rightarrow> Bundle result" where
  "ReadBundle j readAll = and_then readAll (\<lambda>raw. jsUnmarshalBundle j raw)"

section \<open>Confinement of an extraction\<close>

text \<open>The slash-separated segments of a path.\<close>

fun segments :: "string \<Rightarrow> string list" where
  "segments [] = [[]]"
| "segments (c # cs) =
     (if c = CHR ''/'' then [] # segments cs
      else case segments cs of [] \<Rightarrow> [[c]] | seg # segs \<Rightarrow> (c # seg) # segs)"

text \<open>
  What the code relies on of the path functions: \<^verbatim>\<open>HasPrefix\<close> tests a prefix, an absolute path stays
  absolute when cleaned, and a cleaned absolute path has no parent segment.
\<close>

definition path_laws :: "paths \<Rightarrow> bool" where
  "path_laws P \<longleftrightarrow>
     (\<forall>s p. HasPrefix P s p = prefix p s) \<and>
     (\<forall>d a. PathAbs P d = Ok a \<longrightarrow> prefix ''/'' (CleanPath P a)) \<and>
     (\<forall>p. prefix ''/'' (CleanPath P p) \<longrightarrow> ''..'' \<notin> set (segments (CleanPath P p)))"

definition inside :: "string \<Rightarrow> string \<Rightarrow> bool" where
  "inside base p \<longleftrightarrow> (p = base \<or> prefix (base @ ''/'') p) \<and> ''..'' \<notin> set (segments p)"

text \<open>Directories are created inside the base directory or as the parent of a path inside it.\<close>

fun confined :: "paths \<Rightarrow> string \<Rightarrow> fs_effect \<Rightarrow> bool" where
  "confined P base (EnsureDir p) \<longleftrightarrow> inside base p \<or> (\<exists>q. inside base q \<and> p = PathDir P q)"
| "confined P base (OpenFile p _) \<longleftrightarrow> inside base p"
| "confined P base (CopyTo p _) \<longleftrightarrow> inside base p"
| "confined P base (DeleteFile p) \<longleftrightarrow> inside base p"

lemma entry_path_inside:
  assumes "path_laws P" and "prefix ''/'' base" and "entry_path P base name = Ok p"
  shows "inside base p"
proof -
  let ?q = "CleanPath P (PathJoin P [base, CleanPath P name])"
  have p: "p = ?q" and in_root: "p = base \<or> prefix (base @ ''/'') p"
    using assms(1,3) by (auto simp: entry_path_def Let_def path_laws_def PathSeparator_def split: if_splits)
  then have "prefix ''/'' p" using assms(2) by (auto simp: prefix_def)
  then show ?thesis using assms(1) p in_root by (simp add: path_laws_def inside_def)
qed

text \<open>An extraction only appends effects; \<open>adds Q\<close> says that every appended one satisfies \<open>Q\<close>.\<close>

definition adds :: "('e \<Rightarrow> bool) \<Rightarrow> ('e list, 'a) cmd \<Rightarrow> bool" where
  "adds Q c \<longleftrightarrow> (\<forall>s r t. c s = (r, t) \<longrightarrow> (\<exists>new. t = s @ new \<and> list_all Q new))"

lemma adds_return [simp]: "adds Q (Pair r)" "adds Q (of_result r)"
  by (simp_all add: adds_def of_result_def)

lemma adds_fs_do: "Q eff \<Longrightarrow> adds Q (fs_do env eff)"
  by (simp add: adds_def fs_do_def)

lemma adds_cmd_map_err: "adds Q c \<Longrightarrow> adds Q (cmd_map_err g c)"
  by (fastforce simp: adds_def cmd_map_err_def split: prod.splits)

lemma adds_cmd_then:
  assumes "adds Q c" and "\<And>s x t. c s = (Ok x, t) \<Longrightarrow> adds Q (f x)"
  shows "adds Q (cmd_then c f)"
  unfolding adds_def
proof (intro allI impI)
  fix s r t assume run: "cmd_then c f s = (r, t)"
  obtain r1 s1 where c: "c s = (r1, s1)" by fastforce
  then obtain n1 where n1: "s1 = s @ n1" "list_all Q n1" using assms(1) unfolding adds_def by blast
  show "\<exists>new. t = s @ new \<and> list_all Q new"
  proof (cases r1)
    case (Ok x)
    then have "f x s1 = (r, t)" using run c by simp
    then obtain n2 where "t = s1 @ n2" "list_all Q n2"
      using assms(2) c Ok by (fastforce simp: adds_def)
    then show ?thesis using n1 by (intro exI [of _ "n1 @ n2"]) simp
  qed (use run c n1 in auto)
qed

lemma adds_extract_file:
  assumes "inside base p"
  shows "adds (confined P base) (extract_file P env p hdr content readErr)"
  unfolding extract_file_def
proof (intro adds_cmd_then adds_cmd_map_err adds_fs_do adds_return)
  fix s show "adds (confined P base)
    (\<lambda>s. if length (take (maxFileSize + 1) content) > maxFileSize
         then (Fail (E ''extractTarball'' (''file '' @ hdrName hdr @ '' exceeds maximum size'') None),
               snd (fs_do env (DeleteFile p) s))
         else (Ok (), s))"
    using assms by (simp add: adds_def fs_do_def)
qed (use assms in auto)

lemma adds_extract_entries:
  assumes "path_laws P" and "prefix ''/'' base"
  shows "adds (confined P base) (extract_entries P env base evs exe)"
proof (induction evs arbitrary: exe)
  case (Cons ev evs)
  show ?case
  proof (cases ev)
    case (TarEntry hdr content readErr)
    show ?thesis unfolding TarEntry extract_entries.simps
    proof (rule adds_cmd_then [OF adds_return(2)])
      fix s p t assume "of_result (entry_path P base (hdrName hdr)) s = (Ok p, t)"
      then have "inside base p"
        using entry_path_inside [OF assms] by (auto simp: of_result_def)
      then show "adds (confined P base) (case hdrTypeflag hdr of
          TypeDir \<Rightarrow> cmd_then (fs_do env (EnsureDir p)) (\<lambda>_. extract_entries P env base evs exe)
        | TypeReg \<Rightarrow> cmd_then (extract_file P env p hdr content readErr)
                      (\<lambda>_. extract_entries P env base evs (track_executable hdr p exe))
        | _ \<Rightarrow> extract_entries P env base evs exe)"
        by (cases "hdrTypeflag hdr")
          (auto intro!: adds_cmd_then adds_fs_do adds_extract_file Cons.IH)
    qed
  qed simp
qed simp

section \<open>What a successful extraction wrote\<close>

text \<open>The files an archive describes, in order, with the place of each.\<close>

fun regular_files :: "paths \<Rightarrow> string \<Rightarrow> tar_event list \<Rightarrow> (string \<times> tar_header \<times> bytes) list" where
  "regular_files P base [] = []"
| "regular_files P base (TarError e # evs) = regular_files P base evs"
| "regular_files P base (TarEntry hdr content readErr # evs) =
     (case (hdrTypeflag hdr, entry_path P base (hdrName hdr)) of
        (TypeReg, Ok p) \<Rightarrow> (p, hdr, content) # regular_files P base evs
      | _ \<Rightarrow> regular_files P base evs)"

fun written :: "fs_effect list \<Rightarrow> (string \<times> bytes) list" where
  "written [] = []"
| "written (CopyTo p data # effs) = (p, data) # written effs"
| "written (_ # effs) = written effs"

definition first_executable :: "string \<Rightarrow> (string \<times> tar_header \<times> bytes) list \<Rightarrow> string" where
  "first_executable exe files = foldl (\<lambda>acc (p, hdr, _). track_executable hdr p acc) exe files"

lemma written_append [simp]: "written (xs @ ys) = written xs @ written ys"
  by (induction xs rule: written.induct) auto

lemma written_fs_do: "fs_do env eff s = (r, t) \<Longrightarrow> written t = written s @ written [eff]"
  by (auto simp: fs_do_def)

lemma extract_file_Ok:
  assumes "extract_file P env p hdr content readErr s = (Ok u, t)"
  shows "written t = written s @ [(p, content)] \<and> length content \<le> maxFileSize \<and> readErr = None"
proof -
  from assms obtain s1 s2 s3 where
    s1: "fs_do env (EnsureDir (PathDir P p)) s = (Ok (), s1)"
    and s2: "fs_do env (OpenFile p (word_of_int (hdrMode hdr))) s1 = (Ok (), s2)"
    and s3: "fs_do env (CopyTo p (take (maxFileSize + 1) content)) s2 = (Ok (), s3)"
    and small: "length content \<le> maxFileSize" and "readErr = None" and "t = s3"
    unfolding extract_file_def
    by (auto elim!: cmd_then_OkE simp: cmd_map_err_def of_result_def split: prod.splits if_splits option.splits)
  then show ?thesis using written_fs_do [OF s1] written_fs_do [OF s2] written_fs_do [OF s3] by simp
qed

lemma extract_entries_Ok:
  assumes "extract_entries P env base evs exe s = (Ok exe', t)"
  shows "written t = written s @ map (\<lambda>(p, hdr, content). (p, content)) (regular_files P base evs)
    \<and> (\<forall>(p, hdr, content) \<in> set (regular_files P base evs). length content \<le> maxFileSize)
    \<and> exe' = first_executable exe (regular_files P base evs)"
  using assms
proof (induction evs arbitrary: exe s)
  case Nil
  then show ?case by (simp add: of_result_def first_executable_def)
next
  case (Cons ev evs)
  then obtain hdr content readErr where ev: "ev = TarEntry hdr content readErr"
    by (cases ev) (auto simp: of_result_def)
  obtain p where p: "entry_path P base (hdrName hdr) = Ok p"
    using Cons.prems by (auto simp: ev of_result_def elim!: cmd_then_OkE)
  show ?case
  proof (cases "hdrTypeflag hdr")
    case TypeReg
    then obtain s1 u where f: "extract_file P env p hdr content readErr s = (Ok u, s1)"
      and rest: "extract_entries P env base evs (track_executable hdr p exe) s1 = (Ok exe', t)"
      using Cons.prems p by (auto simp: ev of_result_def elim!: cmd_then_OkE)
    show ?thesis using extract_file_Ok [OF f] Cons.IH [OF rest] p TypeReg
      by (simp add: ev first_executable_def)
  next
    case TypeDir
    then obtain s1 where d: "fs_do env (EnsureDir p) s = (Ok (), s1)"
      and rest: "extract_entries P env base evs exe s1 = (Ok exe', t)"
      using Cons.prems p by (auto simp: ev of_result_def elim!: cmd_then_OkE)
    show ?thesis using written_fs_do [OF d] Cons.IH [OF rest] p TypeDir by (simp add: ev)
  qed (use Cons p in \<open>auto simp: ev of_result_def elim!: cmd_then_OkE\<close>)
qed

section \<open>A lexical instance of the path functions\<close>

text \<open>
  Path functions in the manner of a Unix system, on which the hypotheses above can be evaluated:
  \<open>push\<close> keeps the stack of segments of a path being cleaned.
\<close>

definition push :: "bool \<Rightarrow> string list \<Rightarrow> string \<Rightarrow> string list" where
  "push rooted st seg =
     (if seg = [] \<or> seg = ''.'' then st
      else if seg = ''..'' then
        (case st of
           [] \<Rightarrow> if rooted then [] else [''..'']
         | prev # rest \<Rightarrow> if prev = ''..'' then ''..'' # st else rest)
      else seg # st)"

fun join_segments :: "string list \<Rightarrow> string" where
  "join_segments [] = []"
| "join_segments [seg] = seg"
| "join_segments (seg # segs) = seg @ ''/'' @ join_segments segs"

definition is_rooted :: "string \<Rightarrow> bool" where
  "is_rooted p \<longleftrightarrow> (case p of [] \<Rightarrow> False | c # _ \<Rightarrow> c = CHR ''/'')"

definition lexical_clean :: "string \<Rightarrow> string" where
  "lexical_clean p =
     (let st = rev (foldl (push (is_rooted p)) [] (segments p)) in
      if is_rooted p then CHR ''/'' # join_segments st
      else if st = [] then ''.'' else join_segments st)"

definition lexical_dir :: "string \<Rightarrow> string" where
  "lexical_dir p = lexical_clean (join_segments (butlast (segments p)) @ (if length (segments p) = 2 \<and> is_rooted p then ''/'' else []))"

definition lexical_paths :: paths where
  "lexical_paths =
     \<lparr>PathAbs = (\<lambda>d. Ok (if is_rooted d then d else ''/work/'' @ d)),
      CleanPath = lexical_clean,
      PathIsAbs = is_rooted,
      PathJoin = join_segments,
      PathDir = lexical_dir,
      PathBase = (\<lambda>p. last (segments p)),
      HasPrefix = (\<lambda>s p. prefix p s),
      Trim = (\<lambda>s. rev (dropWhile (\<lambda>c. c = CHR '' '') (rev (dropWhile (\<lambda>c. c = CHR '' '') s))))\<rparr>"

definition plain_segment :: "string \<Rightarrow> bool" where
  "plain_segment seg \<longleftrightarrow> seg \<noteq> [] \<and> CHR ''/'' \<notin> set seg"

lemma segments_no_slash: "seg \<in> set (segments p) \<Longrightarrow> CHR ''/'' \<notin> set seg"
  by (induction p arbitrary: seg) (auto split: if_splits list.splits)

lemma segments_plain: "CHR ''/'' \<notin> set seg \<Longrightarrow> segments seg = [seg]"
  by (induction seg) auto

lemma segments_slash: "CHR ''/'' \<notin> set seg \<Longrightarrow> segments (seg @ CHR ''/'' # p) = seg # segments p"
  by (induction seg) auto

lemma segments_join:
  "list_all plain_segment segs \<Longrightarrow> segs \<noteq> [] \<Longrightarrow> segments (join_segments segs) = segs"
  by (induction segs rule: join_segments.induct) (auto simp: plain_segment_def segments_plain segments_slash)

lemma push_plain:
  "list_all plain_segment st \<Longrightarrow> CHR ''/'' \<notin> set seg \<Longrightarrow> list_all plain_segment (push rooted st seg)"
  by (auto simp: push_def plain_segment_def split: list.splits)

lemma push_no_parent: "''..'' \<notin> set st \<Longrightarrow> ''..'' \<notin> set (push True st seg)"
  by (auto simp: push_def split: list.splits)

lemma foldl_push_plain:
  "list_all plain_segment st \<Longrightarrow> \<forall>seg \<in> set segs. CHR ''/'' \<notin> set seg \<Longrightarrow>
   list_all plain_segment (foldl (push rooted) st segs)"
  by (induction segs arbitrary: st) (auto simp: push_plain)

lemma foldl_push_no_parent: "''..'' \<notin> set st \<Longrightarrow> ''..'' \<notin> set (foldl (push True) st segs)"
  by (induction segs arbitrary: st) (auto simp: push_no_parent)

lemma join_not_rooted: "list_all plain_segment segs \<Longrightarrow> \<not> prefix ''/'' (join_segments segs)"
  by (induction segs rule: join_segments.induct) (auto simp: plain_segment_def neq_Nil_conv)

lemma lexical_clean_no_parent:
  assumes "prefix ''/'' (lexical_clean p)"
  shows "''..'' \<notin> set (segments (lexical_clean p))"
proof -
  let ?st = "rev (foldl (push (is_rooted p)) [] (segments p))"
  have plain: "list_all plain_segment ?st"
    using foldl_push_plain [of "[]" "segments p" "is_rooted p"] segments_no_slash by (auto simp: list_all_iff)
  have rooted: "is_rooted p"
    using assms join_not_rooted [OF plain] by (auto simp: lexical_clean_def Let_def split: if_splits)
  have "''..'' \<notin> set ?st" using rooted foldl_push_no_parent [of "[]" "segments p"] by simp
  then show ?thesis
    using rooted segments_join [OF plain] by (cases "?st = []") (auto simp: lexical_clean_def Let_def)
qed

lemma lexical_path_laws: "path_laws lexical_paths"
proof -
  have "prefix ''/'' (lexical_clean (if is_rooted d then d else ''/work/'' @ d))" for d
    by (auto simp: lexical_clean_def is_rooted_def Let_def)
  then show ?thesis by (auto simp: path_laws_def lexical_paths_def lexical_clean_no_parent)
qed

section \<open>Properties\<close>

text \<open>
  C5. Extraction is confined, for every archive, every behaviour of the file system and whether or
  not it succeeds: each file it opens, writes or deletes is the destination directory or a path
  below it without a parent segment, and each directory it creates is such a path or the parent of
  one.
\<close>

theorem extraction_confined:
  assumes "path_laws P" and "PathAbs P destDir = Ok absPath"
    and "extractTarball T P env tarData destDir s = (r, t)"
  shows "\<exists>new. t = s @ new \<and> list_all (confined P (CleanPath P absPath)) new"
proof -
  let ?base = "CleanPath P absPath"
  have rooted: "prefix ''/'' ?base" using assms(1,2) by (simp add: path_laws_def)
  then have "inside ?base ?base" using assms(1) by (simp add: path_laws_def inside_def)
  then have "adds (confined P ?base) (cmd_then (fs_do env (EnsureDir ?base))
      (\<lambda>_. extract_entries P env ?base (trEvents T tarData) []))"
    using adds_extract_entries [OF assms(1) rooted] by (intro adds_cmd_then adds_fs_do) auto
  moreover have "cmd_then (fs_do env (EnsureDir ?base))
      (\<lambda>_. extract_entries P env ?base (trEvents T tarData) []) s = (r, t)"
    using assms(2,3) by (simp add: extractTarball_def Let_def of_result_def cmd_then_def)
  ultimately show ?thesis unfolding adds_def by blast
qed

definition example_tar :: "tar_event list \<Rightarrow> tar" where
  "example_tar evs = \<lparr>twOutcome = (\<lambda>_ _. None), twBytes = (\<lambda>_. []), trEvents = (\<lambda>_. evs)\<rparr>"

definition example_header :: "string \<Rightarrow> int \<Rightarrow> tar_header" where
  "example_header name mode = \<lparr>hdrName = name, hdrMode = mode, hdrTypeflag = TypeReg, hdrSize = 2\<rparr>"

lemmas example_run_defs = extractTarball_def example_tar_def example_header_def lexical_paths_def
  lexical_clean_def is_rooted_def push_def entry_path_def extract_file_def fs_do_def cmd_then_def
  cmd_map_err_def of_result_def maxFileSize_def PathSeparator_def track_executable_def Let_def

theorem extraction_confined_witness:
  "path_laws lexical_paths \<and> (\<exists>r t new.
     extractTarball (example_tar [TarEntry (example_header ''bin/miner'' 493) [1, 2] None,
       TarEntry (example_header ''../evil'' 493) [3] None]) lexical_paths (\<lambda>_ _. None) [] ''/opt/m'' [] = (r, t)
     \<and> \<not> is_Ok r \<and> t = [] @ new \<and> length new = 4
     \<and> list_all (confined lexical_paths (CleanPath lexical_paths ''/opt/m'')) new)"
proof -
  let ?evs = "[TarEntry (example_header ''bin/miner'' 493) [1, 2] None,
       TarEntry (example_header ''../evil'' 493) [3] None]"
  let ?run = "extractTarball (example_tar ?evs) lexical_paths (\<lambda>_ _. None) [] ''/opt/m'' []"
  have at: "PathAbs lexical_paths ''/opt/m'' = Ok ''/opt/m''" by (simp add: lexical_paths_def is_rooted_def)
  obtain r t where run: "?run = (r, t)" by fastforce
  have "\<not> is_Ok (fst ?run) \<and> length (snd ?run) = 4"
    by (simp add: example_run_defs)
  then show ?thesis
    using extraction_confined [OF lexical_path_laws at run] lexical_path_laws run by auto
qed



text \<open>
  C39. A profile sealed into a bundle is recovered from it with the same password, the bundle
  verifies, and a bundle whose data no longer match the checksum is refused by both extractions
  before anything is decrypted or written. The hypotheses are that opening inverts sealing, and that
  sealed data do not start like JSON.
\<close>

theorem profile_bundle_roundtrip:
  assumes "\<And>t d. timToSigil B t password = Ok d \<Longrightarrow> timFromSigil B d password = Ok t"
    and "\<And>t d. timToSigil B t password = Ok d \<Longrightarrow> \<not> isJSON P d"
    and "CreateProfileBundle B profileJSON name password = Ok bundle"
  shows "VerifyBundle bundle \<and> bName bundle = name
    \<and> ExtractProfileBundle B P bundle password = Ok profileJSON
    \<and> (\<forall>data pw. \<not> VerifyBundle (bundle\<lparr>bData := data\<rparr>) \<longrightarrow>
         (\<exists>e. ExtractProfileBundle B P (bundle\<lparr>bData := data\<rparr>) pw = Fail e) \<and>
         (\<exists>e. ExtractMinerBundle B T P env (bundle\<lparr>bData := data\<rparr>) pw dir s = (Fail e, s)))"
proof -
  obtain t d where sealed: "timToSigil B (t\<lparr>timConfig := profileJSON\<rparr>) password = Ok d"
    and shape: "bundle = new_bundle BundleProfile name d"
    using assms(3) by (auto simp: CreateProfileBundle_def)
  show ?thesis
    using assms(1,2) [OF sealed]
    by (auto simp: shape new_bundle_def VerifyBundle_def ExtractProfileBundle_def ExtractMinerBundle_def of_result_def)
qed

text \<open>A container that is marked by its first byte and carries the configuration in clear.\<close>

definition example_borg :: "unit borg" where
  "example_borg =
     \<lparr>timNew = Ok \<lparr>timConfig = None, timRootFS = ()\<rparr>,
      timToSigil = (\<lambda>t _. Ok (83 # (case timConfig t of None \<Rightarrow> [0] | Some c \<Rightarrow> 1 # c))),
      timFromSigil = (\<lambda>d _. case d of
          _ # tag # c \<Rightarrow> Ok \<lparr>timConfig = (if tag = 0 then None else Some c), timRootFS = ()\<rparr>
        | _ \<Rightarrow> Fail ErrUnexpectedEOF),
      timFromDataNode = (\<lambda>_. Ok \<lparr>timConfig = None, timRootFS = ()\<rparr>),
      dnFromTar = (\<lambda>_. Ok ()),
      dnToTar = (\<lambda>_. Ok [])\<rparr>"

theorem profile_bundle_roundtrip_witness:
  "\<exists>bundle. CreateProfileBundle example_borg (Some [123, 125]) ''p'' ''pw'' = Ok bundle
     \<and> ExtractProfileBundle example_borg lexical_paths bundle ''pw'' = Ok (Some [123, 125])"
proof -
  obtain b where made: "CreateProfileBundle example_borg (Some [123, 125]) ''p'' ''pw'' = Ok b"
    by (simp add: CreateProfileBundle_def example_borg_def)
  have reopen: "timFromSigil example_borg d pw = Ok t" if "timToSigil example_borg t pw = Ok d" for t d pw
    using that by (cases t) (auto simp: example_borg_def split: option.splits)
  have mark: "char_of (unat (83 :: byte)) = CHR ''S''" by code_simp
  have sealed: "\<not> isJSON lexical_paths d" if d: "timToSigil example_borg t pw = Ok d" for t d pw
  proof -
    obtain rest where "d = 83 # rest" using d by (auto simp: example_borg_def)
    then show ?thesis using mark by (simp add: isJSON_def lexical_paths_def string_of_def dropWhile_append3)
  qed
  have "ExtractProfileBundle example_borg lexical_paths b ''pw'' = Ok (Some [123, 125])"
    using profile_bundle_roundtrip [where P = lexical_paths, OF _ _ made] reopen sealed by blast
  then show ?thesis using made by blast
qed

end
