(* ===== verification/Worker_Ops.thy ===== *)
theory Worker_Ops
  imports Bundles
begin

text \<open>
  The worker's message handlers, \<^verbatim>\<open>src/go/node/worker.go\<close>.

  The miner and profile managers are Go interfaces implemented outside the repository: records of
  functions over an application state \<open>'s\<close>. A call of \<^verbatim>\<open>HandleMessage\<close> works on \<open>wstate\<close>: the
  application, the file-system effects of deployments, and the messages handed to \<^verbatim>\<open>conn.Send\<close>.
  \<open>runtime\<close> gives what a call observes: the JSON library, the clock when the handler reads it and when
  the message is stamped, the next UUID, and the text of an error.
\<close>

section \<open>Interfaces\<close>

text \<open>The values a statistics map may hold, by dynamic type.\<close>

datatype stat_value = SFloat f64 | SInt int | SInt64 int | SString string | SBool bool | SOther

datatype raw_stats = StatsMap "string \<Rightarrow> stat_value option" | StatsOther

text \<open>\<open>GetConsoleHistorySince\<close> is \<open>None\<close> for a miner without the historical interface.\<close>

record MinerInstance =
  GetName :: string
  GetType :: string
  GetStats :: "raw_stats result"
  GetConsoleHistory :: "int \<Rightarrow> string list"
  GetConsoleHistorySince :: "(int \<Rightarrow> instant \<Rightarrow> string list) option"

datatype 'any miner_config = ConfigOverride bytes | ConfigProfile 'any

record ('any, 's) MinerManager =
  StartMiner :: "string \<Rightarrow> 'any miner_config \<Rightarrow> ('s, MinerInstance) cmd"
  StopMiner :: "string \<Rightarrow> ('s, unit) cmd"
  ListMiners :: "'s \<Rightarrow> MinerInstance list"
  GetMiner :: "string \<Rightarrow> 's \<Rightarrow> MinerInstance result"

record ('any, 's) ProfileManager =
  GetProfile :: "string \<Rightarrow> 's \<Rightarrow> 'any result"
  SaveProfile :: "'any option \<Rightarrow> ('s, unit) cmd"

record ('any, 's) Worker =
  wkIdentity :: "NodeIdentity option"
  wkMinerManager :: "('any, 's) MinerManager option"
  wkProfileManager :: "('any, 's) ProfileManager option"
  wkStartTime :: instant
  wkDataDir :: string

record 's wstate =
  wsApp :: 's
  wsFiles :: "fs_effect list"
  wsSent :: "Message list"

record 'any runtime =
  rtJSON :: "'any json"
  rtNow :: instant
  rtStamp :: instant
  rtUUID :: string
  rtErrorText :: "go_error \<Rightarrow> string"

record 'dn deploy_env =
  deBorg :: "'dn borg"
  deTar :: tar
  dePaths :: paths
  deFiles :: fs_env

definition ErrIdentityNotInitialized :: go_error where
  "ErrIdentityNotInitialized = E ''node'' ''node identity not initialized'' None"

definition ErrMinerManagerNotConfigured :: go_error where
  "ErrMinerManagerNotConfigured = E ''node'' ''miner manager not configured'' None"

definition NewWorker :: "NodeIdentity option \<Rightarrow> instant \<Rightarrow> string \<Rightarrow> ('any, 's) Worker" where
  "NewWorker node now dataHome =
     \<lparr>wkIdentity = node, wkMinerManager = None, wkProfileManager = None, wkStartTime = now, wkDataDir = dataHome\<rparr>"

definition SetMinerManager :: "('any, 's) MinerManager option \<Rightarrow> ('any, 's) Worker \<Rightarrow> ('any, 's) Worker" where
  "SetMinerManager manager w = w\<lparr>wkMinerManager := manager\<rparr>"

definition SetProfileManager :: "('any, 's) ProfileManager option \<Rightarrow> ('any, 's) Worker \<Rightarrow> ('any, 's) Worker" where
  "SetProfileManager manager w = w\<lparr>wkProfileManager := manager\<rparr>"

text \<open>Running a call of a manager, or of the file system, on its part of the state.\<close>

definition on_app :: "('s, 'a) cmd \<Rightarrow> ('s wstate, 'a) cmd" where
  "on_app c st = (case c (wsApp st) of (r, s) \<Rightarrow> (r, st\<lparr>wsApp := s\<rparr>))"

definition on_files :: "(fs_effect list, 'a) cmd \<Rightarrow> ('s wstate, 'a) cmd" where
  "on_files c st = (case c (wsFiles st) of (r, f) \<Rightarrow> (r, st\<lparr>wsFiles := f\<rparr>))"

text \<open>The error of a call as a value, as \<^verbatim>\<open>if err != nil\<close> inspects it; a panic is not caught.\<close>

definition try_call :: "('s, 'a) cmd \<Rightarrow> ('s, go_error + 'a) cmd" where
  "try_call c s = (case c s of (Ok x, t) \<Rightarrow> (Ok (Inr x), t) | (Fail e, t) \<Rightarrow> (Ok (Inl e), t) | (Panic p, t) \<Rightarrow> (Panic p, t))"

definition reply :: "'any runtime \<Rightarrow> Message \<Rightarrow> MessageType \<Rightarrow> Payload \<Rightarrow> Message result" where
  "reply rt msg t p = Reply (rtJSON rt) (rtUUID rt) (rtStamp rt) msg t (Some p)"

definition UnixMilli :: "instant \<Rightarrow> int" where
  "UnixMilli t = t div 1000000"

section \<open>Handlers\<close>

text \<open>
  Unmarshalling fills a variable of the target's type, so the library returns a payload of the kind
  asked for; the branch for another kind stands for a call that cannot happen.
\<close>

definition parse :: "'any runtime \<Rightarrow> kind \<Rightarrow> string \<Rightarrow> string \<Rightarrow> Message \<Rightarrow> Payload result" where
  "parse rt k op text msg = map_err (\<lambda>e. E op text (Some e)) (ParsePayload (rtJSON rt) k msg)"

definition handlePing :: "'any runtime \<Rightarrow> Message \<Rightarrow> Message result" where
  "handlePing rt msg =
     and_then (parse rt KPing ''Worker.handlePing'' ''invalid ping payload'' msg) (\<lambda>p.
       case p of
         PPing ping \<Rightarrow> reply rt msg MsgPong (PPong \<lparr>poSentAt = piSentAt ping, poReceivedAt = UnixMilli (rtNow rt)\<rparr>)
       | _ \<Rightarrow> Panic NilDereference)"

definition stat_float :: "(string \<Rightarrow> stat_value option) \<Rightarrow> string \<Rightarrow> f64 option" where
  "stat_float m k = (case m k of Some (SFloat x) \<Rightarrow> Some x | _ \<Rightarrow> None)"

definition stat_int :: "(string \<Rightarrow> stat_value option) \<Rightarrow> string \<Rightarrow> int option" where
  "stat_int m k = (case m k of Some (SInt x) \<Rightarrow> Some x | _ \<Rightarrow> None)"

definition stat_int64 :: "(string \<Rightarrow> stat_value option) \<Rightarrow> string \<Rightarrow> int option" where
  "stat_int64 m k = (case m k of Some (SInt64 x) \<Rightarrow> Some x | _ \<Rightarrow> None)"

definition stat_string :: "(string \<Rightarrow> stat_value option) \<Rightarrow> string \<Rightarrow> string option" where
  "stat_string m k = (case m k of Some (SString x) \<Rightarrow> Some x | _ \<Rightarrow> None)"

definition stat_bool :: "(string \<Rightarrow> stat_value option) \<Rightarrow> string \<Rightarrow> bool option" where
  "stat_bool m k = (case m k of Some (SBool x) \<Rightarrow> Some x | _ \<Rightarrow> None)"

definition if_some :: "'a option \<Rightarrow> ('a \<Rightarrow> 'b \<Rightarrow> 'b) \<Rightarrow> 'b \<Rightarrow> 'b" where
  "if_some x f item = (case x of None \<Rightarrow> item | Some v \<Rightarrow> f v item)"

definition blank_item :: "MinerInstance \<Rightarrow> MinerStatsItem" where
  "blank_item miner =
     \<lparr>msName = GetName miner, msType = GetType miner, msIsRunning = True, msHashrate = Fin 0,
      msSharedCount = 0, msInvalidCount = 0, msTemperature = Fin 0, msUptime = 0, msShares = 0,
      msRejected = 0, msPool = [], msAlgorithm = [], msCPUThreads = 0\<rparr>"

definition convertMinerStats :: "MinerInstance \<Rightarrow> raw_stats \<Rightarrow> MinerStatsItem" where
  "convertMinerStats miner rawStats =
     (let item = blank_item miner;
          set_shares = (\<lambda>n it. it\<lparr>msSharedCount := n, msShares := n\<rparr>);
          set_rejected = (\<lambda>n it. it\<lparr>msInvalidCount := n, msRejected := n\<rparr>) in
      case rawStats of
        StatsOther \<Rightarrow> item
      | StatsMap m \<Rightarrow>
          (let item = if_some (stat_float m ''hashrate'') (\<lambda>x it. it\<lparr>msHashrate := x\<rparr>) item;
               item = if_some (stat_int m ''shares'') set_shares item;
               item = if_some (stat_int m ''sharedCount'') set_shares item;
               item = if_some (stat_int m ''rejected'') set_rejected item;
               item = if_some (stat_int m ''invalid'') set_rejected item;
               item = if_some (stat_int m ''uptime'') (\<lambda>n it. it\<lparr>msUptime := n\<rparr>) item;
               item = if_some (stat_int64 m ''uptime'') (\<lambda>n it. it\<lparr>msUptime := n\<rparr>) item;
               item = if_some (stat_string m ''pool'') (\<lambda>x it. it\<lparr>msPool := x\<rparr>) item;
               item = if_some (stat_string m ''algorithm'') (\<lambda>x it. it\<lparr>msAlgorithm := x\<rparr>) item;
               item = if_some (stat_float m ''temp'') (\<lambda>x it. it\<lparr>msTemperature := x\<rparr>) item;
               item = if_some (stat_float m ''temperature'') (\<lambda>x it. it\<lparr>msTemperature := x\<rparr>) item
           in if_some (stat_bool m ''running'') (\<lambda>x it. it\<lparr>msIsRunning := x\<rparr>) item))"

text \<open>Miners whose statistics cannot be read are skipped.\<close>

fun collect_stats :: "MinerInstance list \<Rightarrow> MinerStatsItem list result" where
  "collect_stats [] = Ok []"
| "collect_stats (miner # miners) =
     (case GetStats miner of
        Panic p \<Rightarrow> Panic p
      | Fail _ \<Rightarrow> collect_stats miners
      | Ok raw \<Rightarrow> and_then (collect_stats miners) (\<lambda>items. Ok (convertMinerStats miner raw # items)))"

definition handleGetStats :: "'any runtime \<Rightarrow> ('any, 's) Worker \<Rightarrow> Message \<Rightarrow> 's \<Rightarrow> Message result" where
  "handleGetStats rt w msg s =
     (case wkIdentity w of
        None \<Rightarrow> Fail ErrIdentityNotInitialized
      | Some identity \<Rightarrow>
          and_then (case wkMinerManager w of None \<Rightarrow> Ok [] | Some mm \<Rightarrow> collect_stats (ListMiners mm s)) (\<lambda>items.
          reply rt msg MsgStats (PStats
            \<lparr>spNodeID = niID identity, spNodeName = niName identity, spMiners = items,
             spUptime = trunc64 (Seconds (rtNow rt - wkStartTime w))\<rparr>)))"

definition handleStartMiner :: "'any runtime \<Rightarrow> ('any, 's) Worker \<Rightarrow> Message \<Rightarrow> ('s, Message) cmd" where
  "handleStartMiner rt w msg s =
     (case wkMinerManager w of
        None \<Rightarrow> (Fail ErrMinerManagerNotConfigured, s)
      | Some mm \<Rightarrow>
          cmd_then (of_result (parse rt KStartMiner ''Worker.handleStartMiner'' ''invalid start miner payload'' msg)) (\<lambda>p.
            case p of
              PStartMiner payload \<Rightarrow>
                if smMinerType payload = []
                then of_result (Fail (E ''Worker.handleStartMiner'' ''miner type is required'' None))
                else
                  cmd_then (of_result
                    (case (smConfig payload, wkProfileManager w) of
                       (Some c, _) \<Rightarrow> Ok (ConfigOverride c)
                     | (None, Some pm) \<Rightarrow>
                         and_then (map_err (\<lambda>_. E ''Worker.handleStartMiner'' (''profile not found: '' @ smProfileID payload) None)
                           (GetProfile pm (smProfileID payload) s)) (\<lambda>profile. Ok (ConfigProfile profile))
                     | (None, None) \<Rightarrow>
                         Fail (E ''Worker.handleStartMiner'' ''no config provided and no profile manager configured'' None)))
                  (\<lambda>config.
                  cmd_then (try_call (StartMiner mm (smMinerType payload) config)) (\<lambda>started.
                  of_result (reply rt msg MsgMinerAck (PMinerAck
                    (case started of
                       Inl e \<Rightarrow> \<lparr>maSuccess = False, maName = [], maMinerName = [], maError = rtErrorText rt e\<rparr>
                     | Inr miner \<Rightarrow> \<lparr>maSuccess = True, maName = GetName miner, maMinerName = GetName miner, maError = []\<rparr>)))))
            | _ \<Rightarrow> of_result (Panic NilDereference)) s)"

definition handleStopMiner :: "'any runtime \<Rightarrow> ('any, 's) Worker \<Rightarrow> Message \<Rightarrow> ('s, Message) cmd" where
  "handleStopMiner rt w msg s =
     (case wkMinerManager w of
        None \<Rightarrow> (Fail ErrMinerManagerNotConfigured, s)
      | Some mm \<Rightarrow>
          cmd_then (of_result (parse rt KStopMiner ''Worker.handleStopMiner'' ''invalid stop miner payload'' msg)) (\<lambda>p.
            case p of
              PStopMiner payload \<Rightarrow>
                cmd_then (try_call (StopMiner mm (stMinerName payload))) (\<lambda>stopped.
                of_result (reply rt msg MsgMinerAck (PMinerAck
                  \<lparr>maSuccess = (case stopped of Inl _ \<Rightarrow> False | Inr _ \<Rightarrow> True),
                   maName = stMinerName payload, maMinerName = stMinerName payload,
                   maError = (case stopped of Inl e \<Rightarrow> rtErrorText rt e | Inr _ \<Rightarrow> [])\<rparr>)))
            | _ \<Rightarrow> of_result (Panic NilDereference)) s)"

definition maxLogLines :: int where "maxLogLines = 10000"

definition getMinerConsoleHistory :: "MinerInstance \<Rightarrow> int \<Rightarrow> instant option \<Rightarrow> string list" where
  "getMinerConsoleHistory miner lines since =
     (case since of
        None \<Rightarrow> GetConsoleHistory miner lines
      | Some t \<Rightarrow>
          (case GetConsoleHistorySince miner of
             Some hist \<Rightarrow> hist lines t
           | None \<Rightarrow> GetConsoleHistory miner lines))"

definition handleGetLogs :: "'any runtime \<Rightarrow> ('any, 's) Worker \<Rightarrow> Message \<Rightarrow> 's \<Rightarrow> Message result" where
  "handleGetLogs rt w msg s =
     (case wkMinerManager w of
        None \<Rightarrow> Fail ErrMinerManagerNotConfigured
      | Some mm \<Rightarrow>
          and_then (parse rt KGetLogs ''Worker.handleGetLogs'' ''invalid get logs payload'' msg) (\<lambda>p.
            case p of
              PGetLogs payload \<Rightarrow>
                (let n = (if glLines payload \<le> 0 \<or> glLines payload > maxLogLines then maxLogLines else glLines payload) in
                 and_then (map_err (\<lambda>_. E ''Worker.handleGetLogs'' (''miner not found: '' @ glMinerName payload) None)
                     (GetMiner mm (glMinerName payload) s)) (\<lambda>miner.
                 let since = (if glSince payload > 0 then Some (glSince payload * 1000000) else None);
                     lines = getMinerConsoleHistory miner n since in
                 reply rt msg MsgLogs (PLogs
                   \<lparr>lpMinerName = glMinerName payload, lpLines = lines, lpHasMore = int (length lines) \<ge> n\<rparr>)))
            | _ \<Rightarrow> Panic NilDereference))"

section \<open>Deployment\<close>

definition base64_char :: "nat \<Rightarrow> char" where
  "base64_char n = ''ABCDEFGHIJKLMNOPQRSTUVWXYZabcdefghijklmnopqrstuvwxyz0123456789+/'' ! (n mod 64)"

text \<open>\<^verbatim>\<open>base64.StdEncoding.EncodeToString\<close>.\<close>

fun base64_encode :: "bytes \<Rightarrow> string" where
  "base64_encode [] = []"
| "base64_encode [a] =
     (let n = unat a * 65536 in [base64_char (n div 262144), base64_char (n div 4096), CHR ''='', CHR ''=''])"
| "base64_encode [a, b] =
     (let n = unat a * 65536 + unat b * 256 in
      [base64_char (n div 262144), base64_char (n div 4096), base64_char (n div 64), CHR ''=''])"
| "base64_encode (a # b # c # rest) =
     (let n = unat a * 65536 + unat b * 256 + unat c in
      [base64_char (n div 262144), base64_char (n div 4096), base64_char (n div 64), base64_char n] @ base64_encode rest)"

definition deploy_bundle :: "DeployPayload \<Rightarrow> Bundle" where
  "deploy_bundle payload =
     (case dpBundle payload of
        None \<Rightarrow> \<lparr>bType = dpBundleType payload, bName = dpName payload, bData = dpData payload, bChecksum = dpChecksum payload\<rparr>
      | Some b \<Rightarrow>
          b\<lparr>bName := (if bName b = [] then dpName payload else bName b),
            bType := (if bType b = [] then dpBundleType payload else bType b)\<rparr>)"

text \<open>A nil connection has no secret.\<close>

definition deploy_password :: "bytes option \<Rightarrow> string" where
  "deploy_password secret = (case secret of None \<Rightarrow> [] | Some k \<Rightarrow> if k = [] then [] else base64_encode k)"

definition deploy_dir :: "paths \<Rightarrow> ('any, 's) Worker \<Rightarrow> DeployPayload \<Rightarrow> string" where
  "deploy_dir P w payload =
     PathJoin P [PathJoin P [wkDataDir w, ''lethean-desktop'', ''miners''], dpName payload]"

definition handleDeploy_profile :: "'any runtime \<Rightarrow> 'dn deploy_env \<Rightarrow> ('any, 's) Worker \<Rightarrow> string \<Rightarrow> DeployPayload \<Rightarrow> Bundle \<Rightarrow> Message \<Rightarrow> ('s wstate, Message) cmd" where
  "handleDeploy_profile rt D w password payload b msg =
     (case wkProfileManager w of
        None \<Rightarrow> of_result (Fail (E ''Worker.handleDeploy'' ''profile manager not configured'' None))
      | Some pm \<Rightarrow>
          cmd_then (of_result (map_err (\<lambda>e. E ''Worker.handleDeploy'' ''failed to extract profile bundle'' (Some e))
              (ExtractProfileBundle (deBorg D) (dePaths D) b password))) (\<lambda>profileData.
          cmd_then (of_result (map_err (\<lambda>e. E ''Worker.handleDeploy'' ''invalid profile data JSON'' (Some e))
              (jsUnmarshalAny (rtJSON rt) (case profileData of None \<Rightarrow> [] | Some d \<Rightarrow> d)))) (\<lambda>profile.
          cmd_then (on_app (try_call (SaveProfile pm profile))) (\<lambda>saved.
          of_result (reply rt msg MsgDeployAck (PDeployAck
            (case saved of
               Inl e \<Rightarrow> \<lparr>daSuccess = False, daName = dpName payload, daError = rtErrorText rt e\<rparr>
             | Inr _ \<Rightarrow> \<lparr>daSuccess = True, daName = dpName payload, daError = []\<rparr>)))))))"

text \<open>A profile shipped with a miner is saved if it can be; failures are only logged.\<close>

definition save_shipped_profile :: "'any runtime \<Rightarrow> ('any, 's) Worker \<Rightarrow> bytes option \<Rightarrow> ('s wstate, unit) cmd" where
  "save_shipped_profile rt w profileData =
     (case (profileData, wkProfileManager w) of
        (Some d, Some pm) \<Rightarrow>
          if d = [] then of_result (Ok ())
          else (case jsUnmarshalAny (rtJSON rt) d of
                  Ok profile \<Rightarrow> cmd_then (on_app (try_call (SaveProfile pm profile))) (\<lambda>_. of_result (Ok ()))
                | Fail _ \<Rightarrow> of_result (Ok ())
                | Panic p \<Rightarrow> of_result (Panic p))
      | _ \<Rightarrow> of_result (Ok ()))"

definition handleDeploy_miner :: "'any runtime \<Rightarrow> 'dn deploy_env \<Rightarrow> ('any, 's) Worker \<Rightarrow> string \<Rightarrow> DeployPayload \<Rightarrow> Bundle \<Rightarrow> Message \<Rightarrow> ('s wstate, Message) cmd" where
  "handleDeploy_miner rt D w password payload b msg =
     cmd_then (on_files (cmd_map_err (\<lambda>e. E ''Worker.handleDeploy'' ''failed to extract miner bundle'' (Some e))
         (ExtractMinerBundle (deBorg D) (deTar D) (dePaths D) (deFiles D) b password (deploy_dir (dePaths D) w payload)))) (\<lambda>extracted.
     cmd_then (save_shipped_profile rt w (exProfile extracted)) (\<lambda>_.
     of_result (reply rt msg MsgDeployAck (PDeployAck \<lparr>daSuccess = True, daName = dpName payload, daError = []\<rparr>))))"

definition handleDeploy :: "'any runtime \<Rightarrow> 'dn deploy_env \<Rightarrow> ('any, 's) Worker \<Rightarrow> bytes option \<Rightarrow> Message \<Rightarrow> ('s wstate, Message) cmd" where
  "handleDeploy rt D w secret msg =
     cmd_then (of_result (parse rt KDeploy ''Worker.handleDeploy'' ''invalid deploy payload'' msg)) (\<lambda>p.
       case p of
         PDeploy payload \<Rightarrow>
           (let b = deploy_bundle payload; password = deploy_password secret in
            if bType b = BundleProfile then handleDeploy_profile rt D w password payload b msg
            else if bType b = BundleMiner \<or> bType b = BundleFull then handleDeploy_miner rt D w password payload b msg
            else of_result (Fail (E ''Worker.handleDeploy'' (''unknown bundle type: '' @ dpBundleType payload) None)))
       | _ \<Rightarrow> of_result (Panic NilDereference))"

section \<open>Dispatch\<close>

text \<open>
  \<open>secret\<close> is the connection: \<open>None\<close> for nil, otherwise its shared secret. \<open>conn_send\<close> hands a message
  to \<^verbatim>\<open>conn.Send\<close>, whose result is only logged; on a nil connection the call panics.
\<close>

definition conn_send :: "bytes option \<Rightarrow> Message \<Rightarrow> ('s wstate, unit) cmd" where
  "conn_send secret m st =
     (case secret of None \<Rightarrow> (Panic NilDereference, st) | Some _ \<Rightarrow> (Ok (), st\<lparr>wsSent := wsSent st @ [m]\<rparr>))"

definition worker_handler :: "'any runtime \<Rightarrow> 'dn deploy_env \<Rightarrow> ('any, 's) Worker \<Rightarrow> bytes option \<Rightarrow> Message \<Rightarrow> ('s wstate, Message) cmd option" where
  "worker_handler rt D w secret msg =
     (if mType msg = MsgPing then Some (of_result (handlePing rt msg))
      else if mType msg = MsgGetStats then Some (\<lambda>st. (handleGetStats rt w msg (wsApp st), st))
      else if mType msg = MsgStartMiner then Some (on_app (handleStartMiner rt w msg))
      else if mType msg = MsgStopMiner then Some (on_app (handleStopMiner rt w msg))
      else if mType msg = MsgGetLogs then Some (\<lambda>st. (handleGetLogs rt w msg (wsApp st), st))
      else if mType msg = MsgDeploy then Some (handleDeploy rt D w secret msg)
      else None)"

definition send_error :: "'any runtime \<Rightarrow> ('any, 's) Worker \<Rightarrow> bytes option \<Rightarrow> Message \<Rightarrow> go_error \<Rightarrow> ('s wstate, unit) cmd" where
  "send_error rt w secret msg e =
     (case wkIdentity w of
        None \<Rightarrow> of_result (Ok ())
      | Some identity \<Rightarrow>
          (case NewErrorMessage (rtJSON rt) (rtUUID rt) (rtStamp rt) (niID identity) (mFrom msg)
                  ErrCodeOperationFailed (rtErrorText rt e) (mID msg) of
             Ok m \<Rightarrow> conn_send secret m
           | Fail _ \<Rightarrow> of_result (Ok ())
           | Panic p \<Rightarrow> of_result (Panic p)))"

definition HandleMessage :: "'any runtime \<Rightarrow> 'dn deploy_env \<Rightarrow> ('any, 's) Worker \<Rightarrow> bytes option \<Rightarrow> Message \<Rightarrow> ('s wstate, unit) cmd" where
  "HandleMessage rt D w secret msg =
     (case worker_handler rt D w secret msg of
        None \<Rightarrow> of_result (Ok ())
      | Some h \<Rightarrow>
          cmd_then (try_call h) (\<lambda>r.
            case r of Inl e \<Rightarrow> send_error rt w secret msg e | Inr response \<Rightarrow> conn_send secret response))"

section \<open>Every answer goes back to its request\<close>

text \<open>The type of the reply to each request.\<close>

definition answer_type :: "MessageType \<Rightarrow> MessageType option" where
  "answer_type t =
     (if t = MsgPing then Some MsgPong
      else if t = MsgGetStats then Some MsgStats
      else if t = MsgStartMiner \<or> t = MsgStopMiner then Some MsgMinerAck
      else if t = MsgGetLogs then Some MsgLogs
      else if t = MsgDeploy then Some MsgDeployAck
      else None)"

definition answers :: "Message \<Rightarrow> MessageType \<Rightarrow> Message \<Rightarrow> bool" where
  "answers msg t r \<longleftrightarrow> mType r = t \<and> mTo r = mFrom msg \<and> mReplyTo r = mID msg"

text \<open>\<open>replies t msg c\<close>: the call sends nothing itself, and a message it returns answers \<open>msg\<close>.\<close>

definition replies :: "MessageType \<Rightarrow> Message \<Rightarrow> ('s wstate, Message) cmd \<Rightarrow> bool" where
  "replies t msg c \<longleftrightarrow>
     (\<forall>st r st'. c st = (r, st') \<longrightarrow> wsSent st' = wsSent st \<and> (\<forall>m. r = Ok m \<longrightarrow> answers msg t m))"

definition silent :: "('s wstate, 'a) cmd \<Rightarrow> bool" where
  "silent c \<longleftrightarrow> (\<forall>st. wsSent (snd (c st)) = wsSent st)"

lemma silent_simps [simp]:
  "silent (of_result r)" "silent (Pair r)" "silent (on_app c1)" "silent (on_files c2)"
  by (auto simp: silent_def on_app_def on_files_def split: prod.splits)

lemma silent_cmd_then: "silent c \<Longrightarrow> (\<And>x. silent (f x)) \<Longrightarrow> silent (cmd_then c f)"
  by (auto simp: silent_def cmd_then_def split: prod.splits result.splits) (metis snd_conv)+

lemma replies_cmd_then: "silent c \<Longrightarrow> (\<And>x. replies t msg (f x)) \<Longrightarrow> replies t msg (cmd_then c f)"
  unfolding replies_def silent_def cmd_then_def
  by (auto split: prod.splits result.splits) (metis snd_conv)+

lemma replies_result: "(\<And>m. r = Ok m \<Longrightarrow> answers msg t m) \<Longrightarrow> replies t msg (of_result r)"
  by (simp add: replies_def)

lemma replies_reply: "replies t msg (of_result (reply rt msg t p))"
  by (rule replies_result) (auto simp: reply_def answers_def dest: Reply_Ok)

lemma replies_fail [simp]: "replies t msg (of_result (Fail e))" "replies t msg (of_result (Panic q))"
  by (simp_all add: replies_def)

lemma reply_answers: "reply rt msg t p = Ok m \<Longrightarrow> answers msg t m"
  by (auto simp: reply_def answers_def dest: Reply_Ok)

lemma handlePing_answers: "handlePing rt msg = Ok m \<Longrightarrow> answers msg MsgPong m"
  by (auto simp: handlePing_def) (auto dest: reply_answers split: Payload.splits)

lemma handleGetStats_answers: "handleGetStats rt w msg s = Ok m \<Longrightarrow> answers msg MsgStats m"
  by (auto simp: handleGetStats_def dest: reply_answers split: option.splits)

lemma handleGetLogs_answers: "handleGetLogs rt w msg s = Ok m \<Longrightarrow> answers msg MsgLogs m"
  by (auto simp: handleGetLogs_def split: option.splits) (auto simp: Let_def dest: reply_answers split: Payload.splits)

lemma handleStartMiner_answers: "handleStartMiner rt w msg s = (Ok m, s') \<Longrightarrow> answers msg MsgMinerAck m"
  by (auto simp: handleStartMiner_def elim!: cmd_then_OkE dest!: reply_answers
      split: option.splits Payload.splits if_splits sum.splits)

lemma handleStopMiner_answers: "handleStopMiner rt w msg s = (Ok m, s') \<Longrightarrow> answers msg MsgMinerAck m"
  by (auto simp: handleStopMiner_def elim!: cmd_then_OkE dest!: reply_answers
      split: option.splits Payload.splits sum.splits)

lemma silent_save_shipped: "silent (save_shipped_profile rt w d)"
  by (auto simp: save_shipped_profile_def intro!: silent_cmd_then split: option.splits result.splits)

lemma handleDeploy_replies: "replies MsgDeployAck msg (handleDeploy rt D w secret msg)"
  unfolding handleDeploy_def handleDeploy_profile_def handleDeploy_miner_def Let_def
  by (intro replies_cmd_then silent_simps)
    (auto intro!: replies_cmd_then replies_reply silent_save_shipped split: Payload.splits option.splits)

lemma handlers_reply:
  "replies MsgPong msg (of_result (handlePing rt msg))"
  "replies MsgStats msg (\<lambda>st. (handleGetStats rt w msg (wsApp st), st))"
  "replies MsgMinerAck msg (on_app (handleStartMiner rt w msg))"
  "replies MsgMinerAck msg (on_app (handleStopMiner rt w msg))"
  "replies MsgLogs msg (\<lambda>st. (handleGetLogs rt w msg (wsApp st), st))"
  by (auto simp: replies_def on_app_def handlePing_answers handleGetStats_answers handleGetLogs_answers
      handleStartMiner_answers handleStopMiner_answers split: prod.splits)

lemma worker_handler_replies:
  assumes "worker_handler rt D w secret msg = Some h"
  obtains t where "answer_type (mType msg) = Some t" and "replies t msg h"
  using assms
  by (auto simp: worker_handler_def answer_type_def handlers_reply handleDeploy_replies split: if_splits)

lemma send_error_answers:
  assumes "send_error rt w (Some secret) msg e st = (r, st')"
  shows "wsSent st' = wsSent st \<or> (\<exists>m. wsSent st' = wsSent st @ [m] \<and> answers msg MsgError m)"
    and "wkIdentity w = Some identity \<Longrightarrow> \<forall>p. is_Ok (jsMarshal (rtJSON rt) p) \<Longrightarrow>
      \<exists>m. wsSent st' = wsSent st @ [m] \<and> answers msg MsgError m"
proof -
  show "wsSent st' = wsSent st \<or> (\<exists>m. wsSent st' = wsSent st @ [m] \<and> answers msg MsgError m)"
    using assms by (auto simp: send_error_def conn_send_def answers_def NewErrorMessage_Ok
        split: option.splits result.splits)
  assume ident: "wkIdentity w = Some identity" and marshals: "\<forall>p. is_Ok (jsMarshal (rtJSON rt) p)"
  obtain m where "NewErrorMessage (rtJSON rt) (rtUUID rt) (rtStamp rt) (niID identity) (mFrom msg)
      ErrCodeOperationFailed (rtErrorText rt e) (mID msg) = Ok m"
    using marshals [rule_format, of "PError \<lparr>epCode = ErrCodeOperationFailed, epMessage = rtErrorText rt e, epDetails = []\<rparr>"]
    by (auto simp: NewErrorMessage_def NewMessage_def is_Ok_iff)
  then show "\<exists>m. wsSent st' = wsSent st @ [m] \<and> answers msg MsgError m"
    using assms ident by (auto simp: send_error_def conn_send_def answers_def NewErrorMessage_Ok)
qed


definition example_ping :: Message where
  "example_ping = \<lparr>mID = ''q1'', mType = MsgPing, mFrom = ''ctl'', mTo = ''wrk'', mTimestamp = Some 5,
     mPayload = Some [], mReplyTo = []\<rparr>"

definition example_runtime :: "Payload list \<Rightarrow> unit runtime" where
  "example_runtime ps =
     \<lparr>rtJSON = table_json ps, rtNow = 7000000, rtStamp = 8000000, rtUUID = ''r1'', rtErrorText = (\<lambda>_. ''error'')\<rparr>"

definition example_deploy_env :: "unit deploy_env" where
  "example_deploy_env =
     \<lparr>deBorg = example_borg, deTar = example_tar [], dePaths = lexical_paths, deFiles = (\<lambda>_ _. None)\<rparr>"

definition example_identity :: NodeIdentity where
  "example_identity = \<lparr>niID = ''wrk'', niName = ''rig'', niPublicKey = ''pk'', niCreatedAt = None, niRole = RoleWorker\<rparr>"

definition example_worker :: "(unit, unit) Worker" where
  "example_worker = NewWorker (Some example_identity) 0 ''/data''"

lemmas example_worker_defs = example_ping_def example_runtime_def example_deploy_env_def
  example_identity_def example_worker_def NewWorker_def


end
