(* ===== verification/Controller_Ops.thy ===== *)
theory Controller_Ops
  imports Worker_Ops Peer_Registry
begin

text \<open>
  The controller, \<^verbatim>\<open>src/go/node/controller.go\<close>: the table of pending requests shared by
  \<^verbatim>\<open>sendRequest\<close> and \<^verbatim>\<open>handleResponse\<close>, as a step relation over their atomic actions, and the
  remote operations built on a request.
\<close>

section \<open>Pending requests\<close>

text \<open>
  A call of \<^verbatim>\<open>sendRequest\<close> has its own response channel, so a channel is named by the number of its
  request. A request passes through the phases below; \<open>Returned\<close> and \<open>Unlisted\<close> are the two halves of
  its deferred cleanup. A call of \<^verbatim>\<open>handleResponse\<close> that found a channel holds it, with the message,
  between releasing the mutex and sending.
\<close>

datatype phase =
    Registered
  | Waiting
  | Returned "Message result"
  | Unlisted "Message result"
  | Finished "Message result"

record table =
  pending :: "string \<Rightarrow> nat option"
  requests :: "nat \<Rightarrow> (string \<times> phase) option"
  buffer :: "nat \<Rightarrow> Message option"
  closed_chans :: "nat set"
  holding :: "nat \<Rightarrow> (nat \<times> Message) option"
  crash :: "panic option"

definition empty_table :: table where
  "empty_table = \<lparr>pending = Map.empty, requests = Map.empty, buffer = Map.empty, closed_chans = {},
     holding = Map.empty, crash = None\<rparr>"

definition send_failed :: "go_error \<Rightarrow> go_error" where
  "send_failed e = E ''Controller.sendRequest'' ''failed to send message'' (Some e)"

definition request_timeout :: go_error where
  "request_timeout = E ''Controller.sendRequest'' ''request timeout'' None"

text \<open>The send of a message on a buffered channel in a \<^verbatim>\<open>select\<close> with a default branch.\<close>

definition offer :: "nat \<Rightarrow> Message \<Rightarrow> table \<Rightarrow> table" where
  "offer n m s =
     (if n \<in> closed_chans s then s\<lparr>crash := Some SendOnClosedChannel\<rparr>
      else if buffer s n = None then s\<lparr>buffer := (buffer s)(n \<mapsto> m)\<rparr>
      else s)"

text \<open>The lookup of \<^verbatim>\<open>handleResponse\<close>, run by goroutine \<open>h\<close>.\<close>

definition lookup_response :: "nat \<Rightarrow> Message \<Rightarrow> table \<Rightarrow> table" where
  "lookup_response h m s =
     (if mReplyTo m = [] then s
      else case pending s (mReplyTo m) of
          None \<Rightarrow> s
        | Some n \<Rightarrow> s\<lparr>pending := (pending s)(mReplyTo m := None), holding := (holding s)(h \<mapsto> (n, m))\<rparr>)"

definition set_phase :: "nat \<Rightarrow> string \<Rightarrow> phase \<Rightarrow> table \<Rightarrow> table" where
  "set_phase n i ph s = s\<lparr>requests := (requests s)(n \<mapsto> (i, ph))\<rparr>"

text \<open>One action of request \<open>n\<close>.\<close>

inductive request_step :: "nat \<Rightarrow> table \<Rightarrow> table \<Rightarrow> bool" where
  sent: "requests s n = Some (i, Registered) \<Longrightarrow> request_step n s (set_phase n i Waiting s)"
| not_sent: "requests s n = Some (i, Registered) \<Longrightarrow>
    request_step n s (set_phase n i (Returned (Fail (send_failed e))) s)"
| receive: "requests s n = Some (i, Waiting) \<Longrightarrow> buffer s n = Some m \<Longrightarrow>
    request_step n s (set_phase n i (Returned (Ok m)) (s\<lparr>buffer := (buffer s)(n := None)\<rparr>))"
| timeout: "requests s n = Some (i, Waiting) \<Longrightarrow>
    request_step n s (set_phase n i (Returned (Fail request_timeout)) s)"
| unlist: "requests s n = Some (i, Returned r) \<Longrightarrow>
    request_step n s (set_phase n i (Unlisted r) (s\<lparr>pending := (pending s)(i := None)\<rparr>))"
| close_chan: "requests s n = Some (i, Unlisted r) \<Longrightarrow>
    request_step n s (set_phase n i (Finished r) (s\<lparr>closed_chans := insert n (closed_chans s)\<rparr>))"

text \<open>An action of the whole controller; nothing follows a panic.\<close>

inductive table_step :: "table \<Rightarrow> table \<Rightarrow> bool" where
  begin_request: "crash s = None \<Longrightarrow> requests s n = None \<Longrightarrow>
    table_step s (set_phase n i Registered (s\<lparr>pending := (pending s)(i \<mapsto> n)\<rparr>))"
| step_request: "crash s = None \<Longrightarrow> request_step n s s' \<Longrightarrow> table_step s s'"
| lookup: "crash s = None \<Longrightarrow> holding s h = None \<Longrightarrow> table_step s (lookup_response h m s)"
| deliver: "crash s = None \<Longrightarrow> holding s h = Some (n, m) \<Longrightarrow>
    table_step s (offer n m (s\<lparr>holding := (holding s)(h := None)\<rparr>))"

inductive_simps request_step_iff: "request_step n s s'"

definition reachable :: "table \<Rightarrow> bool" where
  "reachable s \<longleftrightarrow> table_step\<^sup>*\<^sup>* empty_table s"

subsection \<open>Invariant\<close>

text \<open>
  A pending entry names a live request of that identifier whose channel is empty and held by nobody;
  what is held, buffered or received for a request replies to it; a channel has one holder, and none
  once something is buffered.
\<close>

definition outcome_of :: "phase \<Rightarrow> Message result option" where
  "outcome_of ph = (case ph of Returned r \<Rightarrow> Some r | Unlisted r \<Rightarrow> Some r | Finished r \<Rightarrow> Some r | _ \<Rightarrow> None)"

definition listed :: "phase \<Rightarrow> bool" where
  "listed ph = (case ph of Unlisted _ \<Rightarrow> False | Finished _ \<Rightarrow> False | _ \<Rightarrow> True)"

definition received :: "table \<Rightarrow> nat \<Rightarrow> bool" where
  "received s n \<longleftrightarrow> (\<exists>i ph m. requests s n = Some (i, ph) \<and> outcome_of ph = Some (Ok m))"

definition pending_ok :: "table \<Rightarrow> string \<Rightarrow> nat \<Rightarrow> bool" where
  "pending_ok s i n \<longleftrightarrow> (\<exists>ph. requests s n = Some (i, ph) \<and> listed ph) \<and> buffer s n = None
     \<and> \<not> received s n \<and> (\<forall>h m. holding s h \<noteq> Some (n, m))"

definition holding_ok :: "table \<Rightarrow> nat \<Rightarrow> nat \<Rightarrow> Message \<Rightarrow> bool" where
  "holding_ok s h n m \<longleftrightarrow> (\<exists>ph. requests s n = Some (mReplyTo m, ph)) \<and> buffer s n = None
     \<and> \<not> received s n \<and> (\<forall>h' m'. holding s h' = Some (n, m') \<longrightarrow> h' = h)"

definition buffer_ok :: "table \<Rightarrow> nat \<Rightarrow> Message \<Rightarrow> bool" where
  "buffer_ok s n m \<longleftrightarrow> (\<exists>ph. requests s n = Some (mReplyTo m, ph)) \<and> \<not> received s n"

definition request_ok :: "string \<times> phase \<Rightarrow> bool" where
  "request_ok r \<longleftrightarrow> (\<forall>m. outcome_of (snd r) = Some (Ok m) \<longrightarrow> mReplyTo m = fst r)"

definition table_inv :: "table \<Rightarrow> bool" where
  "table_inv s \<longleftrightarrow>
     (\<forall>i n. pending s i = Some n \<longrightarrow> pending_ok s i n) \<and>
     (\<forall>h n m. holding s h = Some (n, m) \<longrightarrow> holding_ok s h n m) \<and>
     (\<forall>n m. buffer s n = Some m \<longrightarrow> buffer_ok s n m) \<and>
     (\<forall>n r. requests s n = Some r \<longrightarrow> request_ok r) \<and>
     (\<forall>n \<in> closed_chans s. \<exists>i r. requests s n = Some (i, Finished r))"

lemmas table_defs = set_phase_def offer_def lookup_response_def received_def outcome_of_def listed_def

lemmas ok_defs = pending_ok_def holding_ok_def buffer_ok_def request_ok_def

lemma table_inv_empty: "table_inv empty_table"
  by (simp add: table_inv_def empty_table_def)

lemma table_invI:
  assumes "\<And>i n. pending s i = Some n \<Longrightarrow> pending_ok s i n"
    and "\<And>h n m. holding s h = Some (n, m) \<Longrightarrow> holding_ok s h n m"
    and "\<And>n m. buffer s n = Some m \<Longrightarrow> buffer_ok s n m"
    and "\<And>n r. requests s n = Some r \<Longrightarrow> request_ok r"
    and "\<And>n. n \<in> closed_chans s \<Longrightarrow> \<exists>i r. requests s n = Some (i, Finished r)"
  shows "table_inv s"
  using assms by (simp add: table_inv_def)

lemma table_invD:
  assumes "table_inv s"
  shows "pending s i = Some n \<Longrightarrow> pending_ok s i n"
    and "holding s h = Some (n, m) \<Longrightarrow> holding_ok s h n m"
    and "buffer s n = Some m \<Longrightarrow> buffer_ok s n m"
    and "requests s n = Some r \<Longrightarrow> request_ok r"
    and "n \<in> closed_chans s \<Longrightarrow> \<exists>i r. requests s n = Some (i, Finished r)"
  using assms unfolding table_inv_def by blast+

text \<open>A request that was never begun leaves no trace in the table.\<close>

lemma unused_request:
  assumes "table_inv s" and "requests s n = None"
  shows "pending s i \<noteq> Some n" "holding s h \<noteq> Some (n, m)" "buffer s n = None" "n \<notin> closed_chans s"
  using table_invD(1) [OF assms(1), of i n] table_invD(2) [OF assms(1), of h n m]
    table_invD(3) [OF assms(1), of n] table_invD(5) [OF assms(1), of n] assms(2)
  by (cases "buffer s n"; auto simp: ok_defs)+

lemma table_inv_begin:
  assumes inv: "table_inv s" and fresh: "requests s n = None"
  shows "table_inv (set_phase n i Registered (s\<lparr>pending := (pending s)(i \<mapsto> n)\<rparr>))"
  (is "table_inv ?s")
proof (rule table_invI)
  note new = unused_request [OF inv fresh]
  show "pending_ok ?s j k" if "pending ?s j = Some k" for j k
  proof (cases "j = i")
    case True
    then show ?thesis using that new by (auto simp: ok_defs table_defs)
  next
    case False
    then have "pending s j = Some k" using that by (simp add: set_phase_def)
    from table_invD(1) [OF inv this] this show ?thesis using new(1)
      by (auto simp: ok_defs table_defs)
  qed
  show "holding_ok ?s h k m" if "holding ?s h = Some (k, m)" for h k m
  proof -
    have "holding s h = Some (k, m)" using that by (simp add: set_phase_def)
    from table_invD(2) [OF inv this] this show ?thesis using new(2)
      by (auto simp: ok_defs table_defs)
  qed
  show "buffer_ok ?s k m" if "buffer ?s k = Some m" for k m
  proof -
    have "buffer s k = Some m" using that by (simp add: set_phase_def)
    from table_invD(3) [OF inv this] this show ?thesis using new(3)
      by (auto simp: ok_defs table_defs)
  qed
  show "request_ok r" if "requests ?s k = Some r" for k r
    using table_invD(4) [OF inv, of k r] that by (auto simp: ok_defs table_defs split: if_splits)
  show "\<exists>i r. requests ?s k = Some (i, Finished r)" if "k \<in> closed_chans ?s" for k
    using table_invD(5) [OF inv, of k] that new(4) by (auto simp: set_phase_def)
qed

lemma table_inv_lookup:
  assumes inv: "table_inv s" and free: "holding s h = None"
  shows "table_inv (lookup_response h m s)"
proof (cases "mReplyTo m = [] \<or> pending s (mReplyTo m) = None")
  case True
  then show ?thesis using inv by (auto simp: lookup_response_def)
next
  case False
  then obtain n where n: "pending s (mReplyTo m) = Some n" by auto
  let ?s = "s\<lparr>pending := (pending s)(mReplyTo m := None), holding := (holding s)(h \<mapsto> (n, m))\<rparr>"
  have at: "pending_ok s (mReplyTo m) n" using table_invD(1) [OF inv n] .
  have "table_inv ?s"
  proof (rule table_invI)
    show "pending_ok ?s j k" if "pending ?s j = Some k" for j k
    proof -
      from that have j: "pending s j = Some k" "j \<noteq> mReplyTo m" by (auto split: if_splits)
      from table_invD(1) [OF inv j(1)] at j(2) show ?thesis by (auto simp: ok_defs received_def)
    qed
    show "holding_ok ?s g k x" if "holding ?s g = Some (k, x)" for g k x
    proof (cases "g = h")
      case True
      then show ?thesis using that at by (auto simp: ok_defs received_def)
    next
      case False
      then have "holding s g = Some (k, x)" using that by simp
      from table_invD(2) [OF inv this] this at free show ?thesis by (auto simp: ok_defs received_def)
    qed
    show "buffer_ok ?s k x" if "buffer ?s k = Some x" for k x
      using table_invD(3) [OF inv, of k x] that by (simp add: ok_defs received_def)
    show "request_ok r" if "requests ?s k = Some r" for k r
      using table_invD(4) [OF inv, of k r] that by simp
    show "\<exists>i r. requests ?s k = Some (i, Finished r)" if "k \<in> closed_chans ?s" for k
      using table_invD(5) [OF inv, of k] that by simp
  qed
  then show ?thesis using False n by (simp add: lookup_response_def)
qed

lemma table_inv_deliver:
  assumes inv: "table_inv s" and held: "holding s h = Some (n, m)"
  shows "table_inv (offer n m (s\<lparr>holding := (holding s)(h := None)\<rparr>))"
proof -
  let ?s = "s\<lparr>holding := (holding s)(h := None)\<rparr>"
  have at: "holding_ok s h n m" using table_invD(2) [OF inv held] .
  have inv': "table_inv ?s"
    using table_invD [OF inv] by (intro table_invI) (auto simp: ok_defs received_def split: if_splits)
  have gone: "holding ?s g \<noteq> Some (n, x)" for g x using at by (auto simp: ok_defs)
  have not_pending: "pending ?s j \<noteq> Some n" for j
    using table_invD(1) [OF inv, of j n] held by (auto simp: ok_defs)
  have filled: "table_inv (?s\<lparr>buffer := (buffer ?s)(n \<mapsto> m)\<rparr>)" (is "table_inv ?t")
  proof (rule table_invI)
    show "pending_ok ?t j k" if "pending ?t j = Some k" for j k
      using table_invD(1) [OF inv', of j k] that not_pending [of j] by (auto simp: ok_defs received_def)
    show "holding_ok ?t g k x" if "holding ?t g = Some (k, x)" for g k x
      using table_invD(2) [OF inv', of g k x] that gone [of g x] by (auto simp: ok_defs received_def)
    show "buffer_ok ?t k x" if "buffer ?t k = Some x" for k x
      using table_invD(3) [OF inv', of k x] that at by (auto simp: ok_defs received_def split: if_splits)
    show "request_ok r" if "requests ?t k = Some r" for k r
      using table_invD(4) [OF inv', of k r] that by simp
    show "\<exists>i r. requests ?t k = Some (i, Finished r)" if "k \<in> closed_chans ?t" for k
      using table_invD(5) [OF inv', of k] that by simp
  qed
  have "table_inv (?s\<lparr>crash := c\<rparr>)" for c
    using table_invD [OF inv'] by (intro table_invI) (simp_all add: ok_defs received_def)
  then show ?thesis using filled inv' by (simp add: offer_def)
qed

text \<open>A request may change phase if a received message replies to it and took the only token.\<close>

lemma table_inv_set_phase:
  assumes inv: "table_inv s" and at: "requests s n = Some (i, ph)"
    and unlisted: "listed ph' \<or> (\<forall>j. pending s j \<noteq> Some n)"
    and got: "\<And>m. outcome_of ph' = Some (Ok m) \<Longrightarrow> mReplyTo m = i
      \<and> (received s n \<or> (\<forall>j. pending s j \<noteq> Some n) \<and> (\<forall>h x. holding s h \<noteq> Some (n, x)) \<and> buffer s n = None)"
    and fin: "n \<in> closed_chans s \<Longrightarrow> \<exists>r. ph' = Finished r"
  shows "table_inv (set_phase n i ph' s)" (is "table_inv ?s")
proof (rule table_invI)
  have same: "received ?s k \<longleftrightarrow> received s k" if "k \<noteq> n" for k
    using that by (simp add: received_def set_phase_def)
  have got_n: "received ?s n \<longleftrightarrow> (\<exists>m. outcome_of ph' = Some (Ok m))"
    by (auto simp: received_def set_phase_def)
  have other: "holding ?s = holding s" "pending ?s = pending s" "buffer ?s = buffer s" "closed_chans ?s = closed_chans s"
    "requests ?s n = Some (i, ph')" "\<And>k. k \<noteq> n \<Longrightarrow> requests ?s k = requests s k"
    by (simp_all add: set_phase_def)
  show "pending_ok ?s j k" if "pending ?s j = Some k" for j k
    using table_invD(1) [OF inv, of j k] that at unlisted got got_n same [of k] other
    by (cases "k = n") (auto simp: ok_defs)
  show "holding_ok ?s g k x" if "holding ?s g = Some (k, x)" for g k x
    using table_invD(2) [OF inv, of g k x] that at got got_n same [of k] other
    by (cases "k = n") (auto simp: ok_defs)
  show "buffer_ok ?s k x" if "buffer ?s k = Some x" for k x
    using table_invD(3) [OF inv, of k x] that at got got_n same [of k] other
    by (cases "k = n") (auto simp: ok_defs)
  show "request_ok r" if "requests ?s k = Some r" for k r
    using table_invD(4) [OF inv, of k r] that got other by (cases "k = n") (auto simp: ok_defs)
  show "\<exists>i r. requests ?s k = Some (i, Finished r)" if "k \<in> closed_chans ?s" for k
    using table_invD(5) [OF inv, of k] that fin other by (cases "k = n") auto
qed

lemma open_channel:
  assumes "table_inv s" and "requests s n = Some (i, ph)" and "\<And>r. ph \<noteq> Finished r"
  shows "n \<notin> closed_chans s"
  using table_invD(5) [OF assms(1), of n] assms(2,3) by auto

lemma table_inv_unlist:
  assumes inv: "table_inv s"
  shows "table_inv (s\<lparr>pending := (pending s)(i := None)\<rparr>)"
  using table_invD [OF inv] by (intro table_invI) (auto simp: ok_defs received_def split: if_splits)

lemma table_inv_take:
  assumes inv: "table_inv s"
  shows "table_inv (s\<lparr>buffer := (buffer s)(n := None)\<rparr>)"
  using table_invD [OF inv] by (intro table_invI) (auto simp: ok_defs received_def split: if_splits)

lemma table_inv_close:
  assumes inv: "table_inv s" and "requests s n = Some (i, Finished r)"
  shows "table_inv (s\<lparr>closed_chans := insert n (closed_chans s)\<rparr>)"
  using table_invD [OF inv] assms(2) by (intro table_invI) (auto simp: ok_defs received_def)

lemma pending_id: "table_inv s \<Longrightarrow> requests s n = Some (i, ph) \<Longrightarrow> pending s j = Some n \<Longrightarrow> j = i"
  using table_invD(1) [of s j n] by (auto simp: ok_defs)

lemma table_inv_request_step:
  assumes "request_step n s s'" and inv: "table_inv s"
  shows "table_inv s'"
  using assms(1)
proof (cases rule: request_step.cases)
  case (sent i)
  then show ?thesis using open_channel [OF inv sent(2)]
    by (auto intro!: table_inv_set_phase [OF inv sent(2)] simp: listed_def outcome_of_def)
next
  case (not_sent i e)
  then show ?thesis using open_channel [OF inv not_sent(2)]
    by (auto intro!: table_inv_set_phase [OF inv not_sent(2)] simp: listed_def outcome_of_def)
next
  case (timeout i)
  then show ?thesis using open_channel [OF inv timeout(2)]
    by (auto intro!: table_inv_set_phase [OF inv timeout(2)] simp: listed_def outcome_of_def)
next
  case (receive i m)
  let ?s = "s\<lparr>buffer := (buffer s)(n := None)\<rparr>"
  have "mReplyTo m = i" using table_invD(3) [OF inv receive(3)] receive(2) by (simp add: ok_defs)
  moreover have "pending s j \<noteq> Some n" "holding s h \<noteq> Some (n, x)" for j h x
    using table_invD(1) [OF inv, of j n] table_invD(2) [OF inv, of h n x] receive(3) by (auto simp: ok_defs)
  ultimately show ?thesis unfolding receive(1)
    using open_channel [OF inv receive(2)] receive(2)
    by (intro table_inv_set_phase [OF table_inv_take [OF inv]]) (auto simp: listed_def outcome_of_def)
next
  case (unlist i r)
  let ?s = "s\<lparr>pending := (pending s)(i := None)\<rparr>"
  have "received ?s n" if "r = Ok m" for m
    using that unlist(2) by (auto simp: received_def outcome_of_def)
  moreover have "mReplyTo m = i" if "r = Ok m" for m
    using that table_invD(4) [OF inv unlist(2)] by (simp add: ok_defs outcome_of_def)
  ultimately show ?thesis unfolding unlist(1)
    using open_channel [OF inv unlist(2)] unlist(2) pending_id [OF inv unlist(2)]
    by (intro table_inv_set_phase [OF table_inv_unlist [OF inv]]) (auto simp: listed_def outcome_of_def)
next
  case (close_chan i r)
  have "received s n" if "r = Ok m" for m
    using that close_chan(2) by (auto simp: received_def outcome_of_def)
  moreover have "mReplyTo m = i" if "r = Ok m" for m
    using that table_invD(4) [OF inv close_chan(2)] by (simp add: ok_defs outcome_of_def)
  moreover have "pending s j \<noteq> Some n" for j
    using table_invD(1) [OF inv, of j n] close_chan(2) by (auto simp: ok_defs listed_def)
  ultimately have "table_inv (set_phase n i (Finished r) s)"
    using close_chan(2) by (intro table_inv_set_phase [OF inv]) (auto simp: outcome_of_def)
  from table_inv_close [OF this, of n i r] show ?thesis unfolding close_chan(1) by (cases s) (simp add: set_phase_def)
qed

lemma table_inv_step: "table_step s s' \<Longrightarrow> table_inv s \<Longrightarrow> table_inv s'"
  by (cases rule: table_step.cases)
    (auto intro: table_inv_begin table_inv_request_step table_inv_lookup table_inv_deliver)

lemma reachable_inv: "reachable s \<Longrightarrow> table_inv s"
  unfolding reachable_def by (induction rule: rtranclp_induct) (auto intro: table_inv_empty table_inv_step)

subsection \<open>Properties\<close>

text \<open>
  C8. In every interleaving of requests, timeouts and arriving responses: a message a request
  returned replies to that request; a finished request has no entry left in the table; and a response
  being delivered finds the channel's buffer empty, so no response is lost to the default branch.
\<close>

theorem responses_correlated:
  assumes "reachable s"
  shows "(\<forall>n i m. requests s n = Some (i, Finished (Ok m)) \<longrightarrow> mReplyTo m = i)
    \<and> (\<forall>n i r j. requests s n = Some (i, Finished r) \<longrightarrow> pending s j \<noteq> Some n)
    \<and> (\<forall>h n m. holding s h = Some (n, m) \<longrightarrow> buffer s n = None)"
proof -
  note inv = table_invD [OF reachable_inv [OF assms]]
  have "mReplyTo m = i" if "requests s n = Some (i, Finished (Ok m))" for n i m
    using inv(4) [OF that] by (simp add: ok_defs outcome_of_def)
  moreover have "pending s j \<noteq> Some n" if "requests s n = Some (i, Finished r)" for n i r j
    using inv(1) [of j n] that by (auto simp: ok_defs listed_def)
  moreover have "buffer s n = None" if "holding s h = Some (n, m)" for h n m
    using inv(2) [OF that] by (simp add: ok_defs)
  ultimately show ?thesis by blast
qed

definition example_response :: Message where
  "example_response = \<lparr>mID = ''r1'', mType = MsgPong, mFrom = ''wrk'', mTo = ''ctl'', mTimestamp = None,
     mPayload = None, mReplyTo = ''q1''\<rparr>"

text \<open>The steps of a request \<open>i\<close>, numbered \<open>n\<close>, that sends, and of goroutine \<open>h\<close> that answers it.\<close>

definition after_lookup :: "nat \<Rightarrow> nat \<Rightarrow> Message \<Rightarrow> table" where
  "after_lookup n h m = empty_table\<lparr>requests := [n \<mapsto> (mReplyTo m, Waiting)], holding := [h \<mapsto> (n, m)]\<rparr>"

lemma reachable_step: "reachable s \<Longrightarrow> table_step s s' \<Longrightarrow> reachable s'"
  unfolding reachable_def by (rule rtranclp.rtrancl_into_rtrancl)

lemma reachable_request: "reachable s \<Longrightarrow> crash s = None \<Longrightarrow> request_step n s s' \<Longrightarrow> reachable s'"
  using reachable_step step_request by blast

lemma reachable_lookup:
  assumes "mReplyTo m \<noteq> []"
  shows "reachable (after_lookup n h m)"
proof -
  let ?i = "mReplyTo m"
  let ?s1 = "set_phase n ?i Registered (empty_table\<lparr>pending := (pending empty_table)(?i \<mapsto> n)\<rparr>)"
  let ?s2 = "set_phase n ?i Waiting ?s1"
  have "reachable empty_table" by (simp add: reachable_def)
  then have 1: "reachable ?s1"
    by (rule reachable_step) (rule begin_request, simp_all add: empty_table_def)
  then have 2: "reachable ?s2"
    by (rule reachable_request) (simp add: empty_table_def set_phase_def, rule sent, simp add: set_phase_def)
  then have "reachable (lookup_response h m ?s2)"
    by (rule reachable_step) (rule lookup, simp_all add: empty_table_def set_phase_def)
  then show ?thesis
    using assms by (simp add: lookup_response_def set_phase_def empty_table_def after_lookup_def)
qed

theorem responses_correlated_witness:
  "reachable (after_lookup 0 0 example_response)
   \<and> holding (after_lookup 0 0 example_response) 0 = Some (0, example_response)
   \<and> buffer (after_lookup 0 0 example_response) 0 = None"
proof -
  have r: "reachable (after_lookup 0 0 example_response)" by (rule reachable_lookup) (simp add: example_response_def)
  have h: "holding (after_lookup 0 0 example_response) 0 = Some (0, example_response)" by (simp add: after_lookup_def)
  from responses_correlated [OF r] r h show ?thesis by blast
qed

fun steps_left :: "phase \<Rightarrow> nat" where
  "steps_left Registered = 4"
| "steps_left Waiting = 3"
| "steps_left (Returned _) = 2"
| "steps_left (Unlisted _) = 1"
| "steps_left (Finished _) = 0"



text \<open>
  The guard in \<^verbatim>\<open>handleResponse\<close> does not protect against a closed channel: for every response
  there is an interleaving in which its request times out and cleans up between the lookup and the
  send, and the send panics.
\<close>

theorem late_response_panics:
  fixes m :: Message
  assumes "mReplyTo m \<noteq> []"
  shows "\<exists>s s' h n. reachable s \<and> holding s h = Some (n, m) \<and> table_step s s'
    \<and> crash s' = Some SendOnClosedChannel"
proof -
  let ?s0 = "after_lookup 0 0 m" and ?i = "mReplyTo m" and ?r = "Fail request_timeout"
  let ?s1 = "set_phase 0 ?i (Returned ?r) ?s0"
  let ?s2 = "set_phase 0 ?i (Unlisted ?r) (?s1\<lparr>pending := (pending ?s1)(?i := None)\<rparr>)"
  let ?s3 = "set_phase 0 ?i (Finished ?r) (?s2\<lparr>closed_chans := insert 0 (closed_chans ?s2)\<rparr>)"
  let ?s4 = "offer 0 m (?s3\<lparr>holding := (holding ?s3)(0 := None)\<rparr>)"
  note defs = after_lookup_def empty_table_def set_phase_def
  have "reachable ?s0" using assms by (rule reachable_lookup)
  then have "reachable ?s1" by (rule reachable_request) (simp add: defs, rule timeout, simp add: defs)
  then have "reachable ?s2" by (rule reachable_request) (simp add: defs, rule unlist, simp add: defs)
  then have "reachable ?s3" by (rule reachable_request) (simp add: defs, rule close_chan, simp add: defs)
  moreover have held: "holding ?s3 0 = Some (0, m)" and "crash ?s3 = None" by (simp_all add: defs)
  then have "table_step ?s3 ?s4" by (intro deliver)
  moreover have "crash ?s4 = Some SendOnClosedChannel" by (simp add: offer_def set_phase_def)
  ultimately show ?thesis using held by blast
qed

theorem late_response_panics_witness:
  "\<exists>s s' h n. reachable s \<and> holding s h = Some (n, example_response) \<and> table_step s s'
     \<and> crash s' = Some SendOnClosedChannel"
  using late_response_panics [of example_response] by (simp add: example_response_def)

section \<open>Remote operations\<close>

text \<open>
  An operation builds a message and hands it to \<^verbatim>\<open>sendRequest\<close>. The state \<open>'s\<close> is the controller's
  node; \<open>transport\<close> holds the calls \<^verbatim>\<open>sendRequest\<close> makes on the transport, \<open>tpAwait\<close> being the wait
  for the response or the timeout analysed above. \<open>request\<close>, in the operations, is \<^verbatim>\<open>sendRequest\<close>.
\<close>

record 's transport =
  tpConnected :: "string \<Rightarrow> 's \<Rightarrow> bool"
  tpGetPeer :: "string \<Rightarrow> 's \<Rightarrow> Peer option"
  tpConnect :: "Peer \<Rightarrow> ('s, string) cmd"
  tpSend :: "string \<Rightarrow> Message \<Rightarrow> ('s, unit) cmd"
  tpAwait :: "string \<Rightarrow> duration \<Rightarrow> ('s, Message) cmd"
  tpClose :: "string \<Rightarrow> ('s, unit) cmd"

definition sendRequest :: "'s transport \<Rightarrow> string \<Rightarrow> Message \<Rightarrow> duration \<Rightarrow> ('s, Message) cmd" where
  "sendRequest T peerID msg limit s =
     cmd_then
       (if tpConnected T peerID s then of_result (Ok (peerID, msg))
        else case tpGetPeer T peerID s of
            None \<Rightarrow> of_result (Fail (E ''Controller.sendRequest'' (''peer not found: '' @ peerID) None))
          | Some peer \<Rightarrow>
              cmd_then (cmd_map_err (\<lambda>e. E ''Controller.sendRequest'' ''failed to connect to peer'' (Some e)) (tpConnect T peer))
                (\<lambda>actual. of_result (Ok (actual, msg\<lparr>mTo := actual\<rparr>))))
       (\<lambda>(actual, msg).
          cmd_then (cmd_map_err send_failed (tpSend T actual msg)) (\<lambda>_. tpAwait T (mID msg) limit)) s"

type_synonym 's request = "string \<Rightarrow> Message \<Rightarrow> duration \<Rightarrow> ('s, Message) cmd"

definition create_failed :: "string \<Rightarrow> go_error \<Rightarrow> go_error" where
  "create_failed op e = E op ''failed to create message'' (Some e)"

text \<open>The common part: identity, message, request; \<open>op\<close> names the operation in errors.\<close>

definition remote_call :: "'any runtime \<Rightarrow> NodeIdentity option \<Rightarrow> 's request \<Rightarrow> string \<Rightarrow> MessageType \<Rightarrow> string \<Rightarrow> Payload option \<Rightarrow> duration \<Rightarrow> ('s, Message) cmd" where
  "remote_call rt node request op t peerID payload limit =
     (case node of
        None \<Rightarrow> of_result (Fail ErrIdentityNotInitialized)
      | Some identity \<Rightarrow>
          cmd_then (of_result (map_err (create_failed op)
            (NewMessage (rtJSON rt) (rtUUID rt) (rtStamp rt) t (niID identity) peerID payload))) (\<lambda>msg.
          request peerID msg limit))"

definition GetRemoteStats :: "'any runtime \<Rightarrow> NodeIdentity option \<Rightarrow> 's request \<Rightarrow> string \<Rightarrow> ('s, StatsPayload) cmd" where
  "GetRemoteStats rt node request peerID =
     cmd_then (remote_call rt node request ''Controller.GetRemoteStats'' MsgGetStats peerID None (10 * second)) (\<lambda>resp.
     cmd_then (of_result (ParseResponse (rtJSON rt) (Some resp) MsgStats (Some KStats))) (\<lambda>p.
     case p of Some (PStats stats) \<Rightarrow> of_result (Ok stats) | _ \<Rightarrow> of_result (Panic NilDereference)))"

definition check_ack :: "'any runtime \<Rightarrow> string \<Rightarrow> string \<Rightarrow> Message \<Rightarrow> unit result" where
  "check_ack rt op failed resp =
     and_then (ParseResponse (rtJSON rt) (Some resp) MsgMinerAck (Some KMinerAck)) (\<lambda>p.
       case p of
         Some (PMinerAck ack) \<Rightarrow> if maSuccess ack then Ok () else Fail (E op (failed @ maError ack) None)
       | _ \<Rightarrow> Panic NilDereference)"

definition StartRemoteMiner :: "'any runtime \<Rightarrow> NodeIdentity option \<Rightarrow> 's request \<Rightarrow> string \<Rightarrow> string \<Rightarrow> string \<Rightarrow> bytes option \<Rightarrow> ('s, unit) cmd" where
  "StartRemoteMiner rt node request peerID minerType profileID configOverride =
     (let op = ''Controller.StartRemoteMiner'' in
      if node \<noteq> None \<and> minerType = [] then of_result (Fail (E op ''miner type is required'' None))
      else
        cmd_then (remote_call rt node request op MsgStartMiner peerID
            (Some (PStartMiner \<lparr>smMinerType = minerType, smProfileID = profileID, smConfig = configOverride\<rparr>)) (30 * second))
          (\<lambda>resp. of_result (check_ack rt op ''miner start failed: '' resp)))"

definition StopRemoteMiner :: "'any runtime \<Rightarrow> NodeIdentity option \<Rightarrow> 's request \<Rightarrow> string \<Rightarrow> string \<Rightarrow> ('s, unit) cmd" where
  "StopRemoteMiner rt node request peerID minerName =
     (let op = ''Controller.StopRemoteMiner'' in
      cmd_then (remote_call rt node request op MsgStopMiner peerID
          (Some (PStopMiner \<lparr>stMinerName = minerName\<rparr>)) (30 * second))
        (\<lambda>resp. of_result (check_ack rt op ''miner stop failed: '' resp)))"

definition GetRemoteLogsSince :: "'any runtime \<Rightarrow> NodeIdentity option \<Rightarrow> 's request \<Rightarrow> string \<Rightarrow> string \<Rightarrow> int \<Rightarrow> instant option \<Rightarrow> ('s, string list) cmd" where
  "GetRemoteLogsSince rt node request peerID minerName lines since =
     cmd_then (remote_call rt node request ''Controller.GetRemoteLogsSince'' MsgGetLogs peerID
         (Some (PGetLogs \<lparr>glMinerName = minerName, glLines = lines,
            glSince = (case since of None \<Rightarrow> 0 | Some t \<Rightarrow> UnixMilli t)\<rparr>)) (10 * second)) (\<lambda>resp.
     cmd_then (of_result (ParseResponse (rtJSON rt) (Some resp) MsgLogs (Some KLogs))) (\<lambda>p.
     case p of Some (PLogs logs) \<Rightarrow> of_result (Ok (lpLines logs)) | _ \<Rightarrow> of_result (Panic NilDereference)))"

definition GetRemoteLogs :: "'any runtime \<Rightarrow> NodeIdentity option \<Rightarrow> 's request \<Rightarrow> string \<Rightarrow> string \<Rightarrow> int \<Rightarrow> ('s, string list) cmd" where
  "GetRemoteLogs rt node request peerID minerName lines = GetRemoteLogsSince rt node request peerID minerName lines None"

text \<open>
  The peers' requests run concurrently and each result is stored under its peer's identifier; the
  list is the order in which they complete.
\<close>

fun GetAllStats :: "'any runtime \<Rightarrow> NodeIdentity option \<Rightarrow> 's request \<Rightarrow> Peer list \<Rightarrow> ('s, string \<Rightarrow> StatsPayload option) cmd" where
  "GetAllStats rt node request [] = of_result (Ok Map.empty)"
| "GetAllStats rt node request (peer # ps) =
     cmd_then (try_call (GetRemoteStats rt node request (ID peer))) (\<lambda>r.
     cmd_then (GetAllStats rt node request ps) (\<lambda>results.
     of_result (Ok (case r of Inl _ \<Rightarrow> results
                    | Inr stats \<Rightarrow> if results (ID peer) = None then results(ID peer \<mapsto> stats) else results))))"

text \<open>
  \<open>finish\<close> is the instant after the response. The state is the peer registry; the result of the
  metrics update is dropped.
\<close>

definition PingPeer :: "'any runtime \<Rightarrow> (KDPoint list \<Rightarrow> 'kd option) \<Rightarrow> NodeIdentity option \<Rightarrow> instant
    \<Rightarrow> 'kd PeerRegistry request \<Rightarrow> string \<Rightarrow> ('kd PeerRegistry, f64) cmd" where
  "PingPeer rt newKDTree node finish request peerID =
     cmd_then (remote_call rt node request ''Controller.PingPeer'' MsgPing peerID
         (Some (PPing \<lparr>piSentAt = UnixMilli (rtNow rt)\<rparr>)) (5 * second)) (\<lambda>resp.
     cmd_then (of_result (ValidateResponse (rtJSON rt) (Some resp) MsgPong)) (\<lambda>_ r.
     let rtt = f64_mul (Seconds (finish - rtNow rt)) (Fin 1000) in
     case GetPeer peerID r of
       None \<Rightarrow> (Ok rtt, r)
     | Some peer \<Rightarrow> (Ok rtt, snd (UpdateMetrics newKDTree finish peerID rtt (GeoKM peer) (Hops peer) r))))"

definition ConnectToPeer :: "'s transport \<Rightarrow> string \<Rightarrow> ('s, string) cmd" where
  "ConnectToPeer T peerID s =
     (case tpGetPeer T peerID s of
        None \<Rightarrow> (Fail (E ''Controller.ConnectToPeer'' (''peer not found: '' @ peerID) None), s)
      | Some peer \<Rightarrow> tpConnect T peer s)"

definition DisconnectFromPeer :: "'s transport \<Rightarrow> string \<Rightarrow> ('s, unit) cmd" where
  "DisconnectFromPeer T peerID s =
     (if tpConnected T peerID s then tpClose T peerID s
      else (Fail (E ''Controller.DisconnectFromPeer'' (''peer not connected: '' @ peerID) None), s))"

section \<open>A controller and a worker\<close>

text \<open>A request that a worker serves: its answer, or a timeout when it sends none.\<close>

definition worker_request :: "'any runtime \<Rightarrow> 'dn deploy_env \<Rightarrow> ('any, 's) Worker \<Rightarrow> bytes \<Rightarrow> 's wstate request" where
  "worker_request rt D w secret peerID msg limit st =
     (case HandleMessage rt D w (Some secret) msg st of
        (_, st') \<Rightarrow>
          (case drop (length (wsSent st)) (wsSent st') of
             [] \<Rightarrow> (Fail request_timeout, st')
           | resp # _ \<Rightarrow> (Ok resp, st')))"

definition start_ack :: "'any runtime \<Rightarrow> MinerInstance result \<Rightarrow> MinerAckPayload" where
  "start_ack rt res =
     (case res of
        Ok miner \<Rightarrow> \<lparr>maSuccess = True, maName = GetName miner, maMinerName = GetName miner, maError = []\<rparr>
      | Fail e \<Rightarrow> \<lparr>maSuccess = False, maName = [], maMinerName = [], maError = rtErrorText rt e\<rparr>
      | Panic _ \<Rightarrow> \<lparr>maSuccess = False, maName = [], maMinerName = [], maError = []\<rparr>)"

lemma handleStartMiner_override:
  assumes "wkMinerManager w = Some mm" and "ParsePayload (rtJSON rt) KStartMiner msg =
      Ok (PStartMiner \<lparr>smMinerType = ty, smProfileID = prof, smConfig = Some c\<rparr>)"
    and "ty \<noteq> []" and "StartMiner mm ty (ConfigOverride c) s = (res, s')" and "\<nexists>p. res = Panic p"
  shows "handleStartMiner rt w msg s = (reply rt msg MsgMinerAck (PMinerAck (start_ack rt res)), s')"
  using assms by (cases res) (simp_all add: handleStartMiner_def parse_def try_call_def start_ack_def cmd_then_def)

lemma HandleMessage_Ok:
  assumes "worker_handler rt D w (Some secret) msg = Some h" and "h st = (Ok m, st')"
  shows "HandleMessage rt D w (Some secret) msg st = (Ok (), st'\<lparr>wsSent := wsSent st' @ [m]\<rparr>)"
  using assms by (simp add: HandleMessage_def try_call_def conn_send_def cmd_then_def)

text \<open>
  C11. Starting a miner remotely is starting it locally: with a worker behind the request, the
  operation leaves the worker's application as the miner manager's \<^verbatim>\<open>StartMiner\<close> on the same arguments
  does, succeeds exactly when that call does, and otherwise reports its error text. The hypotheses are
  that the two payloads involved survive JSON.
\<close>

theorem remote_start_is_local_start:
  assumes mm: "wkMinerManager w = Some mm" and ty: "ty \<noteq> []"
    and call: "StartMiner mm ty (ConfigOverride c) (wsApp st) = (res, app')" and "\<nexists>p. res = Panic p"
    and same: "rtJSON rtW = rtJSON rt"
    and reqd: "json_faithful (rtJSON rt) (PStartMiner \<lparr>smMinerType = ty, smProfileID = prof, smConfig = Some c\<rparr>)"
    and ackd: "json_faithful (rtJSON rt) (PMinerAck (start_ack rtW res))"
  shows "\<exists>m. mReplyTo m = rtUUID rt
    \<and> StartRemoteMiner rt (Some identity) (worker_request rtW D w secret) peerID ty prof (Some c) st
      = (case res of
           Fail e \<Rightarrow> Fail (E ''Controller.StartRemoteMiner'' (''miner start failed: '' @ rtErrorText rtW e) None)
         | _ \<Rightarrow> Ok (), st\<lparr>wsApp := app', wsSent := wsSent st @ [m]\<rparr>)"
proof -
  let ?P = "PStartMiner \<lparr>smMinerType = ty, smProfileID = prof, smConfig = Some c\<rparr>"
  obtain msg where msg: "NewMessage (rtJSON rt) (rtUUID rt) (rtStamp rt) MsgStartMiner (niID identity) peerID (Some ?P) = Ok msg"
    and parsed: "ParsePayload (rtJSON rt) KStartMiner msg = Ok ?P"
    using NewMessage_parses [OF reqd, of "rtUUID rt" "rtStamp rt" MsgStartMiner "niID identity" peerID] by auto
  obtain m where m: "reply rtW msg MsgMinerAck (PMinerAck (start_ack rtW res)) = Ok m"
    using Reply_parses [OF ackd, of "rtUUID rtW" "rtStamp rtW" msg MsgMinerAck] by (auto simp: reply_def same)
  have "worker_handler rtW D w (Some secret) msg = Some (on_app (handleStartMiner rtW w msg))"
    using NewMessage_Ok(2) [OF msg] by (simp add: worker_handler_def message_types)
  moreover have "on_app (handleStartMiner rtW w msg) st = (Ok m, st\<lparr>wsApp := app'\<rparr>)"
    using handleStartMiner_override [OF mm _ ty call assms(4), of rtW msg prof] parsed m same by (simp add: on_app_def)
  ultimately have "worker_request rtW D w secret peerID msg limit st
      = (Ok m, st\<lparr>wsApp := app', wsSent := wsSent st @ [m]\<rparr>)" for limit
    by (simp add: worker_request_def HandleMessage_Ok)
  moreover have "ParseResponse (rtJSON rt) (Some m) MsgMinerAck (Some KMinerAck) = Ok (Some (PMinerAck (start_ack rtW res)))"
    using ParseResponse_Reply [OF ackd _ m [unfolded reply_def same]] by (simp add: message_types)
  ultimately have "StartRemoteMiner rt (Some identity) (worker_request rtW D w secret) peerID ty prof (Some c) st
      = (case res of
           Fail e \<Rightarrow> Fail (E ''Controller.StartRemoteMiner'' (''miner start failed: '' @ rtErrorText rtW e) None)
         | _ \<Rightarrow> Ok (), st\<lparr>wsApp := app', wsSent := wsSent st @ [m]\<rparr>)"
    using ty msg assms(4)
    by (cases res) (simp_all add: StartRemoteMiner_def Let_def remote_call_def cmd_then_def check_ack_def start_ack_def)
  moreover have "mReplyTo m = rtUUID rt"
    using reply_answers [OF m] NewMessage_Ok(1) [OF msg] by (simp add: answers_def)
  ultimately show ?thesis by blast
qed

text \<open>A manager that starts every miner and lists the started ones in its state.\<close>

definition example_manager :: "(unit, MinerInstance list) MinerManager" where
  "example_manager =
     (let miner = (\<lambda>ty. \<lparr>GetName = ty @ ''-1'', GetType = ty, GetStats = Ok StatsOther,
            GetConsoleHistory = (\<lambda>_. []), GetConsoleHistorySince = None\<rparr>) in
      \<lparr>StartMiner = (\<lambda>ty _ s. (Ok (miner ty), s @ [miner ty])),
       StopMiner = (\<lambda>name s. (Ok (), filter (\<lambda>m. GetName m \<noteq> name) s)),
       ListMiners = (\<lambda>s. s),
       GetMiner = (\<lambda>name s. case List.find (\<lambda>m. GetName m = name) s of Some m \<Rightarrow> Ok m | None \<Rightarrow> Fail EOF)\<rparr>)"

theorem remote_start_is_local_start_witness:
  fixes w :: "(unit, MinerInstance list) Worker"
  defines "w \<equiv> SetMinerManager (Some example_manager) (NewWorker (Some example_identity) 0 ''/data'')"
  defines "ps \<equiv> [PStartMiner \<lparr>smMinerType = ''xmrig'', smProfileID = [], smConfig = Some [1]\<rparr>,
    PMinerAck \<lparr>maSuccess = True, maName = ''xmrig-1'', maMinerName = ''xmrig-1'', maError = []\<rparr>]"
  shows "\<exists>st'. StartRemoteMiner (example_runtime ps) (Some example_identity)
      (worker_request (example_runtime ps) example_deploy_env w [7]) ''wrk'' ''xmrig'' [] (Some [1])
      \<lparr>wsApp = [], wsFiles = [], wsSent = []\<rparr> = (Ok (), st') \<and> map GetName (wsApp st') = [''xmrig-1'']"
proof -
  let ?st = "\<lparr>wsApp = [], wsFiles = [], wsSent = []\<rparr> :: MinerInstance list wstate"
  have mm: "wkMinerManager w = Some example_manager" by (simp add: w_def SetMinerManager_def)
  obtain miner app' where call: "StartMiner example_manager ''xmrig'' (ConfigOverride [1]) (wsApp ?st) = (Ok miner, app')"
    and app: "GetName miner = ''xmrig-1''" "app' = [miner]"
    by (simp add: example_manager_def Let_def)
  have "json_faithful (rtJSON (example_runtime ps)) (PMinerAck (start_ack (example_runtime ps) (Ok miner)))"
    unfolding example_runtime_def runtime.simps
    by (rule json_faithful_table) (simp add: ps_def start_ack_def app)
  moreover have "json_faithful (rtJSON (example_runtime ps))
      (PStartMiner \<lparr>smMinerType = ''xmrig'', smProfileID = [], smConfig = Some [1]\<rparr>)"
    unfolding example_runtime_def runtime.simps by (rule json_faithful_table) (simp add: ps_def)
  ultimately show ?thesis
    using remote_start_is_local_start [OF mm _ call, of "example_runtime ps" "example_runtime ps" "[]"
      example_identity example_deploy_env "[7]" "''wrk''"] app by auto
qed

end
