(* ===== verification/Node_Identity.thy ===== *)
theory Node_Identity
  imports Bundles Worker_Ops
begin

text \<open>
  Node identity and keys: \<^verbatim>\<open>src/go/node/identity.go\<close> and \<^verbatim>\<open>src/go/node/keyderiv.go\<close>.

  The key pair library, X25519 and the file layer are arguments: \<open>keys\<close> gives key generation, the
  encodings of a key pair and the key agreement, \<open>localfs\<close> the file operations over a file system
  \<open>'f\<close>. SHA-256, HMAC and HKDF are those of \<^verbatim>\<open>Sha256_Hmac\<close>.
\<close>

section \<open>Subkeys and challenges\<close>

fun decimal :: "nat \<Rightarrow> string" where
  "decimal n = (if n < 10 then [hex_digit n] else decimal (n div 10) @ [hex_digit (n mod 10)])"

definition sharedSecretSize :: nat where "sharedSecretSize = 32"
definition subKeySize :: nat where "subKeySize = 32"
definition keyInfoEncryptV1 :: string where "keyInfoEncryptV1 = ''lthn-p2p-encrypt-v1''"
definition keyInfoMACV1 :: string where "keyInfoMACV1 = ''lthn-p2p-mac-v1''"
definition keyInfoChallengeV1 :: string where "keyInfoChallengeV1 = ''lthn-p2p-challenge-v1''"

record transportSubKeys =
  encKey :: bytes
  macKey :: bytes
  chlKey :: bytes

definition deriveSubKey :: "bytes \<Rightarrow> string \<Rightarrow> bytes result" where
  "deriveSubKey sharedSecret info =
     map_err (\<lambda>e. Errorf (''derive '' @ info @ '' key'') (Some e)) (hkdf_Expand sharedSecret info subKeySize)"

definition deriveSubKeys :: "bytes \<Rightarrow> transportSubKeys result" where
  "deriveSubKeys sharedSecret =
     (if length sharedSecret \<noteq> sharedSecretSize
      then Fail (Errorf (''shared secret length '' @ decimal (length sharedSecret) @ '', want '' @ decimal sharedSecretSize) None)
      else
        and_then (deriveSubKey sharedSecret keyInfoEncryptV1) (\<lambda>enc.
        and_then (deriveSubKey sharedSecret keyInfoMACV1) (\<lambda>mac.
        and_then (deriveSubKey sharedSecret keyInfoChallengeV1) (\<lambda>chl.
        Ok \<lparr>encKey = enc, macKey = mac, chlKey = chl\<rparr>))))"

definition ChallengeSize :: nat where "ChallengeSize = 32"

text \<open>The argument is the outcome of reading \<open>ChallengeSize\<close> random bytes.\<close>

definition GenerateChallenge :: "bytes result \<Rightarrow> bytes result" where
  "GenerateChallenge randRead =
     map_err (\<lambda>e. E ''GenerateChallenge'' ''failed to generate challenge'' (Some e)) randRead"

definition SignChallenge :: "bytes \<Rightarrow> bytes \<Rightarrow> bytes" where
  "SignChallenge challenge sharedSecret = hmac_sha256 sharedSecret challenge"

definition VerifyChallenge :: "bytes \<Rightarrow> bytes \<Rightarrow> bytes \<Rightarrow> bool" where
  "VerifyChallenge challenge response sharedSecret \<longleftrightarrow> response = SignChallenge challenge sharedSecret"

section \<open>Node manager\<close>

record ('kp, 'pk, 'sk) keys =
  GenerateKeyPair :: "'kp result"
  kpPublicKey :: "'kp \<Rightarrow> bytes"
  kpPublicKeyBase64 :: "'kp \<Rightarrow> string"
  kpPrivateKey :: "'kp \<Rightarrow> bytes"
  LoadKeyPair :: "bytes \<Rightarrow> 'kp result"
  LoadPublicKeyBase64 :: "string \<Rightarrow> 'pk result"
  NewPrivateKey :: "bytes \<Rightarrow> 'sk result"
  ECDH :: "'sk \<Rightarrow> 'pk \<Rightarrow> bytes result"

record 'kp NodeManager =
  nmIdentity :: "NodeIdentity option"
  nmPrivateKey :: "bytes option"
  nmKeyPair :: "'kp option"
  nmKeyPath :: string
  nmConfigPath :: string

record 'f localfs =
  fsDir :: "string \<Rightarrow> string"
  fsEnsureDir :: "string \<Rightarrow> ('f, unit) cmd"
  fsWriteMode :: "string \<Rightarrow> string \<Rightarrow> nat \<Rightarrow> ('f, unit) cmd"
  fsWrite :: "string \<Rightarrow> string \<Rightarrow> ('f, unit) cmd"
  fsChmod :: "string \<Rightarrow> nat \<Rightarrow> ('f, unit) cmd"
  fsRead :: "string \<Rightarrow> 'f \<Rightarrow> string result"
  fsExists :: "string \<Rightarrow> 'f \<Rightarrow> bool"
  fsDelete :: "string \<Rightarrow> ('f, unit) cmd"

text \<open>JSON of an identity.\<close>

record identity_json =
  ijMarshal :: "NodeIdentity option \<Rightarrow> string result"
  ijUnmarshal :: "bytes \<Rightarrow> NodeIdentity result"

definition HasIdentity :: "'kp NodeManager \<Rightarrow> bool" where
  "HasIdentity n \<longleftrightarrow> nmIdentity n \<noteq> None"

definition GetIdentity :: "'kp NodeManager \<Rightarrow> NodeIdentity option" where
  "GetIdentity n = nmIdentity n"

definition savePrivateKey :: "'f localfs \<Rightarrow> 'kp NodeManager \<Rightarrow> ('f, unit) cmd" where
  "savePrivateKey F n =
     (let err = (\<lambda>msg e. E ''NodeManager.savePrivateKey'' msg (Some e)); key = (case nmPrivateKey n of None \<Rightarrow> [] | Some k \<Rightarrow> k) in
      cmd_then (cmd_map_err (err ''failed to create key directory'') (fsEnsureDir F (fsDir F (nmKeyPath n)))) (\<lambda>_.
      cmd_then (cmd_map_err (err ''failed to write private key'') (fsWriteMode F (nmKeyPath n) (string_of key) 384)) (\<lambda>_.
      cmd_map_err (err ''failed to set private key permissions'') (fsChmod F (nmKeyPath n) 384))))"

definition saveIdentity :: "'f localfs \<Rightarrow> identity_json \<Rightarrow> 'kp NodeManager \<Rightarrow> ('f, unit) cmd" where
  "saveIdentity F J n =
     (let err = (\<lambda>msg e. E ''NodeManager.saveIdentity'' msg (Some e)) in
      cmd_then (cmd_map_err (err ''failed to create config directory'') (fsEnsureDir F (fsDir F (nmConfigPath n)))) (\<lambda>_.
      cmd_then (of_result (map_err (err ''failed to marshal identity'') (ijMarshal J (nmIdentity n)))) (\<lambda>data.
      cmd_map_err (err ''failed to write identity'') (fsWrite F (nmConfigPath n) data))))"

definition on_fs :: "('f, 'a) cmd \<Rightarrow> ('kp NodeManager \<times> 'f, 'a) cmd" where
  "on_fs c s = (case s of (n, f) \<Rightarrow> case c f of (r, f') \<Rightarrow> (r, (n, f')))"

text \<open>The identity made from a key pair: the identifier is the hex form of half the key's digest.\<close>

definition node_id :: "bytes \<Rightarrow> string" where
  "node_id publicKey = EncodeToString (take 16 (Sum256 publicKey))"

definition make_identity :: "('kp, 'pk, 'sk) keys \<Rightarrow> instant \<Rightarrow> 'kp \<Rightarrow> string \<Rightarrow> string \<Rightarrow> NodeIdentity" where
  "make_identity K now kp name role =
     \<lparr>niID = node_id (kpPublicKey K kp), niName = name, niPublicKey = kpPublicKeyBase64 K kp,
      niCreatedAt = Some now, niRole = role\<rparr>"

definition GenerateIdentity :: "('kp, 'pk, 'sk) keys \<Rightarrow> 'f localfs \<Rightarrow> identity_json \<Rightarrow> instant \<Rightarrow> string \<Rightarrow> string \<Rightarrow> ('kp NodeManager \<times> 'f, unit) cmd" where
  "GenerateIdentity K F J now name role s =
     (let err = (\<lambda>msg e. E ''NodeManager.GenerateIdentity'' msg (Some e)) in
      case map_err (err ''failed to generate keypair'') (GenerateKeyPair K) of
        Fail e \<Rightarrow> (Fail e, s)
      | Panic p \<Rightarrow> (Panic p, s)
      | Ok kp \<Rightarrow>
          (let n = (fst s)\<lparr>nmIdentity := Some (make_identity K now kp name role),
                           nmKeyPair := Some kp, nmPrivateKey := Some (kpPrivateKey K kp)\<rparr> in
           cmd_then (on_fs (cmd_map_err (err ''failed to save private key'') (savePrivateKey F n))) (\<lambda>_.
           on_fs (cmd_map_err (err ''failed to save identity'') (saveIdentity F J n))) (n, snd s)))"

definition DeriveSharedSecret :: "('kp, 'pk, 'sk) keys \<Rightarrow> string \<Rightarrow> 'kp NodeManager \<Rightarrow> bytes result" where
  "DeriveSharedSecret K peerPubKeyBase64 n =
     (let err = (\<lambda>msg e. E ''NodeManager.DeriveSharedSecret'' msg (Some e)) in
      case nmPrivateKey n of
        None \<Rightarrow> Fail ErrIdentityNotInitialized
      | Some key \<Rightarrow>
          and_then (map_err (err ''failed to load peer public key'') (LoadPublicKeyBase64 K peerPubKeyBase64)) (\<lambda>pub.
          and_then (map_err (err ''failed to load private key'') (NewPrivateKey K key)) (\<lambda>priv.
          and_then (map_err (err ''failed to derive shared secret'') (ECDH K priv pub)) (\<lambda>secret.
          Ok (Sum256 secret)))))"

definition loadIdentity :: "('kp, 'pk, 'sk) keys \<Rightarrow> 'f localfs \<Rightarrow> identity_json \<Rightarrow> 'f \<Rightarrow> 'kp NodeManager \<Rightarrow> unit result \<times> 'kp NodeManager" where
  "loadIdentity K F J f n =
     (let err = (\<lambda>msg e. E ''NodeManager.loadIdentity'' msg (Some e)) in
      case and_then (map_err (err ''failed to read identity'') (fsRead F (nmConfigPath n) f)) (\<lambda>content.
           and_then (map_err (err ''failed to unmarshal identity'') (ijUnmarshal J (bytes_of content))) (\<lambda>identity.
           and_then (map_err (err ''failed to read private key'') (fsRead F (nmKeyPath n) f)) (\<lambda>keyContent.
           and_then (map_err (err ''failed to load keypair'') (LoadKeyPair K (bytes_of keyContent))) (\<lambda>kp.
           Ok (identity, bytes_of keyContent, kp))))) of
        Ok (identity, key, kp) \<Rightarrow> (Ok (), n\<lparr>nmIdentity := Some identity, nmPrivateKey := Some key, nmKeyPair := Some kp\<rparr>)
      | Fail e \<Rightarrow> (Fail e, n)
      | Panic p \<Rightarrow> (Panic p, n))"

definition NewNodeManagerWithPaths :: "('kp, 'pk, 'sk) keys \<Rightarrow> 'f localfs \<Rightarrow> identity_json \<Rightarrow> string \<Rightarrow> string \<Rightarrow> 'f \<Rightarrow> 'kp NodeManager result" where
  "NewNodeManagerWithPaths K F J keyPath configPath f =
     (case loadIdentity K F J f
        \<lparr>nmIdentity = None, nmPrivateKey = None, nmKeyPair = None, nmKeyPath = keyPath, nmConfigPath = configPath\<rparr> of
        (Panic p, _) \<Rightarrow> Panic p
      | (_, n) \<Rightarrow> Ok n)"

text \<open>The two path arguments are the outcomes of the XDG lookups.\<close>

definition NewNodeManager :: "('kp, 'pk, 'sk) keys \<Rightarrow> 'f localfs \<Rightarrow> identity_json \<Rightarrow> string result \<Rightarrow> string result \<Rightarrow> 'f \<Rightarrow> 'kp NodeManager result" where
  "NewNodeManager K F J dataFile configFile f =
     and_then (map_err (\<lambda>e. E ''NodeManager.New'' ''failed to get key path'' (Some e)) dataFile) (\<lambda>keyPath.
     and_then (map_err (\<lambda>e. E ''NodeManager.New'' ''failed to get config path'' (Some e)) configFile) (\<lambda>configPath.
     NewNodeManagerWithPaths K F J keyPath configPath f))"

definition LoadOrCreateIdentityWithPaths :: "('kp, 'pk, 'sk) keys \<Rightarrow> 'f localfs \<Rightarrow> identity_json \<Rightarrow> string \<Rightarrow> instant \<Rightarrow> string \<Rightarrow> string \<Rightarrow> ('f, 'kp NodeManager) cmd" where
  "LoadOrCreateIdentityWithPaths K F J hostname now keyPath configPath f =
     cmd_then (of_result (NewNodeManagerWithPaths K F J keyPath configPath f)) (\<lambda>nm f.
       if HasIdentity nm then (Ok nm, f)
       else
         (let name = (if hostname = [] then ''lethean-node'' else hostname) in
          case cmd_map_err (\<lambda>e. E ''LoadOrCreateIdentityWithPaths'' ''failed to generate identity'' (Some e))
                 (GenerateIdentity K F J now name RoleDual) (nm, f) of
            (Ok _, (nm', f')) \<Rightarrow> (Ok nm', f')
          | (Fail e, (_, f')) \<Rightarrow> (Fail e, f')
          | (Panic p, (_, f')) \<Rightarrow> (Panic p, f'))) f"

definition LoadOrCreateIdentity :: "('kp, 'pk, 'sk) keys \<Rightarrow> 'f localfs \<Rightarrow> identity_json \<Rightarrow> string \<Rightarrow> instant \<Rightarrow> string result \<Rightarrow> string result \<Rightarrow> ('f, 'kp NodeManager) cmd" where
  "LoadOrCreateIdentity K F J hostname now dataFile configFile =
     cmd_then (of_result (map_err (\<lambda>e. E ''LoadOrCreateIdentity'' ''failed to get key path'' (Some e)) dataFile)) (\<lambda>keyPath.
     cmd_then (of_result (map_err (\<lambda>e. E ''LoadOrCreateIdentity'' ''failed to get config path'' (Some e)) configFile)) (\<lambda>configPath.
     LoadOrCreateIdentityWithPaths K F J hostname now keyPath configPath))"

definition delete_if_present :: "'f localfs \<Rightarrow> string \<Rightarrow> string \<Rightarrow> ('f, unit) cmd" where
  "delete_if_present F msg p f =
     (if fsExists F p f then cmd_map_err (\<lambda>e. E ''NodeManager.Delete'' msg (Some e)) (fsDelete F p) f else (Ok (), f))"

definition DeleteIdentity :: "'f localfs \<Rightarrow> ('kp NodeManager \<times> 'f, unit) cmd" where
  "DeleteIdentity F s =
     cmd_then (on_fs (delete_if_present F ''failed to remove private key'' (nmKeyPath (fst s)))) (\<lambda>_.
     cmd_then (on_fs (delete_if_present F ''failed to remove identity'' (nmConfigPath (fst s)))) (\<lambda>_ (n, f).
     (Ok (), (n\<lparr>nmIdentity := None, nmPrivateKey := None, nmKeyPair := None\<rparr>, f)))) s"

section \<open>Persistence\<close>

text \<open>
  What the code relies on of its surroundings: a successful write is read back and leaves other files
  alone, directories and permissions do not touch contents; a key pair is rebuilt from its private
  key; a marshalled identity unmarshals to itself.
\<close>

definition keeps :: "'f localfs \<Rightarrow> string set \<Rightarrow> ('f, unit) cmd \<Rightarrow> bool" where
  "keeps F changed c \<longleftrightarrow>
     (\<forall>f r f' q x. c f = (r, f') \<longrightarrow> q \<notin> changed \<longrightarrow> fsRead F q f = Ok x \<longrightarrow> fsRead F q f' = Ok x)"

definition fs_laws :: "'f localfs \<Rightarrow> bool" where
  "fs_laws F \<longleftrightarrow>
     (\<forall>p. keeps F {} (fsEnsureDir F p)) \<and> (\<forall>p m. keeps F {} (fsChmod F p m)) \<and>
     (\<forall>p c m. keeps F {p} (fsWriteMode F p c m)) \<and> (\<forall>p c. keeps F {p} (fsWrite F p c)) \<and>
     (\<forall>p c m f f'. fsWriteMode F p c m f = (Ok (), f') \<longrightarrow> fsRead F p f' = Ok c) \<and>
     (\<forall>p c f f'. fsWrite F p c f = (Ok (), f') \<longrightarrow> fsRead F p f' = Ok c)"

definition identity_laws :: "('kp, 'pk, 'sk) keys \<Rightarrow> identity_json \<Rightarrow> bool" where
  "identity_laws K J \<longleftrightarrow>
     (\<forall>kp. LoadKeyPair K (kpPrivateKey K kp) = Ok kp) \<and>
     (\<forall>i s. ijMarshal J (Some i) = Ok s \<longrightarrow> ijUnmarshal J (bytes_of s) = Ok i)"

lemma keepsD:
  "keeps F changed c \<Longrightarrow> c f = (r, f') \<Longrightarrow> q \<notin> changed \<Longrightarrow> fsRead F q f = Ok x \<Longrightarrow> fsRead F q f' = Ok x"
  unfolding keeps_def by blast

lemma cmd_map_err_Ok [simp]: "cmd_map_err g c s = (Ok x, t) \<longleftrightarrow> c s = (Ok x, t)"
  by (auto simp: cmd_map_err_def split: prod.splits)

lemma on_fs_Ok: "on_fs c (n, f) = (Ok x, s) \<longleftrightarrow> (\<exists>f'. c f = (Ok x, f') \<and> s = (n, f'))"
  by (auto simp: on_fs_def split: prod.splits)

lemma savePrivateKey_Ok:
  assumes "fs_laws F" and "savePrivateKey F n f = (Ok (), f')" and "nmPrivateKey n = Some key"
  shows "fsRead F (nmKeyPath n) f' = Ok (string_of key)"
proof -
  obtain f1 f2 where 1: "fsEnsureDir F (fsDir F (nmKeyPath n)) f = (Ok (), f1)"
    and 2: "fsWriteMode F (nmKeyPath n) (string_of key) 384 f1 = (Ok (), f2)"
    and 3: "fsChmod F (nmKeyPath n) 384 f2 = (Ok (), f')"
    using assms(2,3) by (auto simp: savePrivateKey_def Let_def elim!: cmd_then_OkE)
  have "fsRead F (nmKeyPath n) f2 = Ok (string_of key)" using assms(1) 2 by (simp add: fs_laws_def)
  moreover have "keeps F {} (fsChmod F (nmKeyPath n) 384)" using assms(1) by (simp add: fs_laws_def)
  from keepsD [OF this 3] calculation show ?thesis by simp
qed

lemma saveIdentity_Ok:
  assumes "fs_laws F" and "saveIdentity F J n f = (Ok (), f')"
  shows "\<exists>data. ijMarshal J (nmIdentity n) = Ok data \<and> fsRead F (nmConfigPath n) f' = Ok data
    \<and> (\<forall>q x. q \<noteq> nmConfigPath n \<longrightarrow> fsRead F q f = Ok x \<longrightarrow> fsRead F q f' = Ok x)"
proof -
  obtain f1 data where 1: "fsEnsureDir F (fsDir F (nmConfigPath n)) f = (Ok (), f1)"
    and data: "ijMarshal J (nmIdentity n) = Ok data" and 2: "fsWrite F (nmConfigPath n) data f1 = (Ok (), f')"
    using assms(2) by (auto simp: saveIdentity_def Let_def elim!: cmd_then_OkE)
  have k1: "keeps F {} (fsEnsureDir F (fsDir F (nmConfigPath n)))"
    and k2: "keeps F {nmConfigPath n} (fsWrite F (nmConfigPath n) data)" and "fsRead F (nmConfigPath n) f' = Ok data"
    using assms(1) 2 by (simp_all add: fs_laws_def)
  then show ?thesis using keepsD [OF k1 1] keepsD [OF k2 2] data by auto
qed

lemma GenerateIdentity_Ok:
  assumes laws: "fs_laws F" "identity_laws K J" and paths: "nmKeyPath n \<noteq> nmConfigPath n"
    and run: "GenerateIdentity K F J now name role (n, f) = (Ok (), (n', f'))"
  shows "HasIdentity n' \<and> nmKeyPath n' = nmKeyPath n \<and> nmConfigPath n' = nmConfigPath n
    \<and> (\<forall>m. nmKeyPath m = nmKeyPath n \<longrightarrow> nmConfigPath m = nmConfigPath n \<longrightarrow>
          loadIdentity K F J f' (m :: 'kp NodeManager) = (Ok (), n'))"
proof -
  obtain kp where kp: "GenerateKeyPair K = Ok kp"
    using run by (cases "GenerateKeyPair K") (auto simp: GenerateIdentity_def)
  let ?n = "n\<lparr>nmIdentity := Some (make_identity K now kp name role), nmKeyPair := Some kp,
    nmPrivateKey := Some (kpPrivateKey K kp)\<rparr>"
  obtain f1 where 1: "savePrivateKey F ?n f = (Ok (), f1)" and 2: "saveIdentity F J ?n f1 = (Ok (), f')" and n': "n' = ?n"
    using run by (auto simp: GenerateIdentity_def Let_def kp on_fs_Ok elim!: cmd_then_OkE)
  have "fsRead F (nmKeyPath ?n) f1 = Ok (string_of (kpPrivateKey K kp))"
    using savePrivateKey_Ok [OF laws(1) 1] by simp
  with saveIdentity_Ok [OF laws(1) 2] paths laws(2)
  have "fsRead F (nmKeyPath n) f' = Ok (string_of (kpPrivateKey K kp))"
    and "\<exists>data. fsRead F (nmConfigPath n) f' = Ok data \<and> ijUnmarshal J (bytes_of data) = Ok (make_identity K now kp name role)"
    by (auto simp: identity_laws_def)
  then show ?thesis using laws(2) by (auto simp: n' HasIdentity_def loadIdentity_def Let_def identity_laws_def)
qed

text \<open>
  C29. A node keeps its identity: once \<^verbatim>\<open>LoadOrCreateIdentityWithPaths\<close> has returned a manager, the
  manager has an identity, and every later call on the same paths returns the same manager, whatever
  the host name and the clock, and leaves the file system as it is.
\<close>

theorem identity_persists:
  assumes "fs_laws F" and "identity_laws K J" and "keyPath \<noteq> configPath"
    and "LoadOrCreateIdentityWithPaths K F J host now keyPath configPath f = (Ok nm, f')"
  shows "HasIdentity nm \<and> LoadOrCreateIdentityWithPaths K F J host' now' keyPath configPath f' = (Ok nm, f')"
proof -
  let ?blank = "\<lparr>nmIdentity = None, nmPrivateKey = None, nmKeyPair = None, nmKeyPath = keyPath, nmConfigPath = configPath\<rparr>"
  have again: "HasIdentity nm \<and> LoadOrCreateIdentityWithPaths K F J host' now' keyPath configPath f' = (Ok nm, f')"
    if "HasIdentity nm" and "loadIdentity K F J f' ?blank = (Ok (), nm)"
    using that by (simp add: LoadOrCreateIdentityWithPaths_def NewNodeManagerWithPaths_def cmd_then_def)
  have failed: "fst (loadIdentity K F J f ?blank) \<noteq> Ok () \<Longrightarrow> snd (loadIdentity K F J f ?blank) = ?blank"
    by (auto simp: loadIdentity_def Let_def split: result.splits prod.splits)
  have loaded: "fst (loadIdentity K F J f ?blank) = Ok () \<Longrightarrow> HasIdentity (snd (loadIdentity K F J f ?blank))"
    by (auto simp: loadIdentity_def Let_def HasIdentity_def split: result.splits prod.splits)
  obtain r n where load: "loadIdentity K F J f ?blank = (r, n)" by fastforce
  show ?thesis
  proof (cases "r = Ok ()")
    case True
    then have "nm = n" "f' = f"
      using assms(4) loaded load by (auto simp: LoadOrCreateIdentityWithPaths_def NewNodeManagerWithPaths_def cmd_then_def)
    then show ?thesis using again loaded load True by simp
  next
    case False
    then have n: "n = ?blank" using failed load by simp
    have "\<exists>name. GenerateIdentity K F J now name RoleDual (?blank, f) = (Ok (), (nm, f'))"
      using assms(4) False load
      by (cases r) (auto simp: LoadOrCreateIdentityWithPaths_def NewNodeManagerWithPaths_def cmd_then_def n
          HasIdentity_def Let_def cmd_map_err_def split: result.splits prod.splits if_splits)
    then obtain name where gen: "GenerateIdentity K F J now name RoleDual (?blank, f) = (Ok (), (nm, f'))" ..
    then show ?thesis
      using again GenerateIdentity_Ok [OF assms(1,2) _ gen] assms(3) by simp
  qed
qed

text \<open>A file system as a map from paths to contents, and keys that are their own encodings.\<close>

definition map_fs :: "(string \<Rightarrow> string option) localfs" where
  "map_fs =
     \<lparr>fsDir = (\<lambda>p. p), fsEnsureDir = (\<lambda>_ f. (Ok (), f)),
      fsWriteMode = (\<lambda>p c _ f. (Ok (), f(p \<mapsto> c))), fsWrite = (\<lambda>p c f. (Ok (), f(p \<mapsto> c))),
      fsChmod = (\<lambda>_ _ f. (Ok (), f)),
      fsRead = (\<lambda>p f. case f p of None \<Rightarrow> Fail EOF | Some c \<Rightarrow> Ok c),
      fsExists = (\<lambda>p f. f p \<noteq> None), fsDelete = (\<lambda>p f. (Ok (), f(p := None)))\<rparr>"

definition plain_keys :: "bytes \<Rightarrow> (bytes, bytes, bytes) keys" where
  "plain_keys k =
     \<lparr>GenerateKeyPair = Ok k, kpPublicKey = (\<lambda>k. k), kpPublicKeyBase64 = string_of, kpPrivateKey = (\<lambda>k. k),
      LoadKeyPair = Ok, LoadPublicKeyBase64 = (\<lambda>s. Ok (bytes_of s)), NewPrivateKey = Ok,
      ECDH = (\<lambda>a b. Ok (map2 (+) a b))\<rparr>"

text \<open>JSON that can only write and read one identity.\<close>

definition one_identity :: "NodeIdentity \<Rightarrow> identity_json" where
  "one_identity i = \<lparr>ijMarshal = (\<lambda>x. if x = Some i then Ok (niID i) else Fail EOF), ijUnmarshal = (\<lambda>_. Ok i)\<rparr>"

lemma map_fs_laws: "fs_laws map_fs"
  by (auto simp: fs_laws_def keeps_def map_fs_def split: option.splits)

theorem identity_persists_witness:
  defines "K \<equiv> plain_keys [1, 2]"
  defines "J \<equiv> one_identity (make_identity K 9 [1, 2] ''rig'' RoleDual)"
  shows "\<exists>nm f. LoadOrCreateIdentityWithPaths K map_fs J ''rig'' 9 ''key'' ''cfg'' Map.empty = (Ok nm, f)
    \<and> LoadOrCreateIdentityWithPaths K map_fs J ''other'' 10 ''key'' ''cfg'' f = (Ok nm, f)"
proof -
  have laws: "identity_laws K J" by (simp add: identity_laws_def K_def J_def plain_keys_def one_identity_def)
  obtain nm f where run: "LoadOrCreateIdentityWithPaths K map_fs J ''rig'' 9 ''key'' ''cfg'' Map.empty = (Ok nm, f)"
    by (simp add: LoadOrCreateIdentityWithPaths_def NewNodeManagerWithPaths_def loadIdentity_def map_fs_def
        HasIdentity_def GenerateIdentity_def K_def plain_keys_def J_def one_identity_def savePrivateKey_def
        saveIdentity_def on_fs_def cmd_map_err_def cmd_then_def Let_def)
  then show ?thesis using identity_persists [OF map_fs_laws laws _ run, of "''other''" 10] by auto
qed

end
