(* ===== verification/Secure_Channel.thy ===== *)
theory Secure_Channel
  imports Node_Identity
begin

text \<open>
  The encrypted framing of messages: \<^verbatim>\<open>encryptMessage\<close>, \<^verbatim>\<open>decryptMessage\<close> and their helpers of
  \<^verbatim>\<open>src/go/node/transport.go\<close>, and the envelopes of \<^verbatim>\<open>src/go/node/envelope.go\<close>.

  The AEAD is an argument (\<open>aead\<close>, over a type \<open>'c\<close> of keyed ciphers), as are the random nonce, the
  JSON of an envelope (\<open>envelope_json\<close>) and the Ed25519 check.
\<close>

section \<open>AEAD framing\<close>

record 'c aead =
  aeNew :: "bytes \<Rightarrow> 'c result"
  aeNonceSize :: "'c \<Rightarrow> nat"
  aeOverhead :: "'c \<Rightarrow> nat"
  aeSeal :: "'c \<Rightarrow> bytes \<Rightarrow> bytes \<Rightarrow> bytes \<Rightarrow> bytes"
  aeOpen :: "'c \<Rightarrow> bytes \<Rightarrow> bytes \<Rightarrow> bytes \<Rightarrow> bytes result"

definition transportAEADVersion :: byte where "transportAEADVersion = 1"

definition transportAEADAdditionalData :: bytes where
  "transportAEADAdditionalData = [transportAEADVersion]"

definition newTransportAEAD :: "'c aead \<Rightarrow> bytes \<Rightarrow> 'c result" where
  "newTransportAEAD A sharedSecret =
     and_then (deriveSubKeys sharedSecret) (\<lambda>subKeys. aeNew A (encKey subKeys))"

text \<open>\<open>randRead n\<close> is the outcome of reading \<open>n\<close> random bytes.\<close>

definition encryptTransportPayload :: "'c aead \<Rightarrow> (nat \<Rightarrow> bytes result) \<Rightarrow> bytes \<Rightarrow> bytes \<Rightarrow> bytes result" where
  "encryptTransportPayload A randRead payload sharedSecret =
     and_then (newTransportAEAD A sharedSecret) (\<lambda>aead.
     and_then (map_err (\<lambda>e. E ''encryptTransportPayload'' ''generate nonce'' (Some e)) (randRead (aeNonceSize A aead))) (\<lambda>nonce.
     Ok (transportAEADVersion # nonce @ aeSeal A aead nonce payload transportAEADAdditionalData)))"

definition decryptTransportPayload :: "'c aead \<Rightarrow> bytes \<Rightarrow> bytes \<Rightarrow> bytes result" where
  "decryptTransportPayload A data sharedSecret =
     and_then (newTransportAEAD A sharedSecret) (\<lambda>aead.
       let headerSize = 1 + aeNonceSize A aead in
       if length data < headerSize + aeOverhead A aead then Fail (Errorf ''transport payload too short'' None)
       else if data ! 0 \<noteq> transportAEADVersion
       then Fail (Errorf (''unsupported transport payload version '' @ decimal (unat (data ! 0))) None)
       else aeOpen A aead (drop 1 (take headerSize data)) (drop headerSize data) transportAEADAdditionalData)"

section \<open>Envelopes\<close>

record Envelope =
  enPeerPubkey :: bytes
  enBody :: bytes
  enSignature :: bytes

definition ErrEnvelopeSignatureInvalid :: go_error where
  "ErrEnvelopeSignatureInvalid = Errorf ''invalid envelope signature'' None"

definition ErrEnvelopeBodyEmpty :: go_error where
  "ErrEnvelopeBodyEmpty = Errorf ''empty envelope body'' None"

text \<open>The probe reads the three fields as raw JSON; the second read decodes them.\<close>

record envelope_json =
  ejProbe :: "bytes \<Rightarrow> (bytes \<times> bytes \<times> bytes) result"
  ejWire :: "bytes \<Rightarrow> Envelope result"
  ejVerify :: "bytes \<Rightarrow> bytes \<Rightarrow> bytes \<Rightarrow> bool"

definition ed25519_PublicKeySize :: nat where "ed25519_PublicKeySize = 32"
definition ed25519_SignatureSize :: nat where "ed25519_SignatureSize = 64"

definition VerifySignature :: "envelope_json \<Rightarrow> Envelope \<Rightarrow> unit result" where
  "VerifySignature X e =
     (if length (enSignature e) = 0 then Ok ()
      else if length (enPeerPubkey e) \<noteq> ed25519_PublicKeySize \<or> length (enSignature e) \<noteq> ed25519_SignatureSize
      then Fail ErrEnvelopeSignatureInvalid
      else if \<not> ejVerify X (enPeerPubkey e) (enBody e) (enSignature e) then Fail ErrEnvelopeSignatureInvalid
      else Ok ())"

text \<open>\<open>None\<close> is a result whose \<^verbatim>\<open>OK\<close> field is false: the data are no envelope.\<close>

definition decodeEnvelope :: "envelope_json \<Rightarrow> bytes \<Rightarrow> Envelope option result" where
  "decodeEnvelope X data =
     and_then (ejProbe X data) (\<lambda>(pk, body, sig).
       if length pk = 0 \<and> length body = 0 \<and> length sig = 0 then Ok None
       else and_then (ejWire X data) (\<lambda>wire. Ok (Some wire)))"

definition unwrapEnvelope :: "envelope_json \<Rightarrow> bytes \<Rightarrow> bytes result" where
  "unwrapEnvelope X data =
     and_then (decodeEnvelope X data) (\<lambda>decoded.
       case decoded of
         None \<Rightarrow> Ok data
       | Some envelope \<Rightarrow>
           if length (enBody envelope) = 0 then Fail ErrEnvelopeBodyEmpty
           else and_then (VerifySignature X envelope) (\<lambda>_. Ok (enBody envelope)))"

definition decodeReceivedMessage :: "'any json \<Rightarrow> envelope_json \<Rightarrow> bytes \<Rightarrow> Message result" where
  "decodeReceivedMessage j X data = and_then (unwrapEnvelope X data) (decodeMessageJSON j)"

section \<open>Messages\<close>

definition encryptMessage :: "'any json \<Rightarrow> 'c aead \<Rightarrow> (nat \<Rightarrow> bytes result) \<Rightarrow> Message \<Rightarrow> bytes \<Rightarrow> bytes result" where
  "encryptMessage j A randRead msg sharedSecret =
     and_then (MarshalJSON j (VMessagePtr (Some msg))) (\<lambda>msgData.
     encryptTransportPayload A randRead msgData sharedSecret)"

definition decryptMessage :: "'any json \<Rightarrow> envelope_json \<Rightarrow> 'c aead \<Rightarrow> bytes \<Rightarrow> bytes \<Rightarrow> Message result" where
  "decryptMessage j X A data sharedSecret =
     and_then (decryptTransportPayload A data sharedSecret) (decodeReceivedMessage j X)"

section \<open>Round trip and acceptance\<close>

text \<open>
  What the code relies on: of the AEAD, that opening inverts sealing under the same key, nonce and
  additional data, that sealing lengthens by the overhead, and that random reads fill the buffer; of
  JSON, that this message survives its encoding and does not look like an envelope.
\<close>

definition aead_laws :: "'c aead \<Rightarrow> bool" where
  "aead_laws A \<longleftrightarrow>
     (\<forall>c nonce p ad. aeOpen A c nonce (aeSeal A c nonce p ad) ad = Ok p) \<and>
     (\<forall>c nonce p ad. length (aeSeal A c nonce p ad) = length p + aeOverhead A c)"

definition wire_faithful :: "'any json \<Rightarrow> envelope_json \<Rightarrow> Message \<Rightarrow> bool" where
  "wire_faithful j X m \<longleftrightarrow>
     (case marshalMessageJSON j (Some m) of
        Ok b \<Rightarrow> decodeMessageJSON j b = Ok m \<and> ejProbe X b = Ok ([], [], [])
      | _ \<Rightarrow> False)"

lemma transport_payload_roundtrip:
  assumes "aead_laws A" and "\<And>n b. randRead n = Ok b \<Longrightarrow> length b = n"
    and "encryptTransportPayload A randRead payload secret = Ok data"
  shows "decryptTransportPayload A data secret = Ok payload"
proof -
  obtain c nonce where c: "newTransportAEAD A secret = Ok c" and nonce: "randRead (aeNonceSize A c) = Ok nonce"
    and data: "data = transportAEADVersion # nonce @ aeSeal A c nonce payload transportAEADAdditionalData"
    using assms(3) by (auto simp: encryptTransportPayload_def)
  have "length nonce = aeNonceSize A c" using assms(2) [OF nonce] .
  then show ?thesis using assms(1) c by (simp add: decryptTransportPayload_def data Let_def aead_laws_def)
qed

lemma length_deriveSubKey: "deriveSubKey secret info = Ok k \<Longrightarrow> length k = subKeySize"
  by (auto simp: deriveSubKey_def hkdf_Expand_def subKeySize_def sha256_Size_def Let_def)

lemma deriveSubKeys_Ok:
  assumes "length secret = sharedSecretSize"
  shows "\<exists>keys. deriveSubKeys secret = Ok keys \<and> length (encKey keys) = subKeySize"
proof -
  have "\<exists>k. deriveSubKey secret info = Ok k" for info
    by (simp add: deriveSubKey_def hkdf_Expand_def subKeySize_def sha256_Size_def)
  then obtain e m c where keys: "deriveSubKey secret keyInfoEncryptV1 = Ok e"
      "deriveSubKey secret keyInfoMACV1 = Ok m" "deriveSubKey secret keyInfoChallengeV1 = Ok c"
    by blast
  then show ?thesis using assms length_deriveSubKey [OF keys(1)] by (simp add: deriveSubKeys_def)
qed

text \<open>
  Two nodes that share a secret can talk: every message that survives its JSON encoding is encrypted
  successfully, and what is sent decrypts under the same secret to that message.
\<close>

theorem secure_message_roundtrip:
  assumes "aead_laws A" and "\<And>k. length k = subKeySize \<Longrightarrow> is_Ok (aeNew A k)"
    and "\<And>n. \<exists>b. randRead n = Ok b \<and> length b = n"
    and "length secret = sharedSecretSize" and "wire_faithful j X m"
  shows "\<exists>data. encryptMessage j A randRead m secret = Ok data \<and> decryptMessage j X A data secret = Ok m"
proof -
  obtain b where b: "marshalMessageJSON j (Some m) = Ok b" and decoded: "decodeMessageJSON j b = Ok m"
    and probe: "ejProbe X b = Ok ([], [], [])"
    using assms(5) by (auto simp: wire_faithful_def split: result.splits)
  obtain keys where keys: "deriveSubKeys secret = Ok keys" "length (encKey keys) = subKeySize"
    using deriveSubKeys_Ok [OF assms(4)] by blast
  then obtain c where c: "newTransportAEAD A secret = Ok c"
    using assms(2) [OF keys(2)] by (auto simp: newTransportAEAD_def is_Ok_iff)
  obtain nonce where "randRead (aeNonceSize A c) = Ok nonce" using assms(3) by blast
  then obtain data where data: "encryptTransportPayload A randRead b secret = Ok data"
    using c by (simp add: encryptTransportPayload_def)
  have "length b' = n" if "randRead n = Ok b'" for n b' using assms(3) [of n] that by simp
  from transport_payload_roundtrip [OF assms(1) this data] show ?thesis
    using b data decoded probe
    by (simp add: encryptMessage_def decryptMessage_def decodeReceivedMessage_def unwrapEnvelope_def decodeEnvelope_def)
qed

text \<open>A cipher that appends a tag, and JSON for one message.\<close>

definition tag_aead :: "bytes aead" where
  "tag_aead =
     \<lparr>aeNew = Ok, aeNonceSize = (\<lambda>_. 12), aeOverhead = (\<lambda>_. 16),
      aeSeal = (\<lambda>k nonce p ad. p @ replicate 16 (hd (ad @ [0]))),
      aeOpen = (\<lambda>k nonce ct ad.
        if 16 \<le> length ct \<and> drop (length ct - 16) ct = replicate 16 (hd (ad @ [0]))
        then Ok (take (length ct - 16) ct) else Fail (Errorf ''message authentication failed'' None))\<rparr>"

lemma tag_aead_laws: "aead_laws tag_aead"
  by (simp add: aead_laws_def tag_aead_def)

definition bare_envelopes :: envelope_json where
  "bare_envelopes = \<lparr>ejProbe = (\<lambda>_. Ok ([], [], [])), ejWire = (\<lambda>_. Fail EOF), ejVerify = (\<lambda>_ _ _. False)\<rparr>"

definition message_json :: "Message \<Rightarrow> unit json" where
  "message_json m =
     (table_json [])\<lparr>jsMarshalWire := (\<lambda>_. Ok ''m''),
        jsUnmarshalWire := (\<lambda>_. Ok \<lparr>wID = mID m, wType = mType m, wFrom = mFrom m, wTo = mTo m,
          wTimestamp = mTimestamp m, wPayload = map_option (\<lambda>_. ()) (mPayload m), wReplyTo = mReplyTo m\<rparr>)\<rparr>"

lemma message_json_faithful:
  assumes "mPayload m = None \<or> mPayload m = Some []"
  shows "wire_faithful (message_json m) bare_envelopes m"
  using assms
  by (cases m) (auto simp: wire_faithful_def marshalMessageJSON_def decodeMessageJSON_def message_json_def
      table_json_def bare_envelopes_def unescapeHTML_def bytes_of_def)

theorem secure_message_roundtrip_witness:
  "\<exists>data. encryptMessage (message_json example_ping) tag_aead (\<lambda>n. Ok (replicate n 9)) example_ping (replicate 32 5) = Ok data
     \<and> decryptMessage (message_json example_ping) bare_envelopes tag_aead data (replicate 32 5) = Ok example_ping"
  by (rule secure_message_roundtrip [OF tag_aead_laws])
    (simp_all add: tag_aead_def sharedSecretSize_def message_json_faithful example_ping_def)

definition example_frame :: bytes where
  "example_frame = transportAEADVersion # replicate 12 9 @ bytes_of ''m'' @ replicate 16 1"

lemma example_frame_decrypts:
  assumes "length secret = sharedSecretSize"
  shows "decryptMessage (message_json example_ping) bare_envelopes tag_aead example_frame secret = Ok example_ping"
proof -
  let ?j = "message_json example_ping"
  obtain keys where keys: "deriveSubKeys secret = Ok keys" using deriveSubKeys_Ok [OF assms] by blast
  have "decodeMessageJSON ?j (bytes_of ''m'') = Ok example_ping"
    using message_json_faithful [of example_ping]
    by (simp add: wire_faithful_def marshalMessageJSON_def message_json_def table_json_def unescapeHTML_def example_ping_def)
  moreover have "decryptTransportPayload tag_aead example_frame secret = Ok (bytes_of ''m'')"
    using keys by (simp add: decryptTransportPayload_def newTransportAEAD_def tag_aead_def transportAEADVersion_def
        transportAEADAdditionalData_def example_frame_def Let_def)
  ultimately show ?thesis
    by (simp add: decryptMessage_def decodeReceivedMessage_def unwrapEnvelope_def decodeEnvelope_def bare_envelopes_def)
qed

text \<open>
  C6. Nothing is accepted without authentication: a received frame yields a message only if it is a
  version byte, a nonce and a ciphertext that opens under the encryption subkey of the connection's
  secret, and the message is decoded from the opened text, or from the body of an envelope there whose
  signature is absent or verifies over that body under the envelope's own key.
\<close>

theorem accepted_message_authentic:
  assumes "decryptMessage j X A data secret = Ok m"
  shows "\<exists>keys c nonce ct plain. deriveSubKeys secret = Ok keys \<and> aeNew A (encKey keys) = Ok c
    \<and> data = transportAEADVersion # nonce @ ct \<and> length nonce = aeNonceSize A c
    \<and> aeOpen A c nonce ct transportAEADAdditionalData = Ok plain
    \<and> (decodeMessageJSON j plain = Ok m \<or> (\<exists>env. ejWire X plain = Ok env \<and> enBody env \<noteq> []
         \<and> decodeMessageJSON j (enBody env) = Ok m
         \<and> (enSignature env = [] \<or> ejVerify X (enPeerPubkey env) (enBody env) (enSignature env))))"
proof -
  obtain plain where dec0: "decryptTransportPayload A data secret = Ok plain" and msg: "decodeReceivedMessage j X plain = Ok m"
    using assms by (auto simp: decryptMessage_def)
  obtain keys c where keys: "deriveSubKeys secret = Ok keys" "aeNew A (encKey keys) = Ok c"
    and long: "1 + aeNonceSize A c + aeOverhead A c \<le> length data" and version: "data ! 0 = transportAEADVersion"
    and opened: "aeOpen A c (drop 1 (take (1 + aeNonceSize A c) data)) (drop (1 + aeNonceSize A c) data)
      transportAEADAdditionalData = Ok plain"
    using dec0 by (auto simp: decryptTransportPayload_def newTransportAEAD_def Let_def split: if_splits)
  obtain rest where data: "data = transportAEADVersion # rest"
    using long version by (cases data) auto
  have "data = transportAEADVersion # take (aeNonceSize A c) rest @ drop (aeNonceSize A c) rest"
    and "length (take (aeNonceSize A c) rest) = aeNonceSize A c"
    and "aeOpen A c (take (aeNonceSize A c) rest) (drop (aeNonceSize A c) rest) transportAEADAdditionalData = Ok plain"
    using long opened by (simp_all add: data)
  moreover have "decodeMessageJSON j plain = Ok m \<or> (\<exists>env. ejWire X plain = Ok env \<and> enBody env \<noteq> []
         \<and> decodeMessageJSON j (enBody env) = Ok m
         \<and> (enSignature env = [] \<or> ejVerify X (enPeerPubkey env) (enBody env) (enSignature env)))"
    using msg unfolding decodeReceivedMessage_def unwrapEnvelope_def decodeEnvelope_def VerifySignature_def
    by (auto split: if_splits)
  ultimately show ?thesis using keys by blast
qed

theorem accepted_message_authentic_witness:
  "\<exists>plain. decryptMessage (message_json example_ping) bare_envelopes tag_aead example_frame (replicate 32 5) = Ok example_ping
     \<and> (\<exists>c nonce ct. example_frame = transportAEADVersion # nonce @ ct \<and> aeOpen tag_aead c nonce ct transportAEADAdditionalData = Ok plain)"
proof -
  have run: "decryptMessage (message_json example_ping) bare_envelopes tag_aead example_frame (replicate 32 5) = Ok example_ping"
    by (rule example_frame_decrypts) (simp add: sharedSecretSize_def)
  from accepted_message_authentic [OF run] run show ?thesis by blast
qed

end
