(* ===== verification/Transport_Net.thy ===== *)
theory Transport_Net
  imports Secure_Channel Peer_Registry Transport_Guards
begin

text \<open>
  Connections and handshakes of \<^verbatim>\<open>src/go/node/transport.go\<close>.

  A \<^verbatim>\<open>PeerConnection\<close> is a heap object: \<open>trHeap\<close> maps references to connections, \<open>trConns\<close> is the map
  from peer identifiers to references, and two references are compared where the code compares
  pointers. The web socket is an argument of each operation: the frame a read returns, the error of a
  write or a close. Of the peer a connection points to, only the identifier is used after the
  handshake, so the connection holds the peer by value. \<open>crypto\<close> collects the libraries.
\<close>

section \<open>Configuration and state\<close>

definition DefaultMaxMessageSize :: int where "DefaultMaxMessageSize = 1048576"
definition DefaultIdleTimeout :: duration where "DefaultIdleTimeout = 30 * second"

record TransportConfig =
  ListenAddr :: string
  WSPath :: string
  TLSCertPath :: string
  TLSKeyPath :: string
  MaxConns :: int
  MaxMessageSize :: int
  IdleTimeout :: duration
  PingInterval :: duration
  PongTimeout :: duration

definition DefaultTransportConfig :: TransportConfig where
  "DefaultTransportConfig =
     \<lparr>ListenAddr = '':9091'', WSPath = ''/ws'', TLSCertPath = [], TLSKeyPath = [], MaxConns = 100,
      MaxMessageSize = DefaultMaxMessageSize, IdleTimeout = DefaultIdleTimeout,
      PingInterval = 30 * second, PongTimeout = 10 * second\<rparr>"

record PeerConnection =
  pcPeer :: Peer
  pcSecret :: "bytes option"
  pcLastActivity :: instant
  pcLimiter :: PeerRateLimiter
  pcClosed :: bool

text \<open>The functions of the repository that are set as the handler of incoming messages, or another one.\<close>

datatype MessageHandler =
    WorkerHandleMessage
  | ControllerHandleResponse
  | ContentBusHandleMessage
  | OtherHandler nat

text \<open>
  The HTTP server that \<^verbatim>\<open>Start\<close> configures, with the one pattern its multiplexer hands to the
  upgrade handler, and how it launches it: plain, or with a certificate and a key.
\<close>

datatype cipher_suite =
    TLS_AES_128_GCM_SHA256
  | TLS_AES_256_GCM_SHA384
  | TLS_CHACHA20_POLY1305_SHA256
  | TLS_ECDHE_RSA_WITH_AES_128_GCM_SHA256
  | TLS_ECDHE_RSA_WITH_AES_256_GCM_SHA384
  | TLS_ECDHE_ECDSA_WITH_AES_128_GCM_SHA256
  | TLS_ECDHE_ECDSA_WITH_AES_256_GCM_SHA384
  | TLS_ECDHE_RSA_WITH_CHACHA20_POLY1305
  | TLS_ECDHE_ECDSA_WITH_CHACHA20_POLY1305

datatype curve = X25519 | CurveP256

definition VersionTLS12 :: nat where "VersionTLS12 = 0x0303"

record tls_Config =
  MinVersion :: nat
  CipherSuites :: "cipher_suite list"
  CurvePreferences :: "curve list"

definition hardened_tls :: tls_Config where
  "hardened_tls =
     \<lparr>MinVersion = VersionTLS12,
      CipherSuites =
        [TLS_AES_128_GCM_SHA256, TLS_AES_256_GCM_SHA384, TLS_CHACHA20_POLY1305_SHA256,
         TLS_ECDHE_RSA_WITH_AES_128_GCM_SHA256, TLS_ECDHE_RSA_WITH_AES_256_GCM_SHA384,
         TLS_ECDHE_ECDSA_WITH_AES_128_GCM_SHA256, TLS_ECDHE_ECDSA_WITH_AES_256_GCM_SHA384,
         TLS_ECDHE_RSA_WITH_CHACHA20_POLY1305, TLS_ECDHE_ECDSA_WITH_CHACHA20_POLY1305],
      CurvePreferences = [X25519, CurveP256]\<rparr>"

datatype launch = ListenAndServe | ListenAndServeTLS string string

record Server =
  srvAddr :: string
  srvPattern :: string
  srvReadTimeout :: duration
  srvWriteTimeout :: duration
  srvIdleTimeout :: duration
  srvReadHeaderTimeout :: duration
  srvTLSConfig :: "tls_Config option"
  srvLaunch :: launch

record 'kd Transport =
  trConfig :: TransportConfig
  trRegistry :: "'kd PeerRegistry"
  trConns :: "(string \<times> nat) list"
  trHeap :: "nat \<Rightarrow> PeerConnection option"
  trPending :: int
  trHandler :: "MessageHandler option"
  trServer :: "Server option"
  trDedup :: MessageDeduplicator
  trWire :: "(nat \<times> bytes) list"

definition NewTransport :: "'kd PeerRegistry \<Rightarrow> TransportConfig \<Rightarrow> 'kd Transport" where
  "NewTransport registry config =
     \<lparr>trConfig = config, trRegistry = registry, trConns = [], trHeap = Map.empty, trPending = 0,
      trHandler = None, trServer = None, trDedup = NewMessageDeduplicator (300 * second), trWire = []\<rparr>"

definition OnMessage :: "MessageHandler \<Rightarrow> 'kd Transport \<Rightarrow> 'kd Transport" where
  "OnMessage handler t = t\<lparr>trHandler := Some handler\<rparr>"

text \<open>
  Starting only launches the server in the background: that it fails to listen is logged, not returned.
\<close>

definition tls_enabled :: "TransportConfig \<Rightarrow> bool" where
  "tls_enabled cfg \<longleftrightarrow> TLSCertPath cfg \<noteq> [] \<and> TLSKeyPath cfg \<noteq> []"

definition server_of :: "TransportConfig \<Rightarrow> Server" where
  "server_of cfg =
     \<lparr>srvAddr = ListenAddr cfg, srvPattern = WSPath cfg, srvReadTimeout = 30 * second, srvWriteTimeout = 30 * second,
      srvIdleTimeout = 60 * second, srvReadHeaderTimeout = 10 * second,
      srvTLSConfig = (if tls_enabled cfg then Some hardened_tls else None),
      srvLaunch = (if tls_enabled cfg then ListenAndServeTLS (TLSCertPath cfg) (TLSKeyPath cfg) else ListenAndServe)\<rparr>"

definition Start :: "('kd Transport, unit) cmd" where
  "Start t = (Ok (), t\<lparr>trServer := Some (server_of (trConfig t))\<rparr>)"

text \<open>The scheme \<^verbatim>\<open>Connect\<close> dials with.\<close>

definition dial_scheme :: "TransportConfig \<Rightarrow> string" where
  "dial_scheme cfg = (if TLSCertPath cfg \<noteq> [] then ''wss'' else ''ws'')"

text \<open>
  With a certificate but no key a node serves plain connections and dials encrypted ones: two nodes with
  this configuration cannot connect to each other.
\<close>

lemma cert_without_key_mismatch:
  assumes "TLSCertPath (trConfig t) \<noteq> []" and "TLSKeyPath (trConfig t) = []"
  shows "dial_scheme (trConfig t) = ''wss''"
    and "map_option srvLaunch (trServer (snd (Start t))) = Some ListenAndServe"
  using assms by (simp_all add: dial_scheme_def Start_def server_of_def tls_enabled_def)

text \<open>The origin check of the upgrader; \<open>parseHost\<close> is the host name of a parsed URL, if it parses.\<close>

definition CheckOrigin :: "(string \<Rightarrow> string option) \<Rightarrow> string \<Rightarrow> bool" where
  "CheckOrigin parseHost origin =
     (if origin = [] then True
      else case parseHost origin of
          None \<Rightarrow> False
        | Some host \<Rightarrow> host = ''localhost'' \<or> host = ''127.0.0.1'' \<or> host = ''::1'')"

definition idleTimeout :: "'kd Transport \<Rightarrow> duration" where
  "idleTimeout t = (if IdleTimeout (trConfig t) > 0 then IdleTimeout (trConfig t) else DefaultIdleTimeout)"

definition read_limit :: "'kd Transport \<Rightarrow> int" where
  "read_limit t = (if MaxMessageSize (trConfig t) \<le> 0 then DefaultMaxMessageSize else MaxMessageSize (trConfig t))"

definition GetConnection :: "string \<Rightarrow> 'kd Transport \<Rightarrow> nat option" where
  "GetConnection peerID t = map_of (trConns t) peerID"

definition Connections :: "'kd Transport \<Rightarrow> nat list" where
  "Connections t = map snd (trConns t)"

definition ConnectedPeers :: "'kd Transport \<Rightarrow> nat" where
  "ConnectedPeers t = length (trConns t)"

record ('any, 'c, 'kp, 'pk, 'sk, 'kd) crypto =
  crJSON :: "'any json"
  crEnvelope :: envelope_json
  crAEAD :: "'c aead"
  crKeys :: "('kp, 'pk, 'sk) keys"
  crNode :: "'kp NodeManager"
  crTree :: "KDPoint list \<Rightarrow> 'kd option"

text \<open>What one operation observes: clock, identifiers, randomness, and errors of socket calls.\<close>

record ambient =
  amNow :: instant
  amUUID :: string
  amRandom :: "nat \<Rightarrow> bytes result"
  amDeadlineErr :: "go_error option"
  amWriteErr :: "go_error option"
  amCloseErr :: "go_error option"

section \<open>Life of a connection\<close>

definition with_conn :: "nat \<Rightarrow> (PeerConnection \<Rightarrow> PeerConnection) \<Rightarrow> 'kd Transport \<Rightarrow> 'kd Transport" where
  "with_conn c f t = t\<lparr>trHeap := (trHeap t)(c := map_option f (trHeap t c))\<rparr>"

definition markActivity :: "instant \<Rightarrow> nat \<Rightarrow> 'kd Transport \<Rightarrow> 'kd Transport" where
  "markActivity now c = with_conn c (\<lambda>pc. pc\<lparr>pcLastActivity := now\<rparr>)"

definition dropConnection :: "instant \<Rightarrow> nat \<Rightarrow> 'kd Transport \<Rightarrow> 'kd Transport" where
  "dropConnection now c t =
     (case trHeap t c of
        None \<Rightarrow> t
      | Some pc \<Rightarrow>
          (let i = ID (pcPeer pc);
               t1 = (if map_of (trConns t) i = Some c then t\<lparr>trConns := AList.delete i (trConns t)\<rparr> else t)
           in t1\<lparr>trRegistry := SetConnected now i False (trRegistry t1)\<rparr>))"

text \<open>\<^verbatim>\<open>core.ResultOf(nil, err)\<close>.\<close>

definition result_of :: "go_error option \<Rightarrow> unit result" where
  "result_of err = (case err of None \<Rightarrow> Ok () | Some e \<Rightarrow> Fail e)"

definition CloseConn :: "ambient \<Rightarrow> nat \<Rightarrow> ('kd Transport, unit) cmd" where
  "CloseConn am c t =
     (case trHeap t c of
        None \<Rightarrow> (Panic NilDereference, t)
      | Some pc \<Rightarrow>
          if pcClosed pc then (Ok (), t)
          else (result_of (amCloseErr am), with_conn c (\<lambda>pc. pc\<lparr>pcClosed := True\<rparr>) (dropConnection (amNow am) c t)))"

definition removeConnection :: "ambient \<Rightarrow> nat \<Rightarrow> 'kd Transport \<Rightarrow> 'kd Transport" where
  "removeConnection am c t = snd (CloseConn am c t)"

text \<open>A nil secret is an empty key, which the derivation refuses.\<close>

definition SendConn :: "('any, 'c, 'kp, 'pk, 'sk, 'kd) crypto \<Rightarrow> ambient \<Rightarrow> nat \<Rightarrow> Message \<Rightarrow> ('kd Transport, unit) cmd" where
  "SendConn cr am c msg t =
     (case trHeap t c of
        None \<Rightarrow> (Panic NilDereference, t)
      | Some pc \<Rightarrow>
          cmd_then (of_result (encryptMessage (crJSON cr) (crAEAD cr) (amRandom am) msg
              (case pcSecret pc of None \<Rightarrow> [] | Some k \<Rightarrow> k))) (\<lambda>data t.
            case (amDeadlineErr am, amWriteErr am) of
              (Some e, _) \<Rightarrow> (Fail (E ''PeerConnection.Send'' ''failed to set write deadline'' (Some e)), t)
            | (None, Some e) \<Rightarrow> (Fail e, t)
            | (None, None) \<Rightarrow> (Ok (), markActivity (amNow am) c (t\<lparr>trWire := trWire t @ [(c, data)]\<rparr>))) t)"

definition SendTo :: "('any, 'c, 'kp, 'pk, 'sk, 'kd) crypto \<Rightarrow> ambient \<Rightarrow> string \<Rightarrow> Message \<Rightarrow> ('kd Transport, unit) cmd" where
  "SendTo cr am peerID msg t =
     (case GetConnection peerID t of
        None \<Rightarrow> (Fail (E ''Transport.Send'' (''peer '' @ peerID @ '' not connected'') None), t)
      | Some c \<Rightarrow> SendConn cr am c msg t)"

text \<open>The connections in the iteration order of the map, each send with what it observes.\<close>

fun broadcast_loop :: "('any, 'c, 'kp, 'pk, 'sk, 'kd) crypto \<Rightarrow> (nat \<Rightarrow> ambient) \<Rightarrow> Message \<Rightarrow> nat list \<Rightarrow> go_error option \<Rightarrow> ('kd Transport, go_error option) cmd" where
  "broadcast_loop cr am msg [] lastErr t = (Ok lastErr, t)"
| "broadcast_loop cr am msg (c # cs) lastErr t =
     (case trHeap t c of
        None \<Rightarrow> (Panic NilDereference, t)
      | Some pc \<Rightarrow>
          if ID (pcPeer pc) = mFrom msg then broadcast_loop cr am msg cs lastErr t
          else case SendConn cr (am c) c msg t of
              (Ok _, t') \<Rightarrow> broadcast_loop cr am msg cs lastErr t'
            | (Fail e, t') \<Rightarrow> broadcast_loop cr am msg cs (Some e) t'
            | (Panic p, t') \<Rightarrow> (Panic p, t'))"

definition Broadcast :: "('any, 'c, 'kp, 'pk, 'sk, 'kd) crypto \<Rightarrow> (nat \<Rightarrow> ambient) \<Rightarrow> Message \<Rightarrow> ('kd Transport, unit) cmd" where
  "Broadcast cr am msg t =
     cmd_then (broadcast_loop cr am msg (Connections t) None) (\<lambda>lastErr. of_result (result_of lastErr)) t"

definition DisconnectNormal :: int where "DisconnectNormal = 1000"
definition DisconnectGoingAway :: int where "DisconnectGoingAway = 1001"
definition DisconnectProtocolErr :: int where "DisconnectProtocolErr = 1002"
definition DisconnectTimeout :: int where "DisconnectTimeout = 1003"
definition DisconnectShutdown :: int where "DisconnectShutdown = 1004"

text \<open>The farewell is sent at best effort: its result is dropped.\<close>

definition farewell :: "('any, 'c, 'kp, 'pk, 'sk, 'kd) crypto \<Rightarrow> ambient \<Rightarrow> nat \<Rightarrow> PeerConnection \<Rightarrow> string \<Rightarrow> int \<Rightarrow> 'kd Transport \<Rightarrow> 'kd Transport" where
  "farewell cr am c pc reason code t =
     (case (pcSecret pc, GetIdentity (crNode cr)) of
        (Some _, Some identity) \<Rightarrow>
          (case NewMessage (crJSON cr) (amUUID am) (amNow am) MsgDisconnect (niID identity) (ID (pcPeer pc))
                  (Some (PDisconnect \<lparr>dcReason = reason, dcCode = code\<rparr>)) of
             Ok msg \<Rightarrow> snd (SendConn cr am c msg t)
           | _ \<Rightarrow> t)
      | _ \<Rightarrow> t)"

definition GracefulClose :: "('any, 'c, 'kp, 'pk, 'sk, 'kd) crypto \<Rightarrow> ambient \<Rightarrow> nat \<Rightarrow> string \<Rightarrow> int \<Rightarrow> ('kd Transport, unit) cmd" where
  "GracefulClose cr am c reason code t =
     (case trHeap t c of
        None \<Rightarrow> (Panic NilDereference, t)
      | Some pc \<Rightarrow>
          if pcClosed pc then (Ok (), t)
          else (result_of (amCloseErr am),
                with_conn c (\<lambda>pc. pc\<lparr>pcClosed := True\<rparr>)
                  (dropConnection (amNow am) c (farewell cr am c pc reason code t))))"

text \<open>\<open>shutdownErr\<close> is the outcome of shutting down the HTTP server, which is done only if one was started.\<close>

definition Stop :: "('any, 'c, 'kp, 'pk, 'sk, 'kd) crypto \<Rightarrow> (nat \<Rightarrow> ambient) \<Rightarrow> go_error option \<Rightarrow> ('kd Transport, unit) cmd" where
  "Stop cr am shutdownErr t =
     (if trServer t = None then Ok ()
      else map_err (\<lambda>e. E ''Transport.Stop'' ''server shutdown error'' (Some e)) (result_of shutdownErr),
      fold (\<lambda>c t. snd (GracefulClose cr (am c) c ''server shutdown'' DisconnectShutdown t)) (Connections t) t)"

section \<open>Receiving\<close>

text \<open>
  One round of \<^verbatim>\<open>readLoop\<close> on a frame: the message handed to the handler, if any.
\<close>

definition readLoop_frame :: "('any, 'c, 'kp, 'pk, 'sk, 'kd) crypto \<Rightarrow> instant \<Rightarrow> nat \<Rightarrow> bytes \<Rightarrow> ('kd Transport, Message option) cmd" where
  "readLoop_frame cr now c data t =
     (case trHeap t c of
        None \<Rightarrow> (Panic NilDereference, t)
      | Some pc \<Rightarrow>
          (let (ok, limiter) = Allow now (pcLimiter pc);
               t1 = with_conn c (\<lambda>pc. pc\<lparr>pcLimiter := limiter\<rparr>) (markActivity now c t)
           in if \<not> ok then (Ok None, t1)
              else case decryptMessage (crJSON cr) (crEnvelope cr) (crAEAD cr) data
                          (case pcSecret pc of None \<Rightarrow> [] | Some k \<Rightarrow> k) of
                  Fail _ \<Rightarrow> (Ok None, t1)
                | Panic p \<Rightarrow> (Panic p, t1)
                | Ok msg \<Rightarrow>
                    (case IsDuplicate now (mID msg) (trDedup t1) of
                       (dup, d) \<Rightarrow>
                         if dup then (Ok None, t1\<lparr>trDedup := d\<rparr>)
                         else (Ok (Some msg), t1\<lparr>trDedup := Mark now (mID msg) d\<rparr>))))"

text \<open>
  The loop over what its rounds observe: cancellation, a failed deadline, a failed read, or a frame.
  The handler, if one is set, runs on the message of a frame and may itself use the transport. The
  connection is removed when the loop returns, and also when it panics; \<open>True\<close> says that the loop is
  still waiting for its next round.
\<close>

datatype read_event = Cancelled | DeadlineFailed go_error | ReadFailed go_error | Frame instant bytes

fun readLoop :: "('any, 'c, 'kp, 'pk, 'sk, 'kd) crypto \<Rightarrow> ambient \<Rightarrow> (nat \<Rightarrow> Message \<Rightarrow> ('kd Transport, unit) cmd) option
    \<Rightarrow> nat \<Rightarrow> read_event list \<Rightarrow> ('kd Transport, bool) cmd" where
  "readLoop cr am handler c [] t = (Ok True, t)"
| "readLoop cr am handler c (Frame now data # evs) t =
     (case cmd_then (readLoop_frame cr now c data) (\<lambda>received.
             case (received, handler) of (Some msg, Some h) \<Rightarrow> h c msg | _ \<Rightarrow> of_result (Ok ())) t of
        (Panic p, t') \<Rightarrow> (Panic p, removeConnection am c t')
      | (_, t') \<Rightarrow> readLoop cr am handler c evs t')"
| "readLoop cr am handler c (_ # evs) t = (Ok False, removeConnection am c t)"

text \<open>One tick of \<^verbatim>\<open>keepalive\<close>; the result says whether the loop goes on.\<close>

definition keepalive_tick :: "('any, 'c, 'kp, 'pk, 'sk, 'kd) crypto \<Rightarrow> ambient \<Rightarrow> nat \<Rightarrow> ('kd Transport, bool) cmd" where
  "keepalive_tick cr am c t =
     (case trHeap t c of
        None \<Rightarrow> (Panic NilDereference, t)
      | Some pc \<Rightarrow>
          if amNow am - pcLastActivity pc > PingInterval (trConfig t) + PongTimeout (trConfig t)
          then (Ok False, removeConnection am c t)
          else case GetIdentity (crNode cr) of
              None \<Rightarrow> (Panic NilDereference, t)
            | Some identity \<Rightarrow>
                (case NewMessage (crJSON cr) (amUUID am) (amNow am) MsgPing (niID identity) (ID (pcPeer pc))
                        (Some (PPing \<lparr>piSentAt = UnixMilli (amNow am)\<rparr>)) of
                   Fail _ \<Rightarrow> (Ok True, t)
                 | Panic p \<Rightarrow> (Panic p, t)
                 | Ok msg \<Rightarrow>
                     (case SendConn cr am c msg t of
                        (Ok _, t') \<Rightarrow> (Ok True, t')
                      | (Fail _, t') \<Rightarrow> (Ok False, removeConnection am c t')
                      | (Panic p, t') \<Rightarrow> (Panic p, t'))))"

text \<open>The loop over its ticks; \<open>None\<close> is the cancellation of the transport.\<close>

fun keepalive :: "('any, 'c, 'kp, 'pk, 'sk, 'kd) crypto \<Rightarrow> nat \<Rightarrow> ambient option list \<Rightarrow> ('kd Transport, bool) cmd" where
  "keepalive cr c [] t = (Ok True, t)"
| "keepalive cr c (None # ticks) t = (Ok False, t)"
| "keepalive cr c (Some am # ticks) t =
     cmd_then (keepalive_tick cr am c) (\<lambda>go. if go then keepalive cr c ticks else of_result (Ok False)) t"

text \<open>The goroutine that \<^verbatim>\<open>Start\<close> runs every minute.\<close>

definition cleanup_tick :: "instant \<Rightarrow> 'kd Transport \<Rightarrow> 'kd Transport" where
  "cleanup_tick now t = t\<lparr>trDedup := Cleanup now (trDedup t)\<rparr>"

section \<open>Handshakes\<close>

definition new_limiter :: "instant \<Rightarrow> PeerRateLimiter" where
  "new_limiter now = NewPeerRateLimiter now 100 50"

text \<open>Storing a connection, marking its peer and starting its loops.\<close>

definition storeConnection :: "instant \<Rightarrow> nat \<Rightarrow> PeerConnection \<Rightarrow> 'kd Transport \<Rightarrow> 'kd Transport" where
  "storeConnection now c pc t =
     t\<lparr>trHeap := (trHeap t)(c \<mapsto> pc), trConns := AList.update (ID (pcPeer pc)) c (trConns t),
       trRegistry := SetConnected now (ID (pcPeer pc)) True (trRegistry t)\<rparr>"

fun join_spaces :: "string list \<Rightarrow> string" where
  "join_spaces [] = []"
| "join_spaces [x] = x"
| "join_spaces (x # xs) = x @ '' '' @ join_spaces xs"

definition version_reason :: "string \<Rightarrow> string" where
  "version_reason v =
     ''incompatible protocol version '' @ v @ '', supported: ['' @ join_spaces SupportedProtocolVersions @ '']''"

text \<open>The frames of a rejection: one if the node has an identity and the message can be built.\<close>

definition reject_frames :: "('any, 'c, 'kp, 'pk, 'sk, 'kd) crypto \<Rightarrow> ambient \<Rightarrow> string \<Rightarrow> string \<Rightarrow> bytes list" where
  "reject_frames cr am peerID reason =
     (case GetIdentity (crNode cr) of
        None \<Rightarrow> []
      | Some identity \<Rightarrow>
          (case and_then (NewMessage (crJSON cr) (amUUID am) (amNow am) MsgHandshakeAck (niID identity) peerID
                  (Some (PHandshakeAck \<lparr>haIdentity = identity, haChallengeResponse = [], haAccepted = False, haReason = reason\<rparr>)))
                (\<lambda>m. MarshalJSON (crJSON cr) (VMessagePtr (Some m))) of
             Ok data \<Rightarrow> [data]
           | _ \<Rightarrow> []))"

text \<open>How \<^verbatim>\<open>handleWSUpgrade\<close> ends: refused before the upgrade, closed after writing some frames, or accepted.\<close>

datatype upgrade =
    TooManyConnections
  | UpgradeFailed
  | ClosedAfter "bytes list"
  | AcceptedWith bytes

definition auto_peer :: "instant \<Rightarrow> NodeIdentity \<Rightarrow> Peer" where
  "auto_peer now i =
     \<lparr>ID = niID i, Name = niName i, PublicKey = niPublicKey i, Address = [], Role = niRole i, AddedAt = Some now,
      LastSeen = None, Latitude = Fin 0, Longitude = Fin 0, PingMS = Fin 0, Hops = 0, GeoKM = Fin 0,
      Score = Fin 50, Connected = False\<rparr>"

definition challenge_response :: "bytes \<Rightarrow> bytes \<Rightarrow> bytes result" where
  "challenge_response challenge sharedSecret =
     (if length challenge > 0
      then and_then (deriveSubKeys sharedSecret) (\<lambda>subKeys. Ok (SignChallenge challenge (chlKey subKeys)))
      else Ok [])"

text \<open>The end of the server side, once the peer is authorised: registration, acknowledgement, storing.\<close>

definition accept_peer :: "('any, 'c, 'kp, 'pk, 'sk, 'kd) crypto \<Rightarrow> ambient \<Rightarrow> nat \<Rightarrow> HandshakePayload \<Rightarrow> bytes \<Rightarrow> 'kd Transport \<Rightarrow> upgrade \<times> 'kd Transport" where
  "accept_peer cr am c payload sharedSecret t =
     (let now = amNow am; i = hsIdentity payload;
          (peer, t1) = (case GetPeer (niID i) (trRegistry t) of
             Some p \<Rightarrow> (p, t)
           | None \<Rightarrow> (auto_peer now i, t\<lparr>trRegistry := snd (AddPeer (crTree cr) now (auto_peer now i) (trRegistry t))\<rparr>))
      in case GetIdentity (crNode cr) of
           None \<Rightarrow> (ClosedAfter [], t1)
         | Some identity \<Rightarrow>
             (case and_then (challenge_response (hsChallenge payload) sharedSecret) (\<lambda>response.
                   and_then (NewMessage (crJSON cr) (amUUID am) now MsgHandshakeAck (niID identity) (ID peer)
                     (Some (PHandshakeAck \<lparr>haIdentity = identity, haChallengeResponse = response, haAccepted = True, haReason = []\<rparr>)))
                   (\<lambda>m. MarshalJSON (crJSON cr) (VMessagePtr (Some m)))) of
                Ok ackData \<Rightarrow>
                  if amWriteErr am \<noteq> None then (ClosedAfter [], t1)
                  else (AcceptedWith ackData,
                        storeConnection now c \<lparr>pcPeer = peer, pcSecret = Some sharedSecret, pcLastActivity = now,
                          pcLimiter = new_limiter now, pcClosed = False\<rparr> t1)
              | _ \<Rightarrow> (ClosedAfter [], t1)))"

text \<open>
  \<open>upgraded\<close> says whether the HTTP upgrade succeeded, \<open>frame\<close> what the first read returned. The pending
  counter is raised during the call and lowered when it returns.
\<close>

definition handleWSUpgrade :: "('any, 'c, 'kp, 'pk, 'sk, 'kd) crypto \<Rightarrow> ambient \<Rightarrow> nat \<Rightarrow> bool \<Rightarrow> bytes result \<Rightarrow> 'kd Transport \<Rightarrow> upgrade \<times> 'kd Transport" where
  "handleWSUpgrade cr am c upgraded frame t =
     (if int (length (trConns t)) + trPending t \<ge> MaxConns (trConfig t) then (TooManyConnections, t)
      else if \<not> upgraded then (UpgradeFailed, t)
      else case and_then frame (decodeMessageJSON (crJSON cr)) of
          Ok msg \<Rightarrow>
            if mType msg \<noteq> MsgHandshake then (ClosedAfter [], t)
            else (case ParsePayload (crJSON cr) KHandshake msg of
                    Ok (PHandshake payload) \<Rightarrow>
                      (let i = hsIdentity payload in
                       if \<not> IsProtocolVersionSupported (hsVersion payload)
                       then (ClosedAfter (reject_frames cr am (niID i) (version_reason (hsVersion payload))), t)
                       else case DeriveSharedSecret (crKeys cr) (niPublicKey i) (crNode cr) of
                           Ok sharedSecret \<Rightarrow>
                             if \<not> IsPeerAllowed (niID i) (niPublicKey i) (trRegistry t)
                             then (ClosedAfter (reject_frames cr am (niID i) ''peer not authorized''), t)
                             else accept_peer cr am c payload sharedSecret t
                         | _ \<Rightarrow> (ClosedAfter [], t))
                  | _ \<Rightarrow> (ClosedAfter [], t))
        | _ \<Rightarrow> (ClosedAfter [], t))"

text \<open>
  The client side. \<open>exchange\<close> is the socket: it takes the frame written and gives the outcome of the
  write and of the read that follows. The caller's peer is changed in place, as the returned one shows,
  before the challenge is checked.
\<close>

definition adopt_identity :: "NodeIdentity \<Rightarrow> Peer \<Rightarrow> Peer" where
  "adopt_identity i peer = peer\<lparr>ID := niID i, PublicKey := niPublicKey i, Name := niName i, Role := niRole i\<rparr>"

definition handshake_frame :: "('any, 'c, 'kp, 'pk, 'sk, 'kd) crypto \<Rightarrow> ambient \<Rightarrow> NodeIdentity \<Rightarrow> string \<Rightarrow> bytes \<Rightarrow> bytes result" where
  "handshake_frame cr am identity peerID challenge =
     (let err = (\<lambda>msg e. E ''Transport.performHandshake'' msg (Some e)) in
      and_then (map_err (err ''create handshake message'')
          (NewMessage (crJSON cr) (amUUID am) (amNow am) MsgHandshake (niID identity) peerID
            (Some (PHandshake \<lparr>hsIdentity = identity, hsChallenge = challenge, hsVersion = ProtocolVersion\<rparr>)))) (\<lambda>m.
      map_err (err ''marshal handshake message'') (MarshalJSON (crJSON cr) (VMessagePtr (Some m)))))"

definition read_ack :: "('any, 'c, 'kp, 'pk, 'sk, 'kd) crypto \<Rightarrow> bytes \<Rightarrow> HandshakeAckPayload result" where
  "read_ack cr ackData =
     (let err = (\<lambda>msg e. E ''Transport.performHandshake'' msg (Some e)) in
      and_then (map_err (err ''unmarshal handshake ack'') (decodeMessageJSON (crJSON cr) ackData)) (\<lambda>ackMsg.
      if mType ackMsg \<noteq> MsgHandshakeAck
      then Fail (E ''Transport.performHandshake'' (''expected handshake_ack, got '' @ mType ackMsg) None)
      else and_then (map_err (err ''parse handshake ack payload'') (ParsePayload (crJSON cr) KHandshakeAck ackMsg)) (\<lambda>p.
        case p of
          PHandshakeAck ack \<Rightarrow>
            if \<not> haAccepted ack then Fail (E ''Transport.performHandshake'' (''handshake rejected: '' @ haReason ack) None)
            else Ok ack
        | _ \<Rightarrow> Panic NilDereference)))"

definition verify_ack :: "('any, 'c, 'kp, 'pk, 'sk, 'kd) crypto \<Rightarrow> bytes \<Rightarrow> HandshakeAckPayload \<Rightarrow> bytes result" where
  "verify_ack cr challenge ack =
     (let err = (\<lambda>msg e. E ''Transport.performHandshake'' msg (Some e)) in
      and_then (map_err (err ''derive shared secret for challenge verification'')
          (DeriveSharedSecret (crKeys cr) (niPublicKey (haIdentity ack)) (crNode cr))) (\<lambda>sharedSecret.
      and_then (map_err (err ''derive handshake subkeys'') (deriveSubKeys sharedSecret)) (\<lambda>subKeys.
      if length (haChallengeResponse ack) = 0
      then Fail (E ''Transport.performHandshake'' ''server did not provide challenge response'' None)
      else if \<not> VerifyChallenge challenge (haChallengeResponse ack) (chlKey subKeys)
      then Fail (E ''Transport.performHandshake''
             ''challenge response verification failed: server may not have matching private key'' None)
      else Ok sharedSecret)))"

definition performHandshake :: "('any, 'c, 'kp, 'pk, 'sk, 'kd) crypto \<Rightarrow> ambient \<Rightarrow> (bytes \<Rightarrow> unit result \<times> bytes result)
    \<Rightarrow> Peer \<Rightarrow> (Peer \<times> 'kd Transport, bytes) cmd" where
  "performHandshake cr am exchange peer s =
     (let err = (\<lambda>msg e. E ''Transport.performHandshake'' msg (Some e)) in
      case GetIdentity (crNode cr) of
        None \<Rightarrow> (Fail ErrIdentityNotInitialized, s)
      | Some identity \<Rightarrow>
          cmd_then (of_result (map_err (err ''generate challenge'') (GenerateChallenge (amRandom am ChallengeSize)))) (\<lambda>challenge.
          cmd_then (of_result (handshake_frame cr am identity (ID peer) challenge)) (\<lambda>data.
          cmd_then (of_result (map_err (err ''send handshake'') (fst (exchange data)))) (\<lambda>_.
          cmd_then (of_result (map_err (err ''read handshake ack'') (snd (exchange data)))) (\<lambda>ackData.
          cmd_then (of_result (read_ack cr ackData)) (\<lambda>ack (_, t).
            let peer' = adopt_identity (haIdentity ack) peer in
            cmd_then (of_result (verify_ack cr challenge ack)) (\<lambda>sharedSecret (p, t).
              case UpdatePeer (crTree cr) peer' (trRegistry t) of
                (Ok _, r) \<Rightarrow> (Ok sharedSecret, (p, t\<lparr>trRegistry := r\<rparr>))
              | (Fail _, r) \<Rightarrow> (Ok sharedSecret, (p, t\<lparr>trRegistry := snd (AddPeer (crTree cr) (amNow am) peer' r)\<rparr>))
              | (Panic q, r) \<Rightarrow> (Panic q, (p, t\<lparr>trRegistry := r\<rparr>)))
            (peer', t)))))) s)"

text \<open>\<open>dialed\<close> is the outcome of the dial.\<close>

definition Connect :: "('any, 'c, 'kp, 'pk, 'sk, 'kd) crypto \<Rightarrow> ambient \<Rightarrow> unit result \<Rightarrow> (bytes \<Rightarrow> unit result \<times> bytes result)
    \<Rightarrow> nat \<Rightarrow> Peer \<Rightarrow> ('kd Transport, nat) cmd" where
  "Connect cr am dialed exchange c peer t =
     cmd_then (of_result (map_err (\<lambda>e. E ''Transport.Connect'' ''failed to connect to peer'' (Some e)) dialed)) (\<lambda>_ t.
       case performHandshake cr am exchange peer (peer, t) of
         (Ok sharedSecret, (peer', t')) \<Rightarrow>
           (Ok c, storeConnection (amNow am) c \<lparr>pcPeer = peer', pcSecret = Some sharedSecret, pcLastActivity = amNow am,
                    pcLimiter = new_limiter (amNow am), pcClosed = False\<rparr> t')
       | (Fail e, (_, t')) \<Rightarrow> (Fail (E ''Transport.Connect'' ''handshake failed'' (Some e)), t')
       | (Panic p, (_, t')) \<Rightarrow> (Panic p, t')) t"

section \<open>The table of connections\<close>

text \<open>
  Each identifier names one connection, which is open and belongs to the peer of that identifier.
\<close>

definition conns_wf :: "'kd Transport \<Rightarrow> bool" where
  "conns_wf t \<longleftrightarrow> distinct (map fst (trConns t)) \<and>
     (\<forall>i c. map_of (trConns t) i = Some c \<longrightarrow> (\<exists>pc. trHeap t c = Some pc \<and> ID (pcPeer pc) = i \<and> \<not> pcClosed pc))"

text \<open>Changes of a connection that keep its peer and whether it is open.\<close>

definition same_conns :: "'kd Transport \<Rightarrow> 'kd Transport \<Rightarrow> bool" where
  "same_conns t t' \<longleftrightarrow> trConns t' = trConns t \<and>
     (\<forall>c. map_option (\<lambda>pc. (ID (pcPeer pc), pcClosed pc)) (trHeap t' c) =
          map_option (\<lambda>pc. (ID (pcPeer pc), pcClosed pc)) (trHeap t c))"

lemma same_conns_refl [simp]: "same_conns t t"
  by (simp add: same_conns_def)

lemma same_conns_trans: "same_conns t t' \<Longrightarrow> same_conns t' t'' \<Longrightarrow> same_conns t t''"
  by (simp add: same_conns_def)

lemma same_conns_heap:
  assumes "same_conns t t'" and "trHeap t c = Some pc"
  shows "\<exists>pc'. trHeap t' c = Some pc' \<and> ID (pcPeer pc') = ID (pcPeer pc) \<and> pcClosed pc' = pcClosed pc"
proof -
  have "map_option (\<lambda>pc. (ID (pcPeer pc), pcClosed pc)) (trHeap t' c) = Some (ID (pcPeer pc), pcClosed pc)"
    using assms by (simp add: same_conns_def)
  then show ?thesis by auto
qed

lemma conns_wf_same:
  assumes "same_conns t t'" and "conns_wf t"
  shows "conns_wf t'"
proof -
  have conns: "trConns t' = trConns t" using assms(1) by (simp add: same_conns_def)
  have "\<exists>pc. trHeap t' c = Some pc \<and> ID (pcPeer pc) = i \<and> \<not> pcClosed pc" if entry: "map_of (trConns t) i = Some c" for i c
  proof -
    obtain pc where "trHeap t c = Some pc" "ID (pcPeer pc) = i" "\<not> pcClosed pc"
      using assms(2) entry unfolding conns_wf_def by blast
    with same_conns_heap [OF assms(1), of c pc] show ?thesis by auto
  qed
  then show ?thesis using assms(2) conns by (simp add: conns_wf_def)
qed

lemma same_conns_with:
  assumes "\<And>pc. ID (pcPeer (f pc)) = ID (pcPeer pc) \<and> pcClosed (f pc) = pcClosed pc"
  shows "same_conns t (with_conn c f t)"
  using assms by (simp add: same_conns_def with_conn_def option.map_comp comp_def)

lemma same_conns_fields [simp]:
  "same_conns t (t\<lparr>trRegistry := r\<rparr>)" "same_conns t (t\<lparr>trDedup := d\<rparr>)" "same_conns t (t\<lparr>trWire := w\<rparr>)"
  "same_conns t (t\<lparr>trServer := x\<rparr>)"
  by (simp_all add: same_conns_def)

lemma same_conns_mark: "same_conns t (markActivity now c t)"
  unfolding markActivity_def by (rule same_conns_with) simp

lemma same_conns_send: "SendConn cr am c msg t = (r, t') \<Longrightarrow> same_conns t t'"
  using same_conns_trans [OF same_conns_fields(3) same_conns_mark]
  by (auto simp: SendConn_def cmd_then_def split: option.splits result.splits)

lemma same_conns_frame: "readLoop_frame cr now c data t = (r, t') \<Longrightarrow> same_conns t t'"
proof -
  assume run: "readLoop_frame cr now c data t = (r, t')"
  have 1: "same_conns t (with_conn c (\<lambda>pc. pc\<lparr>pcLimiter := l\<rparr>) (markActivity now c t))" for l
    by (rule same_conns_trans [OF same_conns_mark same_conns_with]) simp
  show ?thesis
    using run 1 same_conns_trans [OF 1 same_conns_fields(2)]
    by (auto simp: readLoop_frame_def Let_def split: option.splits prod.splits if_splits result.splits)
qed

lemma conns_wf_drop:
  assumes "conns_wf t"
  shows "conns_wf (dropConnection now c t) \<and> c \<notin> set (Connections (dropConnection now c t))
    \<or> trHeap t c = None \<and> dropConnection now c t = t"
proof (cases "trHeap t c")
  case (Some pc)
  let ?i = "ID (pcPeer pc)"
  have only: "map_of (trConns t) j = Some c \<Longrightarrow> j = ?i" for j
    using assms Some unfolding conns_wf_def by fastforce
  have keys: "distinct (map fst (AList.delete ?i (trConns t)))"
    using assms by (simp add: conns_wf_def AList.delete_eq distinct_map_filter)
  have "c \<notin> set (map snd (if map_of (trConns t) ?i = Some c then AList.delete ?i (trConns t) else trConns t))"
  proof
    assume "c \<in> set (map snd (if map_of (trConns t) ?i = Some c then AList.delete ?i (trConns t) else trConns t))"
    then obtain j where j: "(j, c) \<in> set (trConns t)" "map_of (trConns t) ?i = Some c \<longrightarrow> j \<noteq> ?i"
      by (auto simp: AList.delete_eq split: if_splits)
    then have "map_of (trConns t) j = Some c" using assms by (simp add: conns_wf_def)
    with only j(2) show False by auto
  qed
  moreover have "conns_wf (dropConnection now c t)"
    using assms keys Some
    by (auto simp: conns_wf_def dropConnection_def Let_def AList.delete_eq split: if_splits)
  ultimately show ?thesis using Some
    by (cases "map_of (trConns t) ?i = Some c") (simp_all add: dropConnection_def Connections_def Let_def)
qed (simp add: dropConnection_def)

lemma conns_wf_close:
  assumes "conns_wf t" and "CloseConn am c t = (r, t')"
  shows "conns_wf t'"
proof (cases "trHeap t c")
  case (Some pc)
  let ?d = "dropConnection (amNow am) c t"
  have d: "conns_wf ?d" "c \<notin> set (Connections ?d)" using conns_wf_drop [OF assms(1), of "amNow am" c] Some by auto
  then have "conns_wf (with_conn c (\<lambda>pc. pc\<lparr>pcClosed := True\<rparr>) ?d)"
    by (force simp: conns_wf_def with_conn_def Connections_def)
  then show ?thesis using assms Some by (auto simp: CloseConn_def split: if_splits)
qed (use assms in \<open>simp add: CloseConn_def\<close>)

lemma same_conns_farewell: "same_conns t (farewell cr am c pc reason code t)"
  using same_conns_send [of cr am c _ t]
  by (auto simp: farewell_def split: option.splits result.splits) (metis prod.collapse)

lemma conns_wf_graceful:
  assumes "conns_wf t" and "GracefulClose cr am c reason code t = (r, t')"
  shows "conns_wf t'"
proof (cases "trHeap t c")
  case (Some pc)
  let ?f = "farewell cr am c pc reason code t"
  have f: "conns_wf ?f" using conns_wf_same [OF same_conns_farewell assms(1)] .
  obtain pc' where "trHeap ?f c = Some pc'" using same_conns_heap [OF same_conns_farewell Some] by blast
  then have d: "conns_wf (dropConnection (amNow am) c ?f)" "c \<notin> set (Connections (dropConnection (amNow am) c ?f))"
    using conns_wf_drop [OF f, of "amNow am" c] by auto
  then have "conns_wf (with_conn c (\<lambda>pc. pc\<lparr>pcClosed := True\<rparr>) (dropConnection (amNow am) c ?f))"
    by (force simp: conns_wf_def with_conn_def Connections_def)
  then show ?thesis using assms Some by (auto simp: GracefulClose_def split: if_splits)
qed (use assms in \<open>simp add: GracefulClose_def\<close>)

lemma conns_wf_store:
  assumes "conns_wf t" and "trHeap t c = None" and "\<not> pcClosed pc"
  shows "conns_wf (storeConnection now c pc t)"
proof -
  have "map_of (trConns t) i \<noteq> Some c" for i using assms(1,2) unfolding conns_wf_def by fastforce
  then show ?thesis using assms
    by (auto simp: conns_wf_def storeConnection_def update_conv' distinct_update)
qed

lemma conns_wf_broadcast:
  "broadcast_loop cr am msg cs e t = (r, t') \<Longrightarrow> conns_wf t \<Longrightarrow> conns_wf t'"
proof (induction cs arbitrary: e t)
  case (Cons c cs)
  then show ?case
    using conns_wf_same [OF same_conns_send]
    by (auto split: option.splits if_splits prod.splits result.splits) blast+
qed simp

lemma conns_wf_removed: "conns_wf t \<Longrightarrow> conns_wf (removeConnection am c t)"
  using conns_wf_close [of t am c] by (simp add: removeConnection_def) (metis prod.collapse)

text \<open>The operations on a transport; a new connection gets a fresh reference.\<close>

datatype net_op =
    OpClose ambient nat
  | OpGraceful ambient nat string int
  | OpSend ambient string Message
  | OpBroadcast "nat \<Rightarrow> ambient" Message
  | OpFrame instant nat bytes
  | OpTick ambient nat
  | OpCleanup instant
  | OpStart
  | OpStop "nat \<Rightarrow> ambient" "go_error option"
  | OpAccept ambient nat bool "bytes result"
  | OpConnect ambient nat "unit result" "bytes \<Rightarrow> unit result \<times> bytes result" Peer

fun net_exec :: "('any, 'c, 'kp, 'pk, 'sk, 'kd) crypto \<Rightarrow> net_op \<Rightarrow> 'kd Transport \<Rightarrow> 'kd Transport" where
  "net_exec cr (OpClose am c) t = snd (CloseConn am c t)"
| "net_exec cr (OpGraceful am c reason code) t = snd (GracefulClose cr am c reason code t)"
| "net_exec cr (OpSend am i msg) t = snd (SendTo cr am i msg t)"
| "net_exec cr (OpBroadcast am msg) t = snd (Broadcast cr am msg t)"
| "net_exec cr (OpFrame now c data) t = snd (readLoop_frame cr now c data t)"
| "net_exec cr (OpTick am c) t = snd (keepalive_tick cr am c t)"
| "net_exec cr (OpCleanup now) t = cleanup_tick now t"
| "net_exec cr OpStart t = snd (Start t)"
| "net_exec cr (OpStop am shutdownErr) t = snd (Stop cr am shutdownErr t)"
| "net_exec cr (OpAccept am c up frame) t =
     (if trHeap t c = None then snd (handleWSUpgrade cr am c up frame t) else t)"
| "net_exec cr (OpConnect am c dialed exchange peer) t =
     (if trHeap t c = None then snd (Connect cr am dialed exchange c peer t) else t)"

lemma conns_wf_accept:
  assumes "conns_wf t" and "trHeap t c = None"
  shows "conns_wf (snd (accept_peer cr am c payload k t))"
proof -
  have 1: "conns_wf (t\<lparr>trRegistry := r\<rparr>)" "trHeap (t\<lparr>trRegistry := r\<rparr>) c = None" for r
    using conns_wf_same [OF same_conns_fields(1) assms(1)] assms(2) by simp_all
  show ?thesis using assms 1 conns_wf_store [OF assms] conns_wf_store [OF 1]
    by (simp add: accept_peer_def Let_def split: option.splits result.splits)
qed

lemma conns_wf_upgrade:
  assumes "conns_wf t" and "trHeap t c = None"
  shows "conns_wf (snd (handleWSUpgrade cr am c up frame t))"
  by (simp add: handleWSUpgrade_def Let_def conns_wf_accept [OF assms] assms split: result.splits Payload.splits)

lemma handshake_state:
  assumes "performHandshake cr am exchange peer (p, t) = (r, (p', t'))"
  shows "same_conns t t' \<and> trHeap t' = trHeap t"
  using assms
  by (auto simp: performHandshake_def Let_def cmd_then_def split: option.splits result.splits prod.splits)

lemma conns_wf_connect:
  assumes "conns_wf t" and "trHeap t c = None"
  shows "conns_wf (snd (Connect cr am dialed exchange c peer t))"
proof (cases dialed)
  case (Ok u)
  obtain r p' t' where run: "performHandshake cr am exchange peer (peer, t) = (r, (p', t'))"
    by (metis prod.collapse)
  have wf: "conns_wf t'" "trHeap t' c = None"
    using handshake_state [OF run] conns_wf_same assms by auto
  show ?thesis using Ok run wf conns_wf_store [OF wf]
    by (cases r) (simp_all add: Connect_def cmd_then_def)
qed (simp_all add: Connect_def cmd_then_def assms)

lemma conns_wf_tick:
  assumes "conns_wf t"
  shows "conns_wf (snd (keepalive_tick cr am c t))"
proof -
  have sent: "conns_wf t'" if "SendConn cr am c msg t = (r, t')" for msg r t'
    using conns_wf_same [OF same_conns_send [OF that] assms] .
  show ?thesis
    by (auto simp: keepalive_tick_def assms intro: conns_wf_removed dest: sent split: option.splits result.splits prod.splits)
qed

lemma conns_wf_stop: "conns_wf t \<Longrightarrow> conns_wf (snd (Stop cr am e t))"
proof -
  assume "conns_wf t"
  then have "conns_wf (fold (\<lambda>c t. snd (GracefulClose cr (am c) c ''server shutdown'' DisconnectShutdown t)) cs t)" for cs
    by (induction cs arbitrary: t) (auto intro: conns_wf_graceful [OF _ prod.collapse [symmetric]])
  then show ?thesis by (simp add: Stop_def)
qed

lemma conns_wf_exec:
  assumes "conns_wf t"
  shows "conns_wf (net_exec cr op t)"
proof (cases op)
  case (OpSend am i msg)
  obtain r t' where "SendTo cr am i msg t = (r, t')" by fastforce
  then show ?thesis using assms conns_wf_same [OF same_conns_send]
    by (auto simp: OpSend SendTo_def split: option.splits)
next
  case (OpBroadcast am msg)
  obtain r t' where "broadcast_loop cr am msg (Connections t) None t = (r, t')" by fastforce
  then show ?thesis using conns_wf_broadcast assms
    by (cases r) (auto simp: OpBroadcast Broadcast_def cmd_then_def)
next
  case (OpFrame now c data)
  obtain r t' where "readLoop_frame cr now c data t = (r, t')" by fastforce
  then show ?thesis using assms conns_wf_same [OF same_conns_frame] by (simp add: OpFrame)
next
  case (OpClose am c)
  then show ?thesis using conns_wf_removed [OF assms] by (simp add: removeConnection_def)
next
  case (OpGraceful am c reason code)
  then show ?thesis using conns_wf_graceful [OF assms, of cr am c reason code] by (metis net_exec.simps(2) prod.collapse)
qed (use assms conns_wf_same [OF same_conns_fields(2) assms] conns_wf_same [OF same_conns_fields(4) assms] in
    \<open>auto simp: Start_def Let_def conns_wf_upgrade conns_wf_connect conns_wf_tick conns_wf_stop cleanup_tick_def\<close>)


text \<open>
  Closing a connection that was replaced by a newer one of the same peer marks the peer as
  disconnected, although the newer connection stays in the table.
\<close>

theorem stale_close_hides_live_connection:
  assumes "trHeap t old = Some pc" and "\<not> pcClosed pc" and "GetConnection (ID (pcPeer pc)) t = Some new" and "new \<noteq> old"
  shows "GetConnection (ID (pcPeer pc)) (removeConnection am old t) = Some new
    \<and> \<not> (\<exists>p. GetPeer (ID (pcPeer pc)) (trRegistry (removeConnection am old t)) = Some p \<and> Connected p)"
proof -
  have "trRegistry (removeConnection am old t) = SetConnected (amNow am) (ID (pcPeer pc)) False (trRegistry t)"
    "trConns (removeConnection am old t) = trConns t"
    using assms by (simp_all add: removeConnection_def CloseConn_def dropConnection_def with_conn_def GetConnection_def Let_def)
  then show ?thesis
    using assms(3) dir.shows_connected_set [of "ID (pcPeer pc)" "amNow am" "ID (pcPeer pc)" False "trRegistry t"]
    by (simp add: GetConnection_def dir.shows_connected_def)
qed

section \<open>Handshake properties\<close>

text \<open>
  A client connecting to a server whose answer comes back unchanged.
\<close>

definition served_by :: "('any, 'c, 'kp, 'pk, 'sk, 'kd) crypto \<Rightarrow> ambient \<Rightarrow> nat \<Rightarrow> 'kd Transport \<Rightarrow> bytes \<Rightarrow> unit result \<times> bytes result" where
  "served_by cr am c t frame =
     (Ok (), case fst (handleWSUpgrade cr am c True (Ok frame) t) of
        AcceptedWith ack \<Rightarrow> Ok ack
      | ClosedAfter (f # _) \<Rightarrow> Ok f
      | _ \<Rightarrow> Fail EOF)"

text \<open>A message with payload \<open>p\<close> can be built, and it and its payload survive JSON.\<close>

definition survives :: "'any json \<Rightarrow> Message result \<Rightarrow> Payload \<Rightarrow> bool" where
  "survives j r p \<longleftrightarrow>
     (\<exists>m b. r = Ok m \<and> marshalMessageJSON j (Some m) = Ok b \<and> decodeMessageJSON j b = Ok m \<and> ParsePayload j (kind_of p) m = Ok p)"

lemma length_DeriveSharedSecret: "DeriveSharedSecret K pk n = Ok k \<Longrightarrow> length k = sharedSecretSize"
  by (auto simp: DeriveSharedSecret_def Let_def sharedSecretSize_def sha256_Size_def split: option.splits)

lemma SignChallenge_nonempty: "SignChallenge ch k \<noteq> []"
  by (metis SignChallenge_def length_hmac_sha256 list.size(3) sha256_Size_def zero_neq_numeral)

definition ack_payload :: "NodeIdentity \<Rightarrow> bytes \<Rightarrow> transportSubKeys \<Rightarrow> Payload" where
  "ack_payload identity challenge subKeys =
     PHandshakeAck \<lparr>haIdentity = identity, haChallengeResponse = SignChallenge challenge (chlKey subKeys), haAccepted = True, haReason = []\<rparr>"

definition hello_payload :: "NodeIdentity \<Rightarrow> bytes \<Rightarrow> Payload" where
  "hello_payload identity challenge = PHandshake \<lparr>hsIdentity = identity, hsChallenge = challenge, hsVersion = ProtocolVersion\<rparr>"

lemma server_accepts:
  assumes room: "int (length (trConns t)) + trPending t < MaxConns (trConfig t)"
    and frame: "decodeMessageJSON (crJSON cr) frame = Ok msg" "mType msg = MsgHandshake"
      "ParsePayload (crJSON cr) KHandshake msg = Ok (hello_payload client challenge)"
    and secret: "DeriveSharedSecret (crKeys cr) (niPublicKey client) (crNode cr) = Ok k" "deriveSubKeys k = Ok subKeys"
    and allowed: "IsPeerAllowed (niID client) (niPublicKey client) (trRegistry t)"
    and node: "GetIdentity (crNode cr) = Some server" and "challenge \<noteq> []" and "amWriteErr am = None"
    and keyed: "\<And>p. GetPeer (niID client) (trRegistry t) = Some p \<Longrightarrow> ID p = niID client"
    and ack: "survives (crJSON cr) (NewMessage (crJSON cr) (amUUID am) (amNow am) MsgHandshakeAck (niID server) (niID client)
      (Some (ack_payload server challenge subKeys))) (ack_payload server challenge subKeys)"
  shows "\<exists>ackData m t'. handleWSUpgrade cr am c True (Ok frame) t = (AcceptedWith ackData, t')
    \<and> decodeMessageJSON (crJSON cr) ackData = Ok m \<and> mType m = MsgHandshakeAck
    \<and> ParsePayload (crJSON cr) KHandshakeAck m = Ok (ack_payload server challenge subKeys)
    \<and> GetConnection (niID client) t' = Some c \<and> (\<exists>pc. trHeap t' c = Some pc \<and> pcSecret pc = Some k)"
proof -
  obtain m b where m: "NewMessage (crJSON cr) (amUUID am) (amNow am) MsgHandshakeAck (niID server) (niID client)
      (Some (ack_payload server challenge subKeys)) = Ok m" "marshalMessageJSON (crJSON cr) (Some m) = Ok b"
      "decodeMessageJSON (crJSON cr) b = Ok m" "ParsePayload (crJSON cr) KHandshakeAck m = Ok (ack_payload server challenge subKeys)"
    using ack by (auto simp: survives_def ack_payload_def)
  have up: "handleWSUpgrade cr am c True (Ok frame) t
      = accept_peer cr am c \<lparr>hsIdentity = client, hsChallenge = challenge, hsVersion = ProtocolVersion\<rparr> k t"
    using room frame secret(1) allowed
    by (simp add: handleWSUpgrade_def hello_payload_def IsProtocolVersionSupported_def SupportedProtocolVersions_def ProtocolVersion_def)
  have "ID (auto_peer (amNow am) client) = niID client" by (simp add: auto_peer_def)
  then have "\<exists>t'. accept_peer cr am c \<lparr>hsIdentity = client, hsChallenge = challenge, hsVersion = ProtocolVersion\<rparr> k t = (AcceptedWith b, t')
      \<and> GetConnection (niID client) t' = Some c \<and> (\<exists>pc. trHeap t' c = Some pc \<and> pcSecret pc = Some k)"
    using m(1,2) node assms(9,10) secret(2) keyed
    by (cases "GetPeer (niID client) (trRegistry t)")
      (auto simp: accept_peer_def Let_def challenge_response_def ack_payload_def storeConnection_def GetConnection_def update_conv')
  then show ?thesis using up m NewMessage_Ok(2) [OF m(1)] by auto
qed

text \<open>The parties of a handshake between honest nodes; both derive the secret \<open>k\<close>.\<close>

definition honest :: "('any, 'c, 'kp, 'pk, 'sk, 'kd) crypto \<Rightarrow> ('any, 'c, 'kp, 'pk, 'sk, 'kd) crypto \<Rightarrow> NodeIdentity \<Rightarrow> NodeIdentity \<Rightarrow> bytes \<Rightarrow> bool" where
  "honest crC crS client server k \<longleftrightarrow>
     crJSON crC = crJSON crS \<and> GetIdentity (crNode crC) = Some client \<and> GetIdentity (crNode crS) = Some server \<and>
     DeriveSharedSecret (crKeys crC) (niPublicKey server) (crNode crC) = Ok k \<and>
     DeriveSharedSecret (crKeys crS) (niPublicKey client) (crNode crS) = Ok k"

lemma handshake_completes:
  assumes parties: "honest crC crS client server k" and keys: "deriveSubKeys k = Ok subKeys"
    and random: "amRandom amC ChallengeSize = Ok challenge" "challenge \<noteq> []"
    and hello: "survives (crJSON crS) (NewMessage (crJSON crS) (amUUID amC) (amNow amC) MsgHandshake (niID client) (ID peer)
      (Some (hello_payload client challenge))) (hello_payload client challenge)"
    and ack: "survives (crJSON crS) (NewMessage (crJSON crS) (amUUID amS) (amNow amS) MsgHandshakeAck (niID server) (niID client)
      (Some (ack_payload server challenge subKeys))) (ack_payload server challenge subKeys)"
    and server: "int (length (trConns tS)) + trPending tS < MaxConns (trConfig tS)" "amWriteErr amS = None"
      "IsPeerAllowed (niID client) (niPublicKey client) (trRegistry tS)"
      "\<And>p. GetPeer (niID client) (trRegistry tS) = Some p \<Longrightarrow> ID p = niID client"
  obtains frame ackData tS' t' where "handleWSUpgrade crS amS cS True (Ok frame) tS = (AcceptedWith ackData, tS')"
    and "GetConnection (niID client) tS' = Some cS" and "map_option pcSecret (trHeap tS' cS) = Some (Some k)"
    and "performHandshake crC amC (served_by crS amS cS tS) peer (peer, tC) = (Ok k, (adopt_identity server peer, t'))"
proof -
  let ?j = "crJSON crS"
  note parties' = parties [unfolded honest_def]
  obtain msg frame where msg: "NewMessage ?j (amUUID amC) (amNow amC) MsgHandshake (niID client) (ID peer)
      (Some (hello_payload client challenge)) = Ok msg" and frame: "marshalMessageJSON ?j (Some msg) = Ok frame"
    and read: "decodeMessageJSON ?j frame = Ok msg" "ParsePayload ?j KHandshake msg = Ok (hello_payload client challenge)"
    using hello by (auto simp: survives_def hello_payload_def)
  have derived: "DeriveSharedSecret (crKeys crS) (niPublicKey client) (crNode crS) = Ok k"
    and node: "GetIdentity (crNode crS) = Some server" using parties' by simp_all
  obtain ackData m tS' where up: "handleWSUpgrade crS amS cS True (Ok frame) tS = (AcceptedWith ackData, tS')"
    and m: "decodeMessageJSON ?j ackData = Ok m" "mType m = MsgHandshakeAck"
      "ParsePayload ?j KHandshakeAck m = Ok (ack_payload server challenge subKeys)"
    and stored: "GetConnection (niID client) tS' = Some cS" "\<exists>pc. trHeap tS' cS = Some pc \<and> pcSecret pc = Some k"
    using server_accepts [OF server(1) read(1) NewMessage_Ok(2) [OF msg] read(2) derived keys server(3) node random(2) server(2,4) ack]
    by metis
  have sent: "handshake_frame crC amC client (ID peer) challenge = Ok frame"
    using msg frame parties' by (simp add: handshake_frame_def hello_payload_def)
  have got: "served_by crS amS cS tS frame = (Ok (), Ok ackData)" by (simp add: served_by_def up)
  obtain a where a: "read_ack crC ackData = Ok a" "haIdentity a = server" "verify_ack crC challenge a = Ok k"
    using m parties' keys SignChallenge_nonempty
    by (simp add: read_ack_def verify_ack_def Let_def ack_payload_def VerifyChallenge_def)
  have "\<exists>t'. performHandshake crC amC (served_by crS amS cS tS) peer (peer, tC) = (Ok k, (adopt_identity server peer, t'))"
    using parties' random sent got a
    by (simp add: performHandshake_def Let_def cmd_then_def GenerateChallenge_def UpdatePeer_def save_def)
  then show thesis using that [OF up stored(1)] stored(2) by auto
qed



text \<open>
  The server does not tie an identifier to a key: under the allowlist, a client that presents a
  registered peer's identifier with any other usable key is accepted, and its connection replaces that
  peer's in the table.
\<close>

theorem registered_id_accepts_any_key:
  assumes "authMode (trRegistry t) = PeerAuthAllowlist" and "GetPeer i (trRegistry t) = Some p" and "ID p = i"
    and "niID client = i" and "niPublicKey client \<noteq> PublicKey p" and "niPublicKey client \<notin> allowedPublicKeys (trRegistry t)"
    and "int (length (trConns t)) + trPending t < MaxConns (trConfig t)"
    and "decodeMessageJSON (crJSON cr) frame = Ok msg" and "mType msg = MsgHandshake"
    and "ParsePayload (crJSON cr) KHandshake msg = Ok (hello_payload client challenge)"
    and "DeriveSharedSecret (crKeys cr) (niPublicKey client) (crNode cr) = Ok k" and "deriveSubKeys k = Ok subKeys"
    and "GetIdentity (crNode cr) = Some server" and "challenge \<noteq> []" and "amWriteErr am = None"
    and "survives (crJSON cr) (NewMessage (crJSON cr) (amUUID am) (amNow am) MsgHandshakeAck (niID server) (niID client)
      (Some (ack_payload server challenge subKeys))) (ack_payload server challenge subKeys)"
  shows "\<exists>ack t'. handleWSUpgrade cr am c True (Ok frame) t = (AcceptedWith ack, t')
    \<and> GetConnection i t' = Some c \<and> map_option pcSecret (trHeap t' c) = Some (Some k)"
proof -
  have "IsPeerAllowed (niID client) (niPublicKey client) (trRegistry t)"
    using assms(2,4) by (simp add: IsPeerAllowed_def GetPeer_def)
  moreover have "\<And>q. GetPeer (niID client) (trRegistry t) = Some q \<Longrightarrow> ID q = niID client"
    using assms(2-4) by simp
  ultimately show ?thesis
    using server_accepts [OF assms(7-12) _ assms(13-15) _ assms(16), of c] assms(4) by fastforce
qed

section \<open>Two example nodes\<close>

text \<open>JSON for the payloads and messages of a list: payloads by position, messages by identifier.\<close>

definition wire_of :: "Message \<Rightarrow> string messageJSON" where
  "wire_of m = \<lparr>wID = mID m, wType = mType m, wFrom = mFrom m, wTo = mTo m, wTimestamp = mTimestamp m,
     wPayload = map_option string_of (mPayload m), wReplyTo = mReplyTo m\<rparr>"

definition text_json :: "Payload list \<Rightarrow> Message list \<Rightarrow> string json" where
  "text_json ps ms =
     \<lparr>jsMarshal = jsMarshal (table_json ps), jsUnmarshal = jsUnmarshal (table_json ps),
      jsMarshalAny = Ok, jsUnmarshalAny = (\<lambda>b. Ok (Some (string_of b))),
      jsMarshalWire = (\<lambda>w. Ok (wID w)),
      jsUnmarshalWire = (\<lambda>b. case List.find (\<lambda>m. mID m = string_of b) ms of None \<Rightarrow> Fail EOF | Some m \<Rightarrow> Ok (wire_of m)),
      jsMarshalBundle = (\<lambda>_. Ok []), jsUnmarshalBundle = (\<lambda>_. Fail EOF), jsReplace = (\<lambda>s old new. s)\<rparr>"

lemma text_json_survives:
  assumes "p \<in> set ps" and "NewMessage (text_json ps ms) uuid now t from to (Some p) = Ok m"
    and "List.find (\<lambda>m. mID m = uuid) ms = Some m"
  shows "survives (text_json ps ms) (NewMessage (text_json ps ms) uuid now t from to (Some p)) p"
proof -
  let ?j = "text_json ps ms"
  have "json_faithful ?j p"
    using json_faithful_table [OF assms(1)] by (simp add: json_faithful_def text_json_def table_json_def unescapeHTML_def)
  then have parsed: "ParsePayload ?j (kind_of p) m = Ok p"
    using NewMessage_parses [of ?j p uuid now t "from" to] assms(2) by auto
  have id: "mID m = uuid" using NewMessage_Ok(1) [OF assms(2)] .
  then have wire: "marshalMessageJSON ?j (Some m) = Ok (bytes_of uuid)"
    by (cases "mPayload m") (simp_all add: marshalMessageJSON_def text_json_def unescapeHTML_def)
  have "jsUnmarshalWire ?j (bytes_of uuid) = Ok (wire_of m)" using assms(3) by (simp add: text_json_def)
  then have "decodeMessageJSON ?j (bytes_of uuid) = Ok m"
    by (cases m; cases "mPayload m") (simp_all add: decodeMessageJSON_def wire_of_def text_json_def unescapeHTML_def)
  then show ?thesis using assms(2) wire parsed by (auto simp: survives_def)
qed

definition node_identity :: "string \<Rightarrow> bytes \<Rightarrow> NodeIdentity" where
  "node_identity i key = \<lparr>niID = i, niName = i, niPublicKey = string_of key, niCreatedAt = None, niRole = RoleDual\<rparr>"

definition node_manager :: "string \<Rightarrow> bytes \<Rightarrow> bytes NodeManager" where
  "node_manager i key = \<lparr>nmIdentity = Some (node_identity i key), nmPrivateKey = Some key, nmKeyPair = Some key,
     nmKeyPath = [], nmConfigPath = []\<rparr>"

definition shared_example :: bytes where "shared_example = Sum256 [4, 6]"

definition subkeys_example :: transportSubKeys where
  "subkeys_example = (case deriveSubKeys shared_example of Ok s \<Rightarrow> s | _ \<Rightarrow> \<lparr>encKey = [], macKey = [], chlKey = []\<rparr>)"

definition ambient_example :: "string \<Rightarrow> ambient" where
  "ambient_example uuid = \<lparr>amNow = 1, amUUID = uuid, amRandom = (\<lambda>n. Ok (replicate n 9)), amDeadlineErr = None, amWriteErr = None, amCloseErr = None\<rparr>"

abbreviation challenge_example :: bytes where "challenge_example \<equiv> replicate ChallengeSize 9"

definition hello_example :: Payload where
  "hello_example = hello_payload (node_identity ''cli'' [1, 2]) challenge_example"

definition ack_example :: Payload where
  "ack_example = ack_payload (node_identity ''srv'' [3, 4]) challenge_example subkeys_example"

definition messages_example :: "Message list" where
  "messages_example =
     [\<lparr>mID = ''m1'', mType = MsgHandshake, mFrom = ''cli'', mTo = ''p1'', mTimestamp = Some 1, mPayload = Some [], mReplyTo = []\<rparr>,
      \<lparr>mID = ''m2'', mType = MsgHandshakeAck, mFrom = ''srv'', mTo = ''cli'', mTimestamp = Some 1,
       mPayload = Some (bytes_of ''x''), mReplyTo = []\<rparr>]"

definition crypto_example :: "string \<Rightarrow> bytes \<Rightarrow> (string, bytes, bytes, bytes, bytes, unit) crypto" where
  "crypto_example i key =
     \<lparr>crJSON = text_json [hello_example, ack_example] messages_example, crEnvelope = bare_envelopes, crAEAD = tag_aead,
      crKeys = plain_keys key, crNode = node_manager i key, crTree = (\<lambda>_. None)\<rparr>"

lemma deriveSubKeys_example: "deriveSubKeys shared_example = Ok subkeys_example"
proof -
  have "length shared_example = sharedSecretSize"
    by (simp add: shared_example_def sharedSecretSize_def sha256_Size_def)
  from deriveSubKeys_Ok [OF this] show ?thesis by (auto simp: subkeys_example_def)
qed

lemma crypto_example_facts:
  "crJSON (crypto_example i key) = text_json [hello_example, ack_example] messages_example"
  "GetIdentity (crNode (crypto_example i key)) = Some (node_identity i key)"
  "DeriveSharedSecret (crKeys (crypto_example ''cli'' [1, 2])) (niPublicKey (node_identity ''srv'' [3, 4]))
     (crNode (crypto_example ''cli'' [1, 2])) = Ok shared_example"
  "DeriveSharedSecret (crKeys (crypto_example ''srv'' [3, 4])) (niPublicKey (node_identity ''cli'' [1, 2]))
     (crNode (crypto_example ''srv'' [3, 4])) = Ok shared_example"
  by (simp_all add: crypto_example_def GetIdentity_def node_manager_def node_identity_def DeriveSharedSecret_def
      plain_keys_def shared_example_def)

lemma survives_examples:
  "survives (text_json [hello_example, ack_example] messages_example)
     (NewMessage (text_json [hello_example, ack_example] messages_example) ''m1'' 1 MsgHandshake ''cli'' ''p1'' (Some hello_example)) hello_example"
  "survives (text_json [hello_example, ack_example] messages_example)
     (NewMessage (text_json [hello_example, ack_example] messages_example) ''m2'' 1 MsgHandshakeAck ''srv'' ''cli'' (Some ack_example)) ack_example"
  by (rule text_json_survives; simp add: NewMessage_def text_json_def table_json_def unescapeHTML_def
      hello_example_def ack_example_def hello_payload_def ack_payload_def messages_example_def bytes_of_def)+

definition server_example :: "unit Transport" where
  "server_example = NewTransport empty_registry DefaultTransportConfig"

lemmas example_net_defs = server_example_def NewTransport_def empty_registry_def DefaultTransportConfig_def ambient_example_def

lemma node_identity_simps [simp]:
  "niID (node_identity i key) = i" "niPublicKey (node_identity i key) = string_of key"
  by (simp_all add: node_identity_def)

lemma honest_example:
  "honest (crypto_example ''cli'' [1, 2]) (crypto_example ''srv'' [3, 4]) (node_identity ''cli'' [1, 2])
     (node_identity ''srv'' [3, 4]) shared_example"
  using crypto_example_facts by (simp add: honest_def)

lemma example_conditions:
  "amRandom (ambient_example u) ChallengeSize = Ok challenge_example" "challenge_example \<noteq> []"
  "int (length (trConns server_example)) + trPending server_example < MaxConns (trConfig server_example)"
  "amWriteErr (ambient_example u) = None" "amUUID (ambient_example u) = u" "amNow (ambient_example u) = 1"
  "IsPeerAllowed i pk (trRegistry server_example)" "GetPeer i (trRegistry server_example) = None"
  by (simp_all add: example_net_defs IsPeerAllowed_def GetPeer_def ChallengeSize_def)

lemma example_survives:
  "survives (crJSON (crypto_example i key)) (NewMessage (crJSON (crypto_example i key)) (amUUID (ambient_example ''m1''))
     (amNow (ambient_example ''m1'')) MsgHandshake (niID (node_identity ''cli'' [1, 2])) (ID example_peer)
     (Some (hello_payload (node_identity ''cli'' [1, 2]) challenge_example))) (hello_payload (node_identity ''cli'' [1, 2]) challenge_example)"
  "survives (crJSON (crypto_example i key)) (NewMessage (crJSON (crypto_example i key)) (amUUID (ambient_example ''m2''))
     (amNow (ambient_example ''m2'')) MsgHandshakeAck (niID (node_identity ''srv'' [3, 4])) (niID (node_identity ''cli'' [1, 2]))
     (Some (ack_payload (node_identity ''srv'' [3, 4]) challenge_example subkeys_example)))
     (ack_payload (node_identity ''srv'' [3, 4]) challenge_example subkeys_example)"
  using survives_examples
  by (simp_all add: crypto_example_facts(1) example_conditions example_peer_def flip: hello_example_def ack_example_def)

lemmas handshake_example = honest_example deriveSubKeys_example example_conditions(1,2) example_survives
  example_conditions(3,4,7)



text \<open>A server that knows the identifier \<^verbatim>\<open>cli\<close> under another key and admits registered peers only.\<close>

definition strict_server :: "unit Transport" where
  "strict_server = NewTransport (empty_registry\<lparr>authMode := PeerAuthAllowlist,
     peers := [(''cli'', example_peer\<lparr>ID := ''cli'', PublicKey := ''other''\<rparr>)]\<rparr>) DefaultTransportConfig"

theorem registered_id_accepts_any_key_witness:
  "\<exists>ack t'. handleWSUpgrade (crypto_example ''srv'' [3, 4]) (ambient_example ''m2'') 7 True (Ok (bytes_of ''m1'')) strict_server = (AcceptedWith ack, t')
     \<and> GetConnection ''cli'' t' = Some 7 \<and> map_option pcSecret (trHeap t' 7) = Some (Some shared_example)"
proof -
  let ?j = "text_json [hello_example, ack_example] messages_example"
  obtain m b where m: "NewMessage ?j ''m1'' 1 MsgHandshake ''cli'' ''p1'' (Some hello_example) = Ok m"
    and b: "marshalMessageJSON ?j (Some m) = Ok b" and d: "decodeMessageJSON ?j b = Ok m"
    and p: "ParsePayload ?j KHandshake m = Ok hello_example"
    using survives_examples(1) by (auto simp: survives_def hello_example_def hello_payload_def)
  have "b = bytes_of ''m1''"
    using b NewMessage_Ok(1) [OF m] by (cases "mPayload m") (auto simp: marshalMessageJSON_def text_json_def unescapeHTML_def)
  then have d': "decodeMessageJSON (crJSON (crypto_example ''srv'' [3, 4])) (bytes_of ''m1'') = Ok m"
    using d by (simp add: crypto_example_facts(1))
  have p': "ParsePayload (crJSON (crypto_example ''srv'' [3, 4])) KHandshake m = Ok (hello_payload (node_identity ''cli'' [1, 2]) challenge_example)"
    using p by (simp add: crypto_example_facts(1) flip: hello_example_def)
  have other: "string_of [1, 2] \<noteq> ''other''" by (simp add: string_of_def)
  show ?thesis
    by (rule registered_id_accepts_any_key [where p = "example_peer\<lparr>ID := ''cli'', PublicKey := ''other''\<rparr>", OF _ _ _ _ _ _ _ d' NewMessage_Ok(2) [OF m] p' _ deriveSubKeys_example
          crypto_example_facts(2) example_conditions(2,4) example_survives(2)])
      (use crypto_example_facts(4) other in
        \<open>simp_all add: strict_server_def NewTransport_def empty_registry_def DefaultTransportConfig_def GetPeer_def example_peer_def\<close>)
qed


definition replaced_example :: "unit Transport" where
  "replaced_example =
     (let pc = \<lparr>pcPeer = example_peer, pcSecret = None, pcLastActivity = 0, pcLimiter = new_limiter 0, pcClosed = False\<rparr> in
      storeConnection 2 1 pc (storeConnection 1 0 pc
        (NewTransport (empty_registry\<lparr>peers := [(''p1'', example_peer)]\<rparr>) DefaultTransportConfig)))"

theorem stale_close_hides_live_connection_witness:
  "GetConnection ''p1'' (removeConnection (ambient_example []) 0 replaced_example) = Some 1
   \<and> \<not> (\<exists>p. GetPeer ''p1'' (trRegistry (removeConnection (ambient_example []) 0 replaced_example)) = Some p \<and> Connected p)"
  using stale_close_hides_live_connection [of replaced_example 0
    "\<lparr>pcPeer = example_peer, pcSecret = None, pcLastActivity = 0, pcLimiter = new_limiter 0, pcClosed = False\<rparr>" 1 "ambient_example []"]
  by (simp add: replaced_example_def storeConnection_def NewTransport_def GetConnection_def Let_def example_peer_def)

lemma trDedup_conn [simp]: "trDedup (with_conn c f t) = trDedup t" "trDedup (markActivity now c t) = trDedup t"
  by (simp_all add: with_conn_def markActivity_def)

section \<open>Delivery\<close>

text \<open>
  The messages handed to the handler by a sequence of operations, as time and identifier, and the times
  at which the deduplicator is consulted.
\<close>

fun delivery :: "('any, 'c, 'kp, 'pk, 'sk, 'kd) crypto \<Rightarrow> net_op \<Rightarrow> 'kd Transport \<Rightarrow> (instant \<times> string) list" where
  "delivery cr (OpFrame now c data) t =
     (case fst (readLoop_frame cr now c data t) of Ok (Some m) \<Rightarrow> [(now, mID m)] | _ \<Rightarrow> [])"
| "delivery cr _ t = []"

fun deliveries :: "('any, 'c, 'kp, 'pk, 'sk, 'kd) crypto \<Rightarrow> net_op list \<Rightarrow> 'kd Transport \<Rightarrow> (instant \<times> string) list" where
  "deliveries cr [] t = []"
| "deliveries cr (op # ops) t = delivery cr op t @ deliveries cr ops (net_exec cr op t)"

fun op_time :: "net_op \<Rightarrow> instant option" where
  "op_time (OpFrame now c data) = Some now"
| "op_time (OpCleanup now) = Some now"
| "op_time _ = None"

abbreviation op_times :: "net_op list \<Rightarrow> instant list" where
  "op_times ops \<equiv> List.map_filter op_time ops"

text \<open>No other operation touches the deduplicator.\<close>

lemma trDedup_send: "trDedup (snd (SendConn cr am c msg t)) = trDedup t"
  by (simp add: SendConn_def cmd_then_def split: option.splits result.splits)

lemma trDedup_drop [simp]: "trDedup (dropConnection now c t) = trDedup t"
  by (simp add: dropConnection_def Let_def split: option.splits)

lemma trDedup_removed [simp]: "trDedup (removeConnection am c t) = trDedup t"
  by (simp add: removeConnection_def CloseConn_def split: option.splits)

lemma trDedup_farewell [simp]: "trDedup (farewell cr am c pc reason code t) = trDedup t"
  by (simp add: farewell_def trDedup_send split: option.splits result.splits)

lemma trDedup_graceful: "trDedup (snd (GracefulClose cr am c reason code t)) = trDedup t"
  by (simp add: GracefulClose_def split: option.splits)

lemma trDedup_broadcast: "trDedup (snd (broadcast_loop cr am msg cs e t)) = trDedup t"
proof (induction cs arbitrary: e t)
  case (Cons c cs)
  then show ?case using trDedup_send [of cr "am c" c msg t]
    by (auto split: option.splits prod.splits result.splits)
qed simp

lemma trDedup_tick: "trDedup (snd (keepalive_tick cr am c t)) = trDedup t"
proof -
  have sent: "trDedup t' = trDedup t" if "SendConn cr am c msg t = (r, t')" for msg r t'
    using trDedup_send [of cr am c msg t] that by simp
  show ?thesis
    by (auto simp: keepalive_tick_def split: option.splits result.splits prod.splits dest: sent)
qed

lemma trDedup_handshake: "performHandshake cr am exchange peer (p, t) = (r, (p', t')) \<Longrightarrow> trDedup t' = trDedup t"
  by (auto simp: performHandshake_def Let_def cmd_then_def split: option.splits result.splits prod.splits)

lemma trDedup_connect: "trDedup (snd (Connect cr am dialed exchange c peer t)) = trDedup t"
proof -
  obtain r p' t' where run: "performHandshake cr am exchange peer (peer, t) = (r, (p', t'))" by (metis prod.collapse)
  show ?thesis using trDedup_handshake [OF run] run
    by (cases dialed; cases r) (simp_all add: Connect_def cmd_then_def storeConnection_def)
qed

lemma trDedup_upgrade: "trDedup (snd (handleWSUpgrade cr am c up frame t)) = trDedup t"
  by (simp add: handleWSUpgrade_def accept_peer_def storeConnection_def Let_def split: result.splits Payload.splits option.splits)

lemma trDedup_stop: "trDedup (snd (Stop cr am e t)) = trDedup t"
proof -
  have "trDedup (fold (\<lambda>c t. snd (GracefulClose cr (am c) c ''server shutdown'' DisconnectShutdown t)) cs t) = trDedup t" for cs
    by (induction cs arbitrary: t) (simp_all add: trDedup_graceful)
  then show ?thesis by (simp add: Stop_def)
qed

lemma trDedup_exec:
  assumes "op_time op = None"
  shows "trDedup (net_exec cr op t) = trDedup t"
proof (cases op)
  case (OpBroadcast am msg)
  then show ?thesis using trDedup_broadcast [of cr am msg "Connections t" None t]
    by (auto simp: Broadcast_def cmd_then_def split: prod.splits result.splits)
qed (use assms in \<open>auto simp: Start_def Let_def trDedup_removed [unfolded removeConnection_def] trDedup_graceful trDedup_tick
      trDedup_connect trDedup_upgrade trDedup_stop SendTo_def trDedup_send split: option.splits\<close>)

lemma frame_dedup:
  assumes "readLoop_frame cr now c data t = (r, t')"
  shows "(\<exists>m. r = Ok (Some m) \<and> \<not> fst (IsDuplicate now (mID m) (trDedup t))
       \<and> trDedup t' = Mark now (mID m) (snd (IsDuplicate now (mID m) (trDedup t))))
    \<or> (\<nexists>m. r = Ok (Some m)) \<and> (trDedup t' = trDedup t \<or> (\<exists>i. trDedup t' = snd (IsDuplicate now i (trDedup t))))"
proof (cases "trHeap t c")
  case (Some pc)
  obtain ok l where l: "Allow now (pcLimiter pc) = (ok, l)" by fastforce
  show ?thesis
  proof (cases "decryptMessage (crJSON cr) (crEnvelope cr) (crAEAD cr) data (case pcSecret pc of None \<Rightarrow> [] | Some k \<Rightarrow> k)")
    case (Ok m)
    obtain dup d where d: "IsDuplicate now (mID m) (trDedup t) = (dup, d)" by fastforce
    have "\<exists>i. d = snd (IsDuplicate now i (trDedup t))" using d by (metis snd_conv)
    then show ?thesis using assms Some l Ok d by (cases ok; cases dup) (auto simp: readLoop_frame_def Let_def)
  qed (use assms Some l in \<open>cases ok; auto simp: readLoop_frame_def Let_def\<close>)+
qed (use assms in \<open>auto simp: readLoop_frame_def Let_def\<close>)

text \<open>
  \<open>remembers now t H\<close>: at time \<open>now\<close> the deduplicator answers like one that recorded the last
  delivery of each identifier of \<open>H\<close> and forgets nothing.
\<close>

definition remembers :: "instant \<Rightarrow> 'kd Transport \<Rightarrow> (instant \<times> string) list \<Rightarrow> bool" where
  "remembers now t H \<longleftrightarrow> ttl (trDedup t) = 300 * second \<and>
     (\<exists>marks. dedup_sim now (trDedup t) marks \<and> (\<forall>i s. marks i = Some s \<longrightarrow> (s, i) \<in> set H) \<and>
        (\<forall>s i. (s, i) \<in> set H \<longrightarrow> (\<exists>s'. marks i = Some s' \<and> s \<le> s')))"

lemma remembersE:
  assumes "remembers now t H"
  obtains marks where "dedup_sim now (trDedup t) marks" "ttl (trDedup t) = 300 * second"
    "\<And>i s. marks i = Some s \<Longrightarrow> (s, i) \<in> set H" "\<And>s i. (s, i) \<in> set H \<Longrightarrow> \<exists>s'. marks i = Some s' \<and> s \<le> s'"
  using assms unfolding remembers_def by blast

lemma remembers_later: "remembers now t H \<Longrightarrow> now \<le> now' \<Longrightarrow> remembers now' t H"
  unfolding remembers_def using dedup_sim_later by blast

lemma remembers_duplicate:
  assumes "remembers now t H"
  shows "fst (IsDuplicate now i (trDedup t)) \<longleftrightarrow> (\<exists>s. (s, i) \<in> set H \<and> now - s \<le> 300 * second)"
proof -
  obtain marks where m: "dedup_sim now (trDedup t) marks" "ttl (trDedup t) = 300 * second"
    "\<And>i s. marks i = Some s \<Longrightarrow> (s, i) \<in> set H" "\<And>s i. (s, i) \<in> set H \<Longrightarrow> \<exists>s'. marks i = Some s' \<and> s \<le> s'"
    using assms by (rule remembersE) blast
  have "fst (IsDuplicate now i (trDedup t)) \<longleftrightarrow> (case marks i of None \<Rightarrow> False | Some s \<Rightarrow> now - s \<le> 300 * second)"
    using dedup_sim_steps(3) [OF m(1)] m(2) by (simp split: option.split)
  then show ?thesis using m(3) [of i] m(4) [of _ i] by (fastforce split: option.splits)
qed

lemma remembers_check:
  assumes "remembers now t H" and "trDedup t' = snd (IsDuplicate now i (trDedup t))"
  shows "remembers now t' H"
proof -
  obtain marks where m: "dedup_sim now (trDedup t) marks" "ttl (trDedup t) = 300 * second"
    "\<And>i s. marks i = Some s \<Longrightarrow> (s, i) \<in> set H" "\<And>s i. (s, i) \<in> set H \<Longrightarrow> \<exists>s'. marks i = Some s' \<and> s \<le> s'"
    using assms(1) by (rule remembersE) blast
  have "dedup_sim now (trDedup t') marks" "ttl (trDedup t') = 300 * second"
    using dedup_sim_steps(1,2) [OF m(1), of i] m(2) assms(2) by simp_all
  then show ?thesis unfolding remembers_def using m(3,4) by fast
qed

lemma remembers_mark:
  assumes "remembers now t H" and "trDedup t' = Mark now i (trDedup t)" and "\<And>s j. (s, j) \<in> set H \<Longrightarrow> s \<le> now"
  shows "remembers now t' (H @ [(now, i)])"
proof -
  obtain marks where m: "dedup_sim now (trDedup t) marks" "ttl (trDedup t) = 300 * second"
    "\<And>i s. marks i = Some s \<Longrightarrow> (s, i) \<in> set H" "\<And>s i. (s, i) \<in> set H \<Longrightarrow> \<exists>s'. marks i = Some s' \<and> s \<le> s'"
    using assms(1) by (rule remembersE) blast
  have "dedup_sim now (trDedup t') (marks(i \<mapsto> now))" "ttl (trDedup t') = 300 * second"
    using dedup_sim_steps(4,5) [OF m(1), of i] m(2) assms(2) by simp_all
  moreover have "\<forall>j s. (marks(i \<mapsto> now)) j = Some s \<longrightarrow> (s, j) \<in> set (H @ [(now, i)])" using m(3) by auto
  moreover have "\<forall>s j. (s, j) \<in> set (H @ [(now, i)]) \<longrightarrow> (\<exists>s'. (marks(i \<mapsto> now)) j = Some s' \<and> s \<le> s')"
    using m(4) assms(3) by auto
  ultimately show ?thesis unfolding remembers_def by blast
qed

lemma remembers_cleanup:
  assumes "remembers now t H" and "trDedup t' = Cleanup now (trDedup t)"
  shows "remembers now t' H"
proof -
  obtain marks where m: "dedup_sim now (trDedup t) marks" "ttl (trDedup t) = 300 * second"
    "\<And>i s. marks i = Some s \<Longrightarrow> (s, i) \<in> set H" "\<And>s i. (s, i) \<in> set H \<Longrightarrow> \<exists>s'. marks i = Some s' \<and> s \<le> s'"
    using assms(1) by (rule remembersE) blast
  have "dedup_sim now (trDedup t') marks" "ttl (trDedup t') = 300 * second"
    using dedup_sim_steps(6,7) [OF m(1)] m(2) assms(2) by simp_all
  then show ?thesis unfolding remembers_def using m(3,4) by fast
qed

text \<open>One operation: what it delivers was not delivered in the last five minutes.\<close>

abbreviation apart :: "instant \<times> string \<Rightarrow> instant \<times> string \<Rightarrow> bool" where
  "apart d d' \<equiv> snd d = snd d' \<longrightarrow> fst d' - fst d > 300 * second"

lemma delivery_step:
  assumes "remembers t0 t H" and "\<forall>(s, i) \<in> set H. s \<le> t0" and "\<forall>now. op_time op = Some now \<longrightarrow> t0 \<le> now"
  defines "t1 \<equiv> (case op_time op of None \<Rightarrow> t0 | Some now \<Rightarrow> now)"
  shows "remembers t1 (net_exec cr op t) (H @ delivery cr op t) \<and> (\<forall>(s, i) \<in> set (H @ delivery cr op t). s \<le> t1)
    \<and> (\<forall>d \<in> set H. \<forall>d' \<in> set (delivery cr op t). apart d d')"
proof (cases op)
  case (OpFrame now c data)
  then have "t0 \<le> now" and t1: "t1 = now" using assms(3) by (simp_all add: t1_def)
  then have H: "remembers now t H" "\<And>s i. (s, i) \<in> set H \<Longrightarrow> s \<le> now"
    using remembers_later [OF assms(1)] assms(2) by auto
  obtain r t' where run: "readLoop_frame cr now c data t = (r, t')" by fastforce
  consider (new) m where "r = Ok (Some m)" "\<not> fst (IsDuplicate now (mID m) (trDedup t))"
      "trDedup t' = Mark now (mID m) (snd (IsDuplicate now (mID m) (trDedup t)))"
    | (same) "\<nexists>m. r = Ok (Some m)" "trDedup t' = trDedup t"
    | (dup) i where "\<nexists>m. r = Ok (Some m)" "trDedup t' = snd (IsDuplicate now i (trDedup t))"
    using frame_dedup [OF run] by blast
  then show ?thesis
  proof cases
    case new
    have "remembers now (t\<lparr>trDedup := snd (IsDuplicate now (mID m) (trDedup t))\<rparr>) H"
      by (rule remembers_check [OF H(1)]) simp
    from remembers_mark [OF this _ H(2), of t' "mID m"] new(3) have "remembers now t' (H @ [(now, mID m)])" by simp
    moreover have "now - s > 300 * second" if "(s, mID m) \<in> set H" for s
      using remembers_duplicate [OF H(1), of "mID m"] new(2) that by (meson not_le)
    ultimately show ?thesis using H(2) new(1) run by (auto simp: OpFrame t1)
  next
    case same
    then have "delivery cr op t = []" using run by (auto simp: OpFrame split: result.splits option.splits)
    then show ?thesis using H same(2) run by (auto simp: OpFrame t1 remembers_def)
  next
    case dup
    then have "delivery cr op t = []" using run by (auto simp: OpFrame split: result.splits option.splits)
    then show ?thesis using H(2) remembers_check [OF H(1) dup(2)] run by (auto simp: OpFrame t1)
  qed
next
  case (OpCleanup now)
  then have "t0 \<le> now" and t1: "t1 = now" using assms(3) by (simp_all add: t1_def)
  then show ?thesis
    using remembers_cleanup [OF remembers_later [OF assms(1)], of now "cleanup_tick now t"] assms(2)
    by (auto simp: OpCleanup cleanup_tick_def)
qed (use assms(1,2) trDedup_exec [of op cr t] in \<open>auto simp: t1_def remembers_def\<close>)

lemma deliveries_apart:
  assumes "remembers t0 t H" and "\<forall>(s, i) \<in> set H. s \<le> t0" and "sorted (t0 # op_times ops)" and "sorted_wrt apart H"
  shows "sorted_wrt apart (H @ deliveries cr ops t)
    \<and> remembers (last (t0 # op_times ops)) (fold (net_exec cr) ops t) (H @ deliveries cr ops t)"
  using assms
proof (induction ops arbitrary: t0 t H)
  case (Cons op ops)
  let ?t1 = "case op_time op of None \<Rightarrow> t0 | Some now \<Rightarrow> now"
  have times: "\<forall>now. op_time op = Some now \<longrightarrow> t0 \<le> now" "sorted (?t1 # op_times ops)"
    "last (t0 # op_times (op # ops)) = last (?t1 # op_times ops)"
    using Cons.prems(3) by (auto simp: map_filter_simps split: option.splits)
  note step = delivery_step [OF Cons.prems(1,2) times(1), of cr]
  have "sorted_wrt apart (delivery cr op t)" by (cases op) (auto split: result.splits option.splits)
  then have "sorted_wrt apart (H @ delivery cr op t)"
    using Cons.prems(4) step by (simp add: sorted_wrt_append)
  with Cons.IH [OF _ _ times(2), of "net_exec cr op t" "H @ delivery cr op t"] step show ?case
    unfolding times(3) by simp
qed (simp add: map_filter_simps)


text \<open>A receiver with one connection, and two frames of the same message.\<close>

definition receiver_example :: "unit Transport" where
  "receiver_example = server_example\<lparr>trHeap := [7 \<mapsto> \<lparr>pcPeer = example_peer, pcSecret = Some (replicate 32 5),
     pcLastActivity = 0, pcLimiter = new_limiter 0, pcClosed = False\<rparr>]\<rparr>"

definition receiver_crypto :: "(unit, bytes, bytes, bytes, bytes, unit) crypto" where
  "receiver_crypto = \<lparr>crJSON = message_json example_ping, crEnvelope = bare_envelopes, crAEAD = tag_aead,
     crKeys = plain_keys [], crNode = node_manager [] [], crTree = (\<lambda>_. None)\<rparr>"


end
