(* ===== verification/Transport_Link.thy ===== *)
theory Transport_Link
  imports Transport_Net
begin

text \<open>
  Two transports of \<^verbatim>\<open>src/go/node/transport.go\<close> at the ends of one connection: what a send or a
  broadcast of one puts on the wire, the read loop of the other hands to its handler.
\<close>

section \<open>Sending\<close>

text \<open>
  What encryption relies on: a lawful AEAD that accepts every key of the subkey size, and a random
  source that fills the buffer.
\<close>

definition seals :: "'c aead \<Rightarrow> (nat \<Rightarrow> bytes result) \<Rightarrow> bool" where
  "seals A randRead \<longleftrightarrow> aead_laws A \<and> (\<forall>k. length k = subKeySize \<longrightarrow> is_Ok (aeNew A k)) \<and> (\<forall>n. \<exists>b. randRead n = Ok b \<and> length b = n)"

lemma deriveSubKeys_cases:
  obtains e where "deriveSubKeys secret = Fail e" | keys where "deriveSubKeys secret = Ok keys" "length (encKey keys) = subKeySize"
  using deriveSubKeys_Ok [of secret] by (cases "length secret = sharedSecretSize") (auto simp: deriveSubKeys_def)

lemma encryptMessage_no_panic:
  assumes "seals A randRead" and "wire_faithful j X m"
  shows "encryptMessage j A randRead m secret \<noteq> Panic p"
proof -
  obtain b where b: "marshalMessageJSON j (Some m) = Ok b" using assms(2) by (auto simp: wire_faithful_def split: result.splits)
  show ?thesis
  proof (cases secret rule: deriveSubKeys_cases)
    case (1 e)
    then show ?thesis by (simp add: b encryptMessage_def encryptTransportPayload_def newTransportAEAD_def)
  next
    case (2 keys)
    then obtain c where "aeNew A (encKey keys) = Ok c" using assms(1) by (auto simp: seals_def is_Ok_iff)
    moreover obtain nonce where "randRead (aeNonceSize A c) = Ok nonce" using assms(1) by (meson seals_def)
    ultimately show ?thesis using 2(1) by (simp add: b encryptMessage_def encryptTransportPayload_def newTransportAEAD_def)
  qed
qed

lemma secure_message_sent:
  assumes "seals A randRead" and "length secret = sharedSecretSize" and "wire_faithful j X m"
  obtains data where "encryptMessage j A randRead m secret = Ok data" and "decryptMessage j X A data secret = Ok m"
  using secure_message_roundtrip [of A randRead secret j X m] assms by (auto simp: seals_def)

text \<open>A send changes the wire by at most one frame and leaves every connection's secret and peer alone.\<close>

lemma SendConn_frame:
  assumes "SendConn cr am c msg t = (r, t')"
  shows "set (trWire t) \<subseteq> set (trWire t')"
    and "map_option (\<lambda>pc. (pcPeer pc, pcSecret pc)) (trHeap t' d) = map_option (\<lambda>pc. (pcPeer pc, pcSecret pc)) (trHeap t d)"
  using assms by (auto simp: SendConn_def cmd_then_def markActivity_def with_conn_def option.map_comp comp_def
      split: option.splits result.splits)

text \<open>The frame a connection's owner puts on the wire for a message.\<close>

definition carries :: "('any, 'c, 'kp, 'pk, 'sk, 'kd) crypto \<Rightarrow> envelope_json \<Rightarrow> bytes \<Rightarrow> Message \<Rightarrow> bytes \<Rightarrow> bool" where
  "carries cr X secret msg data \<longleftrightarrow> decryptMessage (crJSON cr) X (crAEAD cr) data secret = Ok msg"

lemma SendConn_carries:
  assumes "seals (crAEAD cr) (amRandom am)" and "wire_faithful (crJSON cr) X msg"
    and "trHeap t c = Some pc" and "pcSecret pc = Some secret" and "length secret = sharedSecretSize"
    and "amDeadlineErr am = None" and "amWriteErr am = None"
  shows "\<exists>data t'. SendConn cr am c msg t = (Ok (), t') \<and> trWire t' = trWire t @ [(c, data)] \<and> carries cr X secret msg data"
proof -
  obtain data where "encryptMessage (crJSON cr) (crAEAD cr) (amRandom am) msg secret = Ok data" and "carries cr X secret msg data"
    using secure_message_sent [OF assms(1,5,2)] unfolding carries_def by blast
  then show ?thesis using assms(3,4,6,7) by (simp add: SendConn_def cmd_then_def markActivity_def with_conn_def)
qed

lemma SendConn_no_panic:
  assumes "seals (crAEAD cr) (amRandom am)" and "wire_faithful (crJSON cr) X msg" and "trHeap t c \<noteq> None"
  shows "fst (SendConn cr am c msg t) \<noteq> Panic p"
  using assms(3) encryptMessage_no_panic [OF assms(1,2)]
  by (auto simp: SendConn_def cmd_then_def split: option.splits result.splits)

lemma broadcast_wire_grows: "broadcast_loop cr am msg cs e t = (r, t') \<Longrightarrow> set (trWire t) \<subseteq> set (trWire t')"
proof (induction cs arbitrary: t e)
  case (Cons d cs)
  obtain r1 t1 where sent: "SendConn cr (am d) d msg t = (r1, t1)" by fastforce
  then show ?case using Cons SendConn_frame(1) [OF sent] by (auto split: option.splits if_splits result.splits)
qed simp

text \<open>A broadcast gets through to every live connection of another peer, whatever happens on the others.\<close>

lemma broadcast_reaches:
  assumes "\<forall>d \<in> set cs. trHeap t d \<noteq> None" and "\<And>d. seals (crAEAD cr) (amRandom (am d))"
    and "wire_faithful (crJSON cr) X msg"
    and "trHeap t c = Some pc" and "ID (pcPeer pc) \<noteq> mFrom msg" and "pcSecret pc = Some secret" and "length secret = sharedSecretSize"
    and "amDeadlineErr (am c) = None" and "amWriteErr (am c) = None" and "c \<in> set cs"
    and "broadcast_loop cr am msg cs e t = (r, t')"
  shows "\<exists>data. (c, data) \<in> set (trWire t') \<and> carries cr X secret msg data"
  using assms(1,4,5,6,10,11)
proof (induction cs arbitrary: t e pc)
  case (Cons d cs)
  obtain pd where d: "trHeap t d = Some pd" using Cons.prems(1) by auto
  obtain r1 t1 where sent: "SendConn cr (am d) d msg t = (r1, t1)" by fastforce
  have keep: "map_option (\<lambda>pc. (pcPeer pc, pcSecret pc)) (trHeap t1 x) = map_option (\<lambda>pc. (pcPeer pc, pcSecret pc)) (trHeap t x)" for x
    using SendConn_frame(2) [OF sent] .
  have "trHeap t1 x = None \<longleftrightarrow> trHeap t x = None" for x using keep [of x] by (cases "trHeap t x"; cases "trHeap t1 x") simp_all
  then have live: "\<forall>x \<in> set cs. trHeap t1 x \<noteq> None" using Cons.prems(1) by simp
  obtain pc1 where pc1: "trHeap t1 c = Some pc1" "ID (pcPeer pc1) \<noteq> mFrom msg" "pcSecret pc1 = Some secret"
    using keep [of c] Cons.prems(2-4) by auto
  have ok: "r1 \<noteq> Panic p" for p using SendConn_no_panic [OF assms(2,3), of t d d] d sent by auto
  show ?case
  proof (cases "ID (pcPeer pd) = mFrom msg")
    case True
    then have "broadcast_loop cr am msg cs e t = (r, t')" "c \<in> set cs" using Cons.prems d by auto
    then show ?thesis using Cons.IH [OF _ Cons.prems(2-4)] Cons.prems(1) by simp
  next
    case False
    then obtain e1 where rest: "broadcast_loop cr am msg cs e1 t1 = (r, t')"
      using Cons.prems(6) d sent ok by (auto split: result.splits)
    show ?thesis
    proof (cases "c = d")
      case True
      obtain data where "trWire t1 = trWire t @ [(c, data)]" "carries cr X secret msg data"
        using SendConn_carries [OF assms(2,3) Cons.prems(2,4) assms(7-9)] sent True by auto
      then show ?thesis using broadcast_wire_grows [OF rest] by auto
    next
      case False
      then show ?thesis using Cons.IH [OF live pc1 _ rest] Cons.prems(5) by auto
    qed
  qed
qed simp

section \<open>Receiving\<close>

text \<open>The other end of a connection takes such a frame as that message, unless it limits or has seen it.\<close>

lemma frame_received:
  assumes "carries cr (crEnvelope cr') secret msg data" and "crJSON cr' = crJSON cr" and "crAEAD cr' = crAEAD cr"
    and "trHeap t d = Some pc" and "pcSecret pc = Some secret" and "fst (Allow now (pcLimiter pc))"
    and "\<not> fst (IsDuplicate now (mID msg) (trDedup t))"
  shows "fst (readLoop_frame cr' now d data t) = Ok (Some msg)"
  using assms by (simp add: readLoop_frame_def carries_def Let_def markActivity_def with_conn_def case_prod_unfold)


lemma tag_aead_seals: "(\<And>n. \<exists>b. r n = Ok b \<and> length b = n) \<Longrightarrow> seals tag_aead r"
  using tag_aead_laws by (simp add: seals_def) (simp add: tag_aead_def)

definition sender_example :: "unit Transport" where
  "sender_example = receiver_example\<lparr>trConns := [(''p1'', 7)]\<rparr>"


end
