(* ===== verification/Peer_Store.thy ===== *)
theory Peer_Store
  imports Peer_Registry Node_Identity
begin

text \<open>
  Persistence of the peer registry, \<^verbatim>\<open>src/go/node/peer.go\<close>: the debounced save of the peers file, the
  allowlist sidecar, loading, closing.

  The file layer is that of \<^verbatim>\<open>Node_Identity\<close>, with a renaming function as a further argument; the JSON
  library is a record of its four uses. The timer of a debounced save is the flag \<open>saveTimer\<close>; its
  firing is an operation of its own. Writing and renaming are separate actions on the file system, so
  that a failure between them is a state of the model.
\<close>

section \<open>Saving and loading\<close>

type_synonym 'f renaming = "string \<Rightarrow> string \<Rightarrow> ('f, unit) cmd"

text \<open>JSON of the peers, where an element may be \<^verbatim>\<open>null\<close>, and of the allowlist.\<close>

record registry_json =
  rjPeers :: "Peer list \<Rightarrow> string result"
  rjUnmarshalPeers :: "bytes \<Rightarrow> Peer option list result"
  rjKeys :: "string list \<Rightarrow> string result"
  rjUnmarshalKeys :: "bytes \<Rightarrow> string list result"

text \<open>Writing the temporary file and renaming it over the target, removing it if that fails.\<close>

definition replace_file :: "'f localfs \<Rightarrow> 'f renaming \<Rightarrow> (go_error \<Rightarrow> go_error) \<Rightarrow> (go_error \<Rightarrow> go_error) \<Rightarrow> string \<Rightarrow> string \<Rightarrow> ('f, unit) cmd" where
  "replace_file F ren writeErr renameErr p data =
     (let tmpPath = p @ ''.tmp'' in
      cmd_then (cmd_map_err writeErr (fsWrite F tmpPath data)) (\<lambda>_ f.
        case ren tmpPath p f of
          (Fail e, f') \<Rightarrow> (Fail (renameErr e), snd (fsDelete F tmpPath f'))
        | (r, f') \<Rightarrow> (r, f')))"

definition saveNow :: "'f localfs \<Rightarrow> 'f renaming \<Rightarrow> registry_json \<Rightarrow> 'kd PeerRegistry \<Rightarrow> ('f, unit) cmd" where
  "saveNow F ren J r =
     (let err = (\<lambda>msg e. E ''PeerRegistry.saveNow'' msg (Some e)) in
      cmd_then (cmd_map_err (err ''failed to create peers directory'') (fsEnsureDir F (fsDir F (regPath r)))) (\<lambda>_.
      cmd_then (of_result (map_err (err ''failed to marshal peers'') (rjPeers J (map snd (peers r))))) (\<lambda>data.
      replace_file F ren (err ''failed to write peers temp file'') (err ''failed to rename peers file'') (regPath r) data)))"

definition saveAllowedPublicKeys :: "'f localfs \<Rightarrow> 'f renaming \<Rightarrow> registry_json \<Rightarrow> 'kd PeerRegistry \<Rightarrow> ('f, unit) cmd" where
  "saveAllowedPublicKeys F ren J r =
     (let err = (\<lambda>msg e. E ''PeerRegistry.saveAllowedPublicKeys'' msg (Some e));
          keys = sorted_list_of_set (allowedPublicKeys r) in
      cmd_then (cmd_map_err (err ''failed to create allowlist directory'') (fsEnsureDir F (fsDir F (allowlistPath r)))) (\<lambda>_.
      cmd_then (of_result (map_err (err ''failed to marshal allowlist'') (rjKeys J keys))) (\<lambda>data.
      replace_file F ren (err ''failed to write allowlist temp file'') (err ''failed to rename allowlist file'') (allowlistPath r) data)))"

text \<open>A \<^verbatim>\<open>null\<close> element is a nil pointer, which the loop dereferences.\<close>

fun index_peers :: "Peer option list \<Rightarrow> (string \<times> Peer) list \<Rightarrow> (string \<times> Peer) list result" where
  "index_peers [] al = Ok al"
| "index_peers (None # ps) al = Panic NilDereference"
| "index_peers (Some p # ps) al = index_peers ps (AList.update (ID p) p al)"

definition load :: "'f localfs \<Rightarrow> registry_json \<Rightarrow> 'f \<Rightarrow> ('kd PeerRegistry, unit) cmd" where
  "load F J f r =
     (let err = (\<lambda>msg e. E ''PeerRegistry.load'' msg (Some e)) in
      case and_then (map_err (err ''failed to read peers'') (fsRead F (regPath r) f)) (\<lambda>content.
           and_then (map_err (err ''failed to unmarshal peers'') (rjUnmarshalPeers J (bytes_of content))) (\<lambda>ps.
           index_peers ps [])) of
        Ok al \<Rightarrow> (Ok (), r\<lparr>peers := al\<rparr>)
      | Fail e \<Rightarrow> (Fail e, r)
      | Panic p \<Rightarrow> (Panic p, r))"

definition loadAllowedPublicKeys :: "'f localfs \<Rightarrow> registry_json \<Rightarrow> 'f \<Rightarrow> ('kd PeerRegistry, unit) cmd" where
  "loadAllowedPublicKeys F J f r =
     (let err = (\<lambda>msg e. E ''PeerRegistry.loadAllowedPublicKeys'' msg (Some e)) in
      if \<not> fsExists F (allowlistPath r) f then (Ok (), r)
      else case and_then (map_err (err ''failed to read allowlist'') (fsRead F (allowlistPath r) f)) (\<lambda>content.
                map_err (err ''failed to unmarshal allowlist'') (rjUnmarshalKeys J (bytes_of content))) of
          Ok keys \<Rightarrow> (Ok (), r\<lparr>allowedPublicKeys := set keys - {[]}\<rparr>)
        | Fail e \<Rightarrow> (Fail e, r)
        | Panic p \<Rightarrow> (Panic p, r))"

definition NewPeerRegistryWithPath :: "(KDPoint list \<Rightarrow> 'kd option) \<Rightarrow> 'f localfs \<Rightarrow> registry_json \<Rightarrow> string \<Rightarrow> 'f \<Rightarrow> 'kd PeerRegistry result" where
  "NewPeerRegistryWithPath mk F J peersPath f =
     (let pr = \<lparr>peers = [], kdTree = None, regPath = peersPath, allowlistPath = peersPath @ ''.allowlist.json'',
                authMode = PeerAuthOpen, allowedPublicKeys = {}, dirty = False, saveTimer = False\<rparr> in
      case load F J f pr of
        (Panic p, _) \<Rightarrow> Panic p
      | (loaded, pr1) \<Rightarrow>
          (let pr2 = (if is_Ok loaded then pr1 else rebuildKDTree mk pr1) in
           case loadAllowedPublicKeys F J f pr2 of
             (Panic p, _) \<Rightarrow> Panic p
           | (_, pr3) \<Rightarrow> Ok (rebuildKDTree mk pr3)))"

text \<open>\<open>configFile\<close> is the outcome of the XDG lookup.\<close>

definition NewPeerRegistry :: "(KDPoint list \<Rightarrow> 'kd option) \<Rightarrow> 'f localfs \<Rightarrow> registry_json \<Rightarrow> string result \<Rightarrow> string list \<Rightarrow> 'f \<Rightarrow> 'kd PeerRegistry result" where
  "NewPeerRegistry mk F J configFile pathArgs f =
     (case pathArgs of
        p # _ \<Rightarrow>
          if p \<noteq> [] then NewPeerRegistryWithPath mk F J p f
          else and_then (map_err (\<lambda>e. E ''PeerRegistry.New'' ''failed to get peers path'' (Some e)) configFile)
                 (\<lambda>peersPath. NewPeerRegistryWithPath mk F J peersPath f)
      | [] \<Rightarrow> and_then (map_err (\<lambda>e. E ''PeerRegistry.New'' ''failed to get peers path'' (Some e)) configFile)
                 (\<lambda>peersPath. NewPeerRegistryWithPath mk F J peersPath f))"

text \<open>The libraries and the surroundings of the process: paths, clock, joining of errors.\<close>

record ('kp, 'pk, 'sk, 'kd, 'f) host =
  hoKeys :: "('kp, 'pk, 'sk) keys"
  hoFS :: "'f localfs"
  hoRename :: "'f renaming"
  hoIdentityJSON :: identity_json
  hoRegistryJSON :: registry_json
  hoTree :: "KDPoint list \<Rightarrow> 'kd option"
  hoKeyPath :: "string result"
  hoConfigPath :: "string result"
  hoPeersPath :: "string result"
  hoNow :: instant
  hoErrorJoin :: "go_error \<Rightarrow> go_error \<Rightarrow> go_error"

section \<open>The running registry\<close>

text \<open>
  The registry, its files, and the saves under way: the timer's function and \<^verbatim>\<open>Close\<close> first clear the
  flags under one lock and then save under another, so other calls may come between.
\<close>

record ('kd, 'f) store =
  stRegistry :: "'kd PeerRegistry"
  stFiles :: 'f
  stSavers :: nat

definition clear_flags :: "('kd, 'f) store \<Rightarrow> ('kd, 'f) store" where
  "clear_flags s =
     s\<lparr>stRegistry := (stRegistry s)\<lparr>saveTimer := False, dirty := False\<rparr>,
       stSavers := stSavers s + (if dirty (stRegistry s) then 1 else 0)\<rparr>"

definition timer_fires :: "('kd, 'f) store \<Rightarrow> ('kd, 'f) store" where
  "timer_fires s = (if saveTimer (stRegistry s) then clear_flags s else s)"

definition run_saver :: "'f localfs \<Rightarrow> 'f renaming \<Rightarrow> registry_json \<Rightarrow> (('kd, 'f) store, unit) cmd" where
  "run_saver F ren J s =
     (if stSavers s = 0 then (Ok (), s)
      else case saveNow F ren J (stRegistry s) (stFiles s) of
          (r, f) \<Rightarrow> (r, s\<lparr>stFiles := f, stSavers := stSavers s - 1\<rparr>))"

text \<open>\<^verbatim>\<open>Close\<close> without other calls in between.\<close>

definition CloseRegistry :: "'f localfs \<Rightarrow> 'f renaming \<Rightarrow> registry_json \<Rightarrow> (('kd, 'f) store, unit) cmd" where
  "CloseRegistry F ren J s = (if dirty (stRegistry s) then run_saver F ren J (clear_flags s) else (Ok (), clear_flags s))"

definition save_keys :: "'f localfs \<Rightarrow> 'f renaming \<Rightarrow> registry_json \<Rightarrow> (('kd, 'f) store, unit) cmd" where
  "save_keys F ren J s =
     (case saveAllowedPublicKeys F ren J (stRegistry s) (stFiles s) of (r, f) \<Rightarrow> (r, s\<lparr>stFiles := f\<rparr>))"

definition change_keys :: "(string set \<Rightarrow> string set) \<Rightarrow> ('kd, 'f) store \<Rightarrow> ('kd, 'f) store" where
  "change_keys g s = s\<lparr>stRegistry := (stRegistry s)\<lparr>allowedPublicKeys := g (allowedPublicKeys (stRegistry s))\<rparr>\<rparr>"

text \<open>The two changes of the allowlist; the outcome of the save is only logged.\<close>

definition AllowPublicKey :: "'f localfs \<Rightarrow> 'f renaming \<Rightarrow> registry_json \<Rightarrow> string \<Rightarrow> (('kd, 'f) store, unit) cmd" where
  "AllowPublicKey F ren J publicKey s = save_keys F ren J (change_keys (insert publicKey) s)"

definition RevokePublicKey :: "'f localfs \<Rightarrow> 'f renaming \<Rightarrow> registry_json \<Rightarrow> string \<Rightarrow> (('kd, 'f) store, unit) cmd" where
  "RevokePublicKey F ren J publicKey s = save_keys F ren J (change_keys (\<lambda>ks. ks - {publicKey}) s)"

definition ListAllowedPublicKeys :: "'kd PeerRegistry \<Rightarrow> string set" where
  "ListAllowedPublicKeys r = allowedPublicKeys r"

text \<open>One action on the registry and its files, with the outcome of what it wrote.\<close>

datatype store_op =
    Call instant registry_op
  | TimerFires
  | CloseStarts
  | SaverRuns
  | AllowKey string
  | RevokeKey string

fun store_exec :: "(KDPoint list \<Rightarrow> 'kd option) \<Rightarrow> 'f localfs \<Rightarrow> 'f renaming \<Rightarrow> registry_json \<Rightarrow> store_op \<Rightarrow> (('kd, 'f) store, unit) cmd" where
  "store_exec mk F ren J (Call now op) s = (Ok (), s\<lparr>stRegistry := registry_exec mk (now, op) (stRegistry s)\<rparr>)"
| "store_exec mk F ren J TimerFires s = (Ok (), timer_fires s)"
| "store_exec mk F ren J CloseStarts s = (Ok (), clear_flags s)"
| "store_exec mk F ren J SaverRuns s = run_saver F ren J s"
| "store_exec mk F ren J (AllowKey k) s = AllowPublicKey F ren J k s"
| "store_exec mk F ren J (RevokeKey k) s = RevokePublicKey F ren J k s"

text \<open>Calls go on after a failed save; the outcomes are collected.\<close>

fun store_run :: "(KDPoint list \<Rightarrow> 'kd option) \<Rightarrow> 'f localfs \<Rightarrow> 'f renaming \<Rightarrow> registry_json \<Rightarrow> store_op list
    \<Rightarrow> ('kd, 'f) store \<Rightarrow> unit result list \<times> ('kd, 'f) store" where
  "store_run mk F ren J [] s = ([], s)"
| "store_run mk F ren J (op # ops) s =
     (case store_exec mk F ren J op s of (r, s') \<Rightarrow>
        case store_run mk F ren J ops s' of (rs, s'') \<Rightarrow> (r # rs, s''))"

section \<open>Files are replaced as a whole\<close>

text \<open>
  What the code relies on of the file layer: an operation leaves the contents of other files alone; a
  successful write stores the text; a rename gives the target the source's content, or fails and
  leaves the target; a file that can be read exists, and reading never panics.
\<close>

definition content :: "'f localfs \<Rightarrow> string \<Rightarrow> 'f \<Rightarrow> string option" where
  "content F p f = (case fsRead F p f of Ok c \<Rightarrow> Some c | _ \<Rightarrow> None)"

definition untouched :: "'f localfs \<Rightarrow> string set \<Rightarrow> ('f, unit) cmd \<Rightarrow> bool" where
  "untouched F changed c \<longleftrightarrow> (\<forall>f r f' q. c f = (r, f') \<longrightarrow> q \<notin> changed \<longrightarrow> content F q f' = content F q f)"

definition store_laws :: "'f localfs \<Rightarrow> 'f renaming \<Rightarrow> bool" where
  "store_laws F ren \<longleftrightarrow>
     (\<forall>p. untouched F {} (fsEnsureDir F p)) \<and> (\<forall>p c. untouched F {p} (fsWrite F p c)) \<and>
     (\<forall>p. untouched F {p} (fsDelete F p)) \<and> (\<forall>a b. untouched F {a, b} (ren a b)) \<and>
     (\<forall>p c f f'. fsWrite F p c f = (Ok (), f') \<longrightarrow> content F p f' = Some c) \<and>
     (\<forall>a b f r f'. ren a b f = (r, f') \<longrightarrow> content F b f' = (if is_Ok r then content F a f else content F b f)) \<and>
     (\<forall>p f. content F p f \<noteq> None \<longrightarrow> fsExists F p f) \<and> (\<forall>p f q. fsRead F p f \<noteq> Panic q)"

lemma untouchedD: "untouched F changed c \<Longrightarrow> c f = (r, f') \<Longrightarrow> q \<notin> changed \<Longrightarrow> content F q f' = content F q f"
  unfolding untouched_def by blast

lemma store_lawsD:
  assumes "store_laws F ren"
  shows "fsEnsureDir F p f = (r, f') \<Longrightarrow> content F q f' = content F q f"
    and "fsWrite F p c f = (r, f') \<Longrightarrow> q \<noteq> p \<Longrightarrow> content F q f' = content F q f"
    and "fsDelete F p f = (r, f') \<Longrightarrow> q \<noteq> p \<Longrightarrow> content F q f' = content F q f"
    and "ren a b f = (r, f') \<Longrightarrow> q \<noteq> a \<Longrightarrow> q \<noteq> b \<Longrightarrow> content F q f' = content F q f"
    and "fsWrite F p c f = (Ok (), f') \<Longrightarrow> content F p f' = Some c"
    and "ren a b f = (r, f') \<Longrightarrow> content F b f' = (if is_Ok r then content F a f else content F b f)"
    and "content F p f \<noteq> None \<Longrightarrow> fsExists F p f"
proof -
  have u: "untouched F {} (fsEnsureDir F p)" "untouched F {p} (fsWrite F p c)" "untouched F {p} (fsDelete F p)"
    "untouched F {a, b} (ren a b)" for p c a b
    using assms by (simp_all add: store_laws_def)
  show "fsEnsureDir F p f = (r, f') \<Longrightarrow> content F q f' = content F q f" using untouchedD [OF u(1)] by simp
  show "fsWrite F p c f = (r, f') \<Longrightarrow> q \<noteq> p \<Longrightarrow> content F q f' = content F q f" using untouchedD [OF u(2)] by simp
  show "fsDelete F p f = (r, f') \<Longrightarrow> q \<noteq> p \<Longrightarrow> content F q f' = content F q f" using untouchedD [OF u(3)] by simp
  show "ren a b f = (r, f') \<Longrightarrow> q \<noteq> a \<Longrightarrow> q \<noteq> b \<Longrightarrow> content F q f' = content F q f" using untouchedD [OF u(4)] by simp
qed (use assms in \<open>auto simp: store_laws_def\<close>)

lemma replace_file_contract:
  assumes "store_laws F ren" and "replace_file F ren we re p data f = (r, f')"
  shows "content F p f' = (if is_Ok r then Some data else content F p f)"
    and "q \<noteq> p \<Longrightarrow> q \<noteq> p @ ''.tmp'' \<Longrightarrow> content F q f' = content F q f"
proof -
  obtain w f1 where w: "fsWrite F (p @ ''.tmp'') data f = (w, f1)" by fastforce
  obtain m f2 where m: "ren (p @ ''.tmp'') p f1 = (m, f2)" by fastforce
  obtain d f3 where d: "fsDelete F (p @ ''.tmp'') f2 = (d, f3)" by fastforce
  note laws = store_lawsD [OF assms(1)]
  have 1: "content F q f1 = content F q f" if "q \<noteq> p @ ''.tmp''" for q using laws(2) [OF w that] .
  have 2: "content F p f2 = (if is_Ok m then content F (p @ ''.tmp'') f1 else content F p f1)" using laws(6) [OF m] .
  have 3: "content F q f3 = content F q f2" if "q \<noteq> p @ ''.tmp''" for q using laws(3) [OF d that] .
  have 4: "content F q f2 = content F q f1" if "q \<noteq> p @ ''.tmp''" "q \<noteq> p" for q using laws(4) [OF m that] .
  have run: "(r, f') = (case w of
      Ok _ \<Rightarrow> (case m of Fail e \<Rightarrow> (Fail (re e), f3) | _ \<Rightarrow> (m, f2)) | Fail e \<Rightarrow> (Fail (we e), f1) | Panic q \<Rightarrow> (Panic q, f1))"
    using assms(2) w m d
    by (cases w; cases m) (auto simp: replace_file_def Let_def cmd_then_def cmd_map_err_def)
  show "content F p f' = (if is_Ok r then Some data else content F p f)"
    using run 1 [of p] 2 3 [of p] laws(5) [of "p @ ''.tmp''" data f f1] w
    by (cases w; cases m) simp_all
  show "content F q f' = content F q f" if "q \<noteq> p" "q \<noteq> p @ ''.tmp''"
    using run 1 [of q] 3 [of q] 4 [of q] that by (cases w; cases m) simp_all
qed

text \<open>
  The contract of a function that persists something under a path: the file then holds the rendered
  text if the call succeeded, and what it held before otherwise; only the temporary file beside it is
  touched too.
\<close>

locale atomic_saver =
  fixes saver :: "'f localfs \<Rightarrow> 'f renaming \<Rightarrow> 'x \<Rightarrow> ('f, unit) cmd"
    and target :: "'x \<Rightarrow> string" and render :: "'x \<Rightarrow> string result"
  assumes replaced: "store_laws F ren \<Longrightarrow> saver F ren x f = (r, f') \<Longrightarrow> is_Ok r \<Longrightarrow>
      \<exists>d. render x = Ok d \<and> content F (target x) f' = Some d"
    and kept: "store_laws F ren \<Longrightarrow> saver F ren x f = (r, f') \<Longrightarrow> \<not> is_Ok r \<Longrightarrow> content F (target x) f' = content F (target x) f"
    and others: "store_laws F ren \<Longrightarrow> saver F ren x f = (r, f') \<Longrightarrow> q \<noteq> target x \<Longrightarrow> q \<noteq> target x @ ''.tmp'' \<Longrightarrow>
      content F q f' = content F q f"
begin

text \<open>However often it runs and fails, the file holds its first content or a complete rendering.\<close>

fun saves :: "'f localfs \<Rightarrow> 'f renaming \<Rightarrow> 'x list \<Rightarrow> 'f \<Rightarrow> 'f" where
  "saves F ren [] f = f"
| "saves F ren (x # xs) f = saves F ren xs (snd (saver F ren x f))"

lemma old_or_rendered:
  assumes "store_laws F ren" and "\<forall>x \<in> set xs. target x = p"
  shows "content F p (saves F ren xs f) \<in> insert (content F p f) {Some d | d x. x \<in> set xs \<and> render x = Ok d}"
  using assms(2)
proof (induction xs arbitrary: f)
  case (Cons x xs)
  obtain r f' where run: "saver F ren x f = (r, f')" by fastforce
  have "content F p f' \<in> {content F p f} \<union> {Some d | d. render x = Ok d}"
    using replaced [OF assms(1) run] kept [OF assms(1) run] Cons.prems by (cases "is_Ok r") auto
  with Cons.IH [of f'] Cons.prems run show ?case by auto
qed simp

end

lemma checked_replace_contract:
  fixes mkdirErr marshalErr we re p out
  defines "c \<equiv> \<lambda>F ren. cmd_then (cmd_map_err mkdirErr (fsEnsureDir F (fsDir F p))) (\<lambda>_.
    cmd_then (of_result (map_err marshalErr out)) (\<lambda>data. replace_file F ren we re p data))"
  assumes "store_laws F ren" and "c F ren f = (r, f')"
  shows "is_Ok r \<Longrightarrow> \<exists>d. out = Ok d \<and> content F p f' = Some d"
    and "\<not> is_Ok r \<Longrightarrow> content F p f' = content F p f"
    and "q \<noteq> p \<Longrightarrow> q \<noteq> p @ ''.tmp'' \<Longrightarrow> content F q f' = content F q f"
proof -
  obtain m f1 where m: "fsEnsureDir F (fsDir F p) f = (m, f1)" by fastforce
  have 1: "content F q f1 = content F q f" for q using store_lawsD(1) [OF assms(2) m] .
  have "c F ren f = (case m of
      Ok _ \<Rightarrow> (case out of Ok d \<Rightarrow> replace_file F ren we re p d f1 | Fail e \<Rightarrow> (Fail (marshalErr e), f1) | Panic q \<Rightarrow> (Panic q, f1))
    | Fail e \<Rightarrow> (Fail (mkdirErr e), f1) | Panic q \<Rightarrow> (Panic q, f1))"
    using m unfolding c_def by (cases m; cases out) (simp_all add: cmd_then_def cmd_map_err_def of_result_def)
  note run = this [unfolded assms(3)]
  have put: "content F p f' = (if is_Ok r then Some d else content F p f1)"
    "q \<noteq> p \<Longrightarrow> q \<noteq> p @ ''.tmp'' \<Longrightarrow> content F q f' = content F q f1" if "m = Ok u" "out = Ok d" for q u d
    using replace_file_contract [OF assms(2), of we re p d f1 r f'] run that by simp_all
  show "is_Ok r \<Longrightarrow> \<exists>d. out = Ok d \<and> content F p f' = Some d"
    using run put(1) by (cases m; cases out) auto
  show "\<not> is_Ok r \<Longrightarrow> content F p f' = content F p f"
    using run put(1) 1 by (cases m; cases out) auto
  show "q \<noteq> p \<Longrightarrow> q \<noteq> p @ ''.tmp'' \<Longrightarrow> content F q f' = content F q f"
    using run put(2) 1 by (cases m; cases out) auto
qed

interpretation peers_file: atomic_saver
  "\<lambda>F ren (J, r). saveNow F ren J r" "\<lambda>(J, r). regPath r" "\<lambda>(J, r). rjPeers J (map snd (peers r))"
  by unfold_locales (auto simp: saveNow_def Let_def dest: checked_replace_contract)

interpretation keys_file: atomic_saver
  "\<lambda>F ren (J, r). saveAllowedPublicKeys F ren J r" "\<lambda>(J, r). allowlistPath r"
  "\<lambda>(J, r). rjKeys J (sorted_list_of_set (allowedPublicKeys r))"
  by unfold_locales (auto simp: saveAllowedPublicKeys_def Let_def dest: checked_replace_contract)

section \<open>Nothing is lost between a change and a restart\<close>

text \<open>
  The connection state is not persisted. The laws of the JSON library: what it writes it reads back, up
  to that field, which it never sets; and it never panics.
\<close>

definition unconnected :: "Peer \<Rightarrow> Peer" where
  "unconnected p = p\<lparr>Connected := False\<rparr>"

definition registry_json_laws :: "registry_json \<Rightarrow> bool" where
  "registry_json_laws J \<longleftrightarrow>
     (\<forall>ps s. rjPeers J ps = Ok s \<longrightarrow> rjUnmarshalPeers J (bytes_of s) = Ok (map (Some \<circ> unconnected) ps)) \<and>
     (\<forall>b ps p. rjUnmarshalPeers J b = Ok ps \<longrightarrow> Some p \<in> set ps \<longrightarrow> \<not> Connected p) \<and>
     (\<forall>ks s. rjKeys J ks = Ok s \<longrightarrow> rjUnmarshalKeys J (bytes_of s) = Ok ks) \<and>
     (\<forall>b q. rjUnmarshalPeers J b \<noteq> Panic q \<and> rjUnmarshalKeys J b \<noteq> Panic q)"

text \<open>What a registry opened on the files starts with.\<close>

definition peers_on_disk :: "'f localfs \<Rightarrow> registry_json \<Rightarrow> string \<Rightarrow> 'f \<Rightarrow> (string \<times> Peer) list result" where
  "peers_on_disk F J p f =
     (case content F p f of
        None \<Rightarrow> Ok []
      | Some c \<Rightarrow> (case rjUnmarshalPeers J (bytes_of c) of Ok ps \<Rightarrow> index_peers ps [] | Fail _ \<Rightarrow> Ok [] | Panic q \<Rightarrow> Panic q))"

definition keys_on_disk :: "'f localfs \<Rightarrow> registry_json \<Rightarrow> string \<Rightarrow> 'f \<Rightarrow> string set" where
  "keys_on_disk F J p f =
     (case content F p f of
        None \<Rightarrow> {}
      | Some c \<Rightarrow> (case rjUnmarshalKeys J (bytes_of c) of Ok ks \<Rightarrow> set ks - {[]} | _ \<Rightarrow> {}))"

definition keyed :: "(string \<times> Peer) list \<Rightarrow> bool" where
  "keyed al \<longleftrightarrow> distinct (map fst al) \<and> (\<forall>(i, p) \<in> set al. ID p = i)"

lemma keyed_update: "keyed al \<Longrightarrow> keyed (AList.update (ID p) p al)"
  unfolding keyed_def using set_update_subset [of "ID p" p al] by (fastforce simp: distinct_update)

lemma index_peers_keyed:
  assumes "index_peers ps al = Ok al'" and "keyed al"
  shows "keyed al' \<and> set al' \<subseteq> set al \<union> {(ID p, p) | p. Some p \<in> set ps}"
  using assms
proof (induction ps al rule: index_peers.induct)
  case (3 p ps al)
  have "set (AList.update (ID p) p al) \<subseteq> insert (ID p, p) (set al)"
    by (rule set_update_subset)
  with 3 keyed_update [OF 3(3)] show ?case by fastforce
qed auto

lemma index_peers_ids:
  assumes "distinct (map fst (al @ bl))" and "\<forall>(i, p) \<in> set bl. ID p = i"
  shows "index_peers (map (Some \<circ> snd) bl) al = Ok (al @ bl)"
  using assms
proof (induction bl arbitrary: al)
  case (Cons b bl)
  obtain p where b: "b = (ID p, p)" using Cons.prems(2) by (cases b) auto
  then have "AList.update (ID p) p al = al @ [(ID p, p)]" using Cons.prems(1) by (simp add: update_fresh)
  with Cons.IH [of "al @ [(ID p, p)]"] Cons.prems b show ?case by auto
qed simp

abbreviation persisted :: "(string \<times> Peer) list \<Rightarrow> (string \<times> Peer) list" where
  "persisted \<equiv> map (\<lambda>(i, p). (i, unconnected p))"

lemma persisted_update:
  "map_of al i = Some p \<Longrightarrow> unconnected q = unconnected p \<Longrightarrow> persisted (AList.update i q al) = persisted al"
  by (induction al) auto

lemma keyed_exec:
  assumes "keyed (peers r)"
  shows "keyed (peers (registry_exec mk (now, op) r))"
proof (cases rule: registry_exec_cases [where mk = mk and now = now and op = op and r = r])
  case (added p)
  then show ?thesis using keyed_update [OF assms, of "added_peer now p"] by simp
next
  case (updated p)
  then show ?thesis using keyed_update [OF assms, of p] by simp
next
  case (changed i f p)
  have "ID p = i" using changed(2) assms by (auto simp: keyed_def dest: map_of_SomeD)
  then show ?thesis using changed(3) ID_peer_change [OF changed(1)] keyed_update [OF assms, of "f p"] by simp
next
  case (removed i)
  then show ?thesis using assms delete_facts [where i = i and al = "peers r"] by (fastforce simp: keyed_def)
qed (use assms in simp)

lemma exec_schedules:
  "dirty (registry_exec mk (now, op) r) \<and> saveTimer (registry_exec mk (now, op) r)
   \<or> dirty (registry_exec mk (now, op) r) = dirty r \<and> saveTimer (registry_exec mk (now, op) r) = saveTimer r
     \<and> persisted (peers (registry_exec mk (now, op) r)) = persisted (peers r)"
proof (cases op)
  case (OpAdd p)
  then show ?thesis using AddPeer_addable [of p r mk now] by (cases "addable p r") auto
next
  case (OpConnected i c)
  have "persisted (AList.update i (p\<lparr>Connected := False\<rparr>) (peers r)) = persisted (peers r)" if "map_of (peers r) i = Some p" for p
    using that by (rule persisted_update) (simp add: unconnected_def)
  then show ?thesis using OpConnected by (cases c) (auto simp: SetConnected_def Let_def split: option.splits)
qed (auto simp: registry_ops Let_def split: option.splits)

lemma exec_paths:
  "regPath (registry_exec mk (now, op) r) = regPath r \<and> allowlistPath (registry_exec mk (now, op) r) = allowlistPath r
   \<and> allowedPublicKeys (registry_exec mk (now, op) r) = allowedPublicKeys r"
proof (cases op)
  case (OpAdd p)
  then show ?thesis using AddPeer_addable [of p r mk now] by (cases "addable p r") auto
qed (auto simp: registry_ops Let_def split: option.splits)

text \<open>
  The invariant of the running registry: unsaved changes have a timer; and if there are none and no
  save is under way, the files hold what is in memory.
\<close>

definition peers_saved :: "'f localfs \<Rightarrow> registry_json \<Rightarrow> ('kd, 'f) store \<Rightarrow> bool" where
  "peers_saved F J s \<longleftrightarrow>
     peers_on_disk F J (regPath (stRegistry s)) (stFiles s) = Ok (persisted (peers (stRegistry s)))"

definition keys_saved :: "'f localfs \<Rightarrow> registry_json \<Rightarrow> ('kd, 'f) store \<Rightarrow> bool" where
  "keys_saved F J s \<longleftrightarrow>
     keys_on_disk F J (allowlistPath (stRegistry s)) (stFiles s) = allowedPublicKeys (stRegistry s) - {[]}"

definition store_inv :: "'f localfs \<Rightarrow> registry_json \<Rightarrow> string \<Rightarrow> ('kd, 'f) store \<Rightarrow> bool" where
  "store_inv F J p s \<longleftrightarrow>
     (let r = stRegistry s in
      regPath r = p \<and> allowlistPath r = p @ ''.allowlist.json'' \<and> keyed (peers r) \<and> finite (allowedPublicKeys r) \<and>
      (dirty r \<longrightarrow> saveTimer r) \<and> (dirty r \<or> stSavers s > 0 \<or> peers_saved F J s) \<and> keys_saved F J s)"

lemma store_invD:
  assumes "store_inv F J p s"
  shows "regPath (stRegistry s) = p" "allowlistPath (stRegistry s) = p @ ''.allowlist.json''" "keyed (peers (stRegistry s))"
    "finite (allowedPublicKeys (stRegistry s))" "dirty (stRegistry s) \<longrightarrow> saveTimer (stRegistry s)"
    "dirty (stRegistry s) \<or> stSavers s > 0 \<or> peers_saved F J s" "keys_saved F J s"
  using assms by (simp_all add: store_inv_def Let_def)

lemma peers_on_disk_frame: "content F p f' = content F p f \<Longrightarrow> peers_on_disk F J p f' = peers_on_disk F J p f"
  and keys_on_disk_frame: "content F p f' = content F p f \<Longrightarrow> keys_on_disk F J p f' = keys_on_disk F J p f"
  by (simp_all add: peers_on_disk_def keys_on_disk_def)

lemma saveNow_saves:
  assumes "store_laws F ren" and "registry_json_laws J" and "keyed (peers r)" and "saveNow F ren J r f = (Ok (), f')"
  shows "peers_on_disk F J (regPath r) f' = Ok (persisted (peers r))"
proof -
  obtain d where d: "rjPeers J (map snd (peers r)) = Ok d" "content F (regPath r) f' = Some d"
    using peers_file.replaced [OF assms(1), of "(J, r)" f "Ok ()" f'] assms(4) by auto
  have "rjUnmarshalPeers J (bytes_of d) = Ok (map (Some \<circ> snd) (persisted (peers r)))"
    using assms(2) d(1) by (auto simp: registry_json_laws_def comp_def split_beta)
  moreover have "distinct (map fst (persisted (peers r)))" "\<forall>(i, p) \<in> set (persisted (peers r)). ID p = i"
    using assms(3) by (auto simp: keyed_def unconnected_def comp_def split_beta)
  ultimately show ?thesis
    using index_peers_ids [of "[]" "persisted (peers r)"] d(2) by (simp add: peers_on_disk_def)
qed

lemma saveAllowedPublicKeys_saves:
  assumes "store_laws F ren" and "registry_json_laws J" and "finite (allowedPublicKeys r)"
    and "saveAllowedPublicKeys F ren J r f = (Ok (), f')"
  shows "keys_on_disk F J (allowlistPath r) f' = allowedPublicKeys r - {[]}"
proof -
  obtain d where d: "rjKeys J (sorted_list_of_set (allowedPublicKeys r)) = Ok d" "content F (allowlistPath r) f' = Some d"
    using keys_file.replaced [OF assms(1), of "(J, r)" f "Ok ()" f'] assms(4) by auto
  then show ?thesis using assms(2,3) by (simp add: keys_on_disk_def registry_json_laws_def)
qed

lemma store_inv_call:
  assumes "store_inv F J p s"
  shows "store_inv F J p (s\<lparr>stRegistry := registry_exec mk (now, op) (stRegistry s)\<rparr>)"
proof -
  let ?r = "stRegistry s"
  let ?r' = "registry_exec mk (now, op) ?r"
  note paths = exec_paths [of mk now op ?r]
  note inv = store_invD [OF assms]
  have "keyed (peers ?r')" using inv(3) by (rule keyed_exec)
  moreover have "keys_saved F J (s\<lparr>stRegistry := ?r'\<rparr>)" using inv(7) paths by (simp add: keys_saved_def)
  moreover have "(dirty ?r' \<longrightarrow> saveTimer ?r') \<and> (dirty ?r' \<or> stSavers s > 0 \<or> peers_saved F J (s\<lparr>stRegistry := ?r'\<rparr>))"
    using exec_schedules [of mk now op ?r]
  proof
    assume "dirty ?r' = dirty ?r \<and> saveTimer ?r' = saveTimer ?r \<and> persisted (peers ?r') = persisted (peers ?r)"
    then show ?thesis using inv(5,6) paths by (simp add: peers_saved_def)
  qed simp
  ultimately show ?thesis using inv(1,2,4) paths by (simp add: store_inv_def Let_def)
qed

lemma store_inv_clear:
  assumes "store_inv F J p s"
  shows "store_inv F J p (clear_flags s)"
proof -
  have "peers_saved F J (clear_flags s) = peers_saved F J s" "keys_saved F J (clear_flags s) = keys_saved F J s"
    by (simp_all add: clear_flags_def peers_saved_def keys_saved_def)
  then show ?thesis using assms unfolding store_inv_def Let_def
    by (cases "dirty (stRegistry s)") (simp_all add: clear_flags_def)
qed

lemma store_inv_saver:
  assumes "store_laws F ren" and "registry_json_laws J" and inv: "store_inv F J p s" and "run_saver F ren J s = (Ok (), s')"
  shows "store_inv F J p s'"
proof (cases "stSavers s = 0")
  case False
  let ?r = "stRegistry s"
  obtain f where run: "saveNow F ren J ?r (stFiles s) = (Ok (), f)" and s': "s' = s\<lparr>stFiles := f, stSavers := stSavers s - 1\<rparr>"
    using assms(4) False by (auto simp: run_saver_def split: prod.splits)
  note names = store_invD(1-3) [OF inv]
  have "content F (allowlistPath ?r) f = content F (allowlistPath ?r) (stFiles s)"
    using peers_file.others [OF assms(1), of "(J, ?r)" "stFiles s" "Ok ()" f "allowlistPath ?r"] run
    by (simp add: names)
  then have "keys_on_disk F J (allowlistPath ?r) f = keys_on_disk F J (allowlistPath ?r) (stFiles s)" by (rule keys_on_disk_frame)
  moreover note store_invD(7) [OF inv]
  ultimately have "keys_saved F J s'" by (simp add: keys_saved_def s')
  moreover have "peers_saved F J s'"
    using saveNow_saves [OF assms(1,2) names(3) run] by (simp add: peers_saved_def s')
  ultimately show ?thesis using inv by (simp add: store_inv_def Let_def s')
qed (use assms in \<open>simp add: run_saver_def\<close>)

lemma store_inv_keys:
  assumes "store_laws F ren" and "registry_json_laws J" and inv: "store_inv F J p s"
    and "save_keys F ren J (change_keys g s) = (Ok (), s')" and "\<And>ks. finite ks \<Longrightarrow> finite (g ks)"
  shows "store_inv F J p s'"
proof -
  let ?r = "stRegistry (change_keys g s)"
  have names: "regPath ?r = p" "allowlistPath ?r = p @ ''.allowlist.json''" "finite (allowedPublicKeys ?r)"
    and same: "peers ?r = peers (stRegistry s)" "dirty ?r = dirty (stRegistry s)" "saveTimer ?r = saveTimer (stRegistry s)"
    using inv assms(5) by (simp_all add: store_inv_def Let_def change_keys_def)
  obtain f where run: "saveAllowedPublicKeys F ren J ?r (stFiles s) = (Ok (), f)" and s': "s' = (change_keys g s)\<lparr>stFiles := f\<rparr>"
    using assms(4) by (auto simp: save_keys_def change_keys_def split: prod.splits)
  have "content F p f = content F p (stFiles s)"
    using keys_file.others [OF assms(1), of "(J, ?r)" "stFiles s" "Ok ()" f p] run by (simp add: names)
  then have "peers_on_disk F J p f = peers_on_disk F J p (stFiles s)" by (rule peers_on_disk_frame)
  moreover have "keys_on_disk F J (allowlistPath ?r) f = allowedPublicKeys ?r - {[]}"
    by (rule saveAllowedPublicKeys_saves [OF assms(1,2) names(3) run])
  ultimately have "keys_saved F J s'" and "peers_saved F J s' = peers_saved F J s"
    using names same inv by (simp_all add: keys_saved_def peers_saved_def s' store_inv_def Let_def)
  moreover have "stRegistry s' = ?r" "stSavers s' = stSavers s" by (simp_all add: s' change_keys_def)
  ultimately show ?thesis using inv names same by (simp add: store_inv_def Let_def)
qed

lemma store_inv_run:
  assumes "store_laws F ren" and "registry_json_laws J"
  shows "store_inv F J p s \<Longrightarrow> store_run mk F ren J ops s = (rs, s') \<Longrightarrow> list_all is_Ok rs \<Longrightarrow> store_inv F J p s'"
proof (induction ops arbitrary: s rs)
  case (Cons op ops)
  obtain r s1 where op: "store_exec mk F ren J op s = (r, s1)" by fastforce
  obtain rs' where rest: "store_run mk F ren J ops s1 = (rs', s')" and rs: "rs = r # rs'"
    using Cons.prems(2) op by (auto split: prod.splits)
  have r: "r = Ok ()" using Cons.prems(3) rs by (auto simp: is_Ok_iff)
  have "store_inv F J p s1"
  proof (cases op)
    case (AllowKey k)
    then show ?thesis
      using store_inv_keys [OF assms Cons.prems(1), of "insert k"] op r by (auto simp: AllowPublicKey_def)
  next
    case (RevokeKey k)
    then show ?thesis
      using store_inv_keys [OF assms Cons.prems(1), of "\<lambda>ks. ks - {k}"] op r by (auto simp: RevokePublicKey_def)
  next
    case SaverRuns
    then show ?thesis using store_inv_saver [OF assms Cons.prems(1)] op r by simp
  qed (use op Cons.prems(1) store_inv_clear store_inv_call in \<open>auto simp: timer_fires_def\<close>)
  with Cons.IH [OF _ rest] Cons.prems(3) rs show ?case by simp
qed simp

lemma load_from_disk:
  assumes "store_laws F ren" and "registry_json_laws J"
  shows "case peers_on_disk F J (regPath r) f of
      Ok al \<Rightarrow> (\<exists>res. load F J f r = (res, r\<lparr>peers := al\<rparr>) \<and> (\<nexists>q. res = Panic q)) \<or> al = [] \<and> (\<exists>e. load F J f r = (Fail e, r))
    | Fail e \<Rightarrow> False | Panic q \<Rightarrow> load F J f r = (Panic q, r)"
proof -
  have idx: "index_peers ps al \<noteq> Fail e" for ps al e by (induction ps al rule: index_peers.induct) auto
  show ?thesis
  proof (cases "fsRead F (regPath r) f")
    case (Ok c)
    show ?thesis
    proof (cases "rjUnmarshalPeers J (bytes_of c)")
      case ps: (Ok ps)
      then show ?thesis using Ok idx
        by (cases "index_peers ps []") (auto simp: peers_on_disk_def content_def load_def Let_def)
    qed (use Ok assms(2) in \<open>auto simp: peers_on_disk_def content_def load_def Let_def registry_json_laws_def\<close>)
  qed (use assms(1) in \<open>auto simp: peers_on_disk_def content_def load_def Let_def store_laws_def\<close>)
qed

lemma loadAllowedPublicKeys_from_disk:
  assumes "store_laws F ren" and "registry_json_laws J" and "allowedPublicKeys r = {}"
  shows "\<exists>res. loadAllowedPublicKeys F J f r = (res, r\<lparr>allowedPublicKeys := keys_on_disk F J (allowlistPath r) f\<rparr>)
    \<and> (\<nexists>q. res = Panic q)"
proof (cases "fsRead F (allowlistPath r) f")
  case (Ok c)
  then have "fsExists F (allowlistPath r) f" using store_lawsD(7) [OF assms(1)] by (simp add: content_def)
  then show ?thesis
    using Ok assms(2,3) by (cases "rjUnmarshalKeys J (bytes_of c)")
      (auto simp: loadAllowedPublicKeys_def Let_def keys_on_disk_def content_def registry_json_laws_def)
qed (use assms in \<open>auto simp: loadAllowedPublicKeys_def Let_def keys_on_disk_def content_def store_laws_def\<close>)

lemma open_from_disk:
  fixes mk :: "KDPoint list \<Rightarrow> 'kd option"
  assumes "store_laws F ren" and "registry_json_laws J"
  shows "case peers_on_disk F J p f of
      Ok al \<Rightarrow> \<exists>r. NewPeerRegistryWithPath mk F J p f = Ok r \<and> peers r = al \<and> regPath r = p
        \<and> allowlistPath r = p @ ''.allowlist.json'' \<and> allowedPublicKeys r = keys_on_disk F J (p @ ''.allowlist.json'') f
        \<and> \<not> dirty r \<and> \<not> saveTimer r
    | Fail e \<Rightarrow> False | Panic q \<Rightarrow> NewPeerRegistryWithPath mk F J p f = Panic q"
proof -
  let ?pr = "\<lparr>peers = [], kdTree = None, regPath = p, allowlistPath = p @ ''.allowlist.json'',
    authMode = PeerAuthOpen, allowedPublicKeys = {}, dirty = False, saveTimer = False\<rparr> :: 'kd PeerRegistry"
  note peers_loaded = load_from_disk [OF assms, where r = ?pr and f = f]
  have opened: "\<exists>r. NewPeerRegistryWithPath mk F J p f = Ok r \<and> peers r = al \<and> regPath r = p
      \<and> allowlistPath r = p @ ''.allowlist.json'' \<and> allowedPublicKeys r = keys_on_disk F J (p @ ''.allowlist.json'') f
      \<and> \<not> dirty r \<and> \<not> saveTimer r"
    if "load F J f ?pr = (res, ?pr\<lparr>peers := al\<rparr>)" "\<nexists>q. res = Panic q" for al res
  proof -
    let ?r1 = "?pr\<lparr>peers := al\<rparr>"
    let ?r2 = "if is_Ok res then ?r1 else rebuildKDTree mk ?r1"
    have "allowedPublicKeys ?r2 = {}" "allowlistPath ?r2 = p @ ''.allowlist.json''" by simp_all
    from loadAllowedPublicKeys_from_disk [OF assms this(1), where f = f] this(2) obtain res' where
      keys: "loadAllowedPublicKeys F J f ?r2 = (res', ?r2\<lparr>allowedPublicKeys := keys_on_disk F J (p @ ''.allowlist.json'') f\<rparr>)"
      and np: "\<nexists>q. res' = Panic q" by auto
    let ?r3 = "?r2\<lparr>allowedPublicKeys := keys_on_disk F J (p @ ''.allowlist.json'') f\<rparr>"
    have "NewPeerRegistryWithPath mk F J p f = Ok (rebuildKDTree mk ?r3)"
      using that keys np by (cases res; cases res') (simp_all add: NewPeerRegistryWithPath_def Let_def)
    then show ?thesis by simp
  qed
  show ?thesis
  proof (cases "peers_on_disk F J p f")
    case (Ok al)
    have "?pr = ?pr\<lparr>peers := []\<rparr>" by simp
    then have "\<exists>res. load F J f ?pr = (res, ?pr\<lparr>peers := al\<rparr>) \<and> (\<nexists>q. res = Panic q)"
      using peers_loaded Ok by auto
    then show ?thesis using opened Ok by auto
  qed (use peers_loaded in \<open>auto simp: NewPeerRegistryWithPath_def Let_def\<close>)
qed

lemma index_peers_unconnected:
  assumes "registry_json_laws J" and "peers_on_disk F J p f = Ok al"
  shows "persisted al = al \<and> keyed al"
proof (cases "content F p f")
  case (Some c)
  show ?thesis
  proof (cases "rjUnmarshalPeers J (bytes_of c)")
    case (Ok ps)
    then have al: "index_peers ps [] = Ok al" using assms(2) Some by (simp add: peers_on_disk_def)
    have "\<not> Connected q" if "(i, q) \<in> set al" for i q
      using index_peers_keyed [OF al] that assms(1) Ok by (auto simp: keyed_def registry_json_laws_def)
    then have "persisted al = al" by (intro map_idI) (auto simp: unconnected_def)
    then show ?thesis using index_peers_keyed [OF al] by (simp add: keyed_def)
  qed (use assms(2) Some in \<open>auto simp: peers_on_disk_def keyed_def\<close>)
qed (use assms(2) in \<open>simp add: peers_on_disk_def keyed_def\<close>)

text \<open>
  Persistence of the registry. Start from any files, run any calls, timers, closings and saves in any
  order, all saves succeeding. Unsaved changes always have a timer running. And once nothing is
  unsaved and no save is under way, in particular after \<^verbatim>\<open>Close\<close>, a registry opened on the files has
  the same peers, except for the connection state, and the same allowed keys, except for an empty one.
\<close>

theorem restart_preserves_registry:
  assumes "store_laws F ren" and "registry_json_laws J" and "NewPeerRegistryWithPath mk F J p f = Ok r"
    and "store_run mk F ren J ops \<lparr>stRegistry = r, stFiles = f, stSavers = 0\<rparr> = (rs, s)" and "list_all is_Ok rs"
  shows "(dirty (stRegistry s) \<longrightarrow> saveTimer (stRegistry s))
    \<and> (\<not> dirty (stRegistry s) \<and> stSavers s = 0 \<longrightarrow>
         (\<exists>r'. NewPeerRegistryWithPath mk F J p (stFiles s) = Ok r'
            \<and> (\<forall>i. GetPeer i r' = map_option unconnected (GetPeer i (stRegistry s)))
            \<and> allowedPublicKeys r' = allowedPublicKeys (stRegistry s) - {[]}))"
proof -
  obtain al where al: "peers_on_disk F J p f = Ok al"
    and r: "peers r = al" "regPath r = p" "allowlistPath r = p @ ''.allowlist.json''"
      "allowedPublicKeys r = keys_on_disk F J (p @ ''.allowlist.json'') f" "\<not> dirty r" "\<not> saveTimer r"
    using open_from_disk [OF assms(1,2), where p = p and f = f and mk = mk] assms(3) by (auto split: result.splits)
  have fin: "finite (keys_on_disk F J q f)" "[] \<notin> keys_on_disk F J q f" for q
    by (auto simp: keys_on_disk_def split: option.splits result.splits)
  have "store_inv F J p \<lparr>stRegistry = r, stFiles = f, stSavers = 0\<rparr>"
    using index_peers_unconnected [OF assms(2) al] al r fin
    by (simp add: store_inv_def Let_def peers_saved_def keys_saved_def)
  then have inv: "store_inv F J p s" using store_inv_run [OF assms(1,2) _ assms(4,5)] by blast
  have "\<exists>r'. NewPeerRegistryWithPath mk F J p (stFiles s) = Ok r'
      \<and> (\<forall>i. GetPeer i r' = map_option unconnected (GetPeer i (stRegistry s)))
      \<and> allowedPublicKeys r' = allowedPublicKeys (stRegistry s) - {[]}" if "\<not> dirty (stRegistry s)" "stSavers s = 0"
  proof -
    have disk: "peers_on_disk F J p (stFiles s) = Ok (persisted (peers (stRegistry s)))"
      "keys_on_disk F J (p @ ''.allowlist.json'') (stFiles s) = allowedPublicKeys (stRegistry s) - {[]}"
      using store_invD(6,7) [OF inv] that by (simp_all add: peers_saved_def keys_saved_def store_invD(1,2) [OF inv])
    have "map_of (persisted (peers (stRegistry s))) i = map_option unconnected (map_of (peers (stRegistry s)) i)" for i
      by (simp add: map_of_map)
    then show ?thesis
      using open_from_disk [OF assms(1,2), where p = p and f = "stFiles s" and mk = mk] disk by (auto simp: GetPeer_def)
  qed
  then show ?thesis using store_invD(5) [OF inv] by blast
qed

text \<open>
  Renaming in a file system that is a map, and JSON that writes and reads one list of peers and every
  list of keys, each character of a key marked.
\<close>

definition map_rename :: "(string \<Rightarrow> string option) renaming" where
  "map_rename a b f = (Ok (), if a = b then f else f(b := f a, a := None))"

definition mark_key :: "string \<Rightarrow> string" where
  "mark_key k = concat (map (\<lambda>c. [CHR ''x'', c]) k) @ ''/''"

fun unmark_keys :: "string \<Rightarrow> string \<Rightarrow> string list" where
  "unmark_keys cur (m # rest) =
     (if m = CHR ''/'' then cur # unmark_keys [] rest
      else case rest of c # rest' \<Rightarrow> unmark_keys (cur @ [c]) rest' | [] \<Rightarrow> [])"
| "unmark_keys cur [] = []"

lemma unmark_mark: "unmark_keys cur (mark_key k @ rest) = (cur @ k) # unmark_keys [] rest"
  by (induction k arbitrary: cur) (simp_all add: mark_key_def)

definition one_list_json :: "Peer list \<Rightarrow> registry_json" where
  "one_list_json ps =
     \<lparr>rjPeers = (\<lambda>qs. if map unconnected qs = map unconnected ps then Ok ''P'' else Fail EOF),
      rjUnmarshalPeers = (\<lambda>_. Ok (map (Some \<circ> unconnected) ps)),
      rjKeys = (\<lambda>ks. Ok (concat (map mark_key ks))),
      rjUnmarshalKeys = (\<lambda>b. Ok (unmark_keys [] (string_of b)))\<rparr>"

lemma one_list_json_laws: "registry_json_laws (one_list_json ps)"
proof -
  have "unmark_keys [] (concat (map mark_key ks)) = ks" for ks
    by (induction ks) (simp_all add: unmark_mark)
  then show ?thesis
    by (auto simp: registry_json_laws_def one_list_json_def unconnected_def simp flip: map_map)
qed

lemma map_fs_store_laws: "store_laws map_fs map_rename"
  by (auto simp: store_laws_def untouched_def content_def map_fs_def map_rename_def split: option.splits if_splits)

theorem restart_preserves_registry_witness:
  "\<exists>r s r'. NewPeerRegistryWithPath (\<lambda>_. None :: unit option) map_fs (one_list_json [added_peer 1 example_peer]) ''peers'' Map.empty = Ok r
     \<and> store_run (\<lambda>_. None) map_fs map_rename (one_list_json [added_peer 1 example_peer])
         [Call 1 (OpAdd example_peer), AllowKey ''k'', CloseStarts, SaverRuns] \<lparr>stRegistry = r, stFiles = Map.empty, stSavers = 0\<rparr>
         = ([Ok (), Ok (), Ok (), Ok ()], s)
     \<and> NewPeerRegistryWithPath (\<lambda>_. None :: unit option) map_fs (one_list_json [added_peer 1 example_peer]) ''peers'' (stFiles s) = Ok r'
     \<and> GetPeer ''p1'' r' \<noteq> None \<and> allowedPublicKeys r' = {''k''}"
proof -
  let ?J = "one_list_json [added_peer 1 example_peer]"
  let ?ops = "[Call 1 (OpAdd example_peer), AllowKey ''k'', CloseStarts, SaverRuns]"
  obtain r where open_r: "NewPeerRegistryWithPath (\<lambda>_. None :: unit option) map_fs ?J ''peers'' Map.empty = Ok r"
    and r: "peers r = []" "regPath r = ''peers''" "allowlistPath r = ''peers.allowlist.json''" "allowedPublicKeys r = {}"
    using open_from_disk [OF map_fs_store_laws one_list_json_laws, where p = "''peers''" and f = Map.empty and mk = "\<lambda>_. None :: unit option"]
    by (auto simp: peers_on_disk_def keys_on_disk_def content_def map_fs_def)
  have add: "addable example_peer r"
    using r(1) by (simp add: addable_def example_peer_def validatePeerName_def peerNameRegex_def PeerNameMaxLength_def alnum_def name_char_def)
  obtain s where run: "store_run (\<lambda>_. None) map_fs map_rename ?J ?ops \<lparr>stRegistry = r, stFiles = Map.empty, stSavers = 0\<rparr>
      = ([Ok (), Ok (), Ok (), Ok ()], s)"
    and s: "\<not> dirty (stRegistry s)" "stSavers s = 0" "GetPeer ''p1'' (stRegistry s) \<noteq> None" "allowedPublicKeys (stRegistry s) = {''k''}"
    using r AddPeer_addable(1) [OF add, of "\<lambda>_. None" 1]
    by (simp add: AllowPublicKey_def save_keys_def change_keys_def saveAllowedPublicKeys_def clear_flags_def run_saver_def
        saveNow_def replace_file_def one_list_json_def map_fs_def map_rename_def cmd_then_def cmd_map_err_def Let_def
        GetPeer_def example_peer_def unconnected_def)
  from restart_preserves_registry [OF map_fs_store_laws one_list_json_laws open_r run] s
  show ?thesis using open_r run by (auto simp: map_option_case split: option.splits)
qed



section \<open>Concurrent changes of the allowlist\<close>

text \<open>
  A call that changes the allowlist changes the set under the lock, copies the keys under the lock, and
  writes the copy under no lock. Writers are numbered; a store and their phases make a state.
\<close>

datatype key_writer = Changed | Copied "string set" | Wrote "unit result"

inductive allow_step :: "'f localfs \<Rightarrow> 'f renaming \<Rightarrow> registry_json \<Rightarrow>
    ('kd, 'f) store \<times> (nat \<rightharpoonup> key_writer) \<Rightarrow> ('kd, 'f) store \<times> (nat \<rightharpoonup> key_writer) \<Rightarrow> bool" for F ren J where
  allow_key: "w n = None \<Longrightarrow> allow_step F ren J (s, w) (change_keys (insert k) s, w(n \<mapsto> Changed))"
| revoke_key: "w n = None \<Longrightarrow> allow_step F ren J (s, w) (change_keys (\<lambda>ks. ks - {k}) s, w(n \<mapsto> Changed))"
| copy_keys: "w n = Some Changed \<Longrightarrow> allow_step F ren J (s, w) (s, w(n \<mapsto> Copied (allowedPublicKeys (stRegistry s))))"
| write_keys: "w n = Some (Copied ks) \<Longrightarrow>
    saveAllowedPublicKeys F ren J ((stRegistry s)\<lparr>allowedPublicKeys := ks\<rparr>) (stFiles s) = (r, f) \<Longrightarrow>
    allow_step F ren J (s, w) (s\<lparr>stFiles := f\<rparr>, w(n \<mapsto> Wrote r))"

text \<open>
  A change can be lost: two keys are allowed concurrently, both writes succeed, memory holds both
  keys, and the file, which the next start reads, holds only the first.
\<close>

theorem concurrent_allow_loses_key:
  fixes s :: "('kd, 'f) store"
  assumes "store_laws F ren" and "registry_json_laws J"
    and "\<And>r f. fst (saveAllowedPublicKeys F ren J (r :: 'kd PeerRegistry) f) = Ok ()"
    and "allowedPublicKeys (stRegistry s) = {}" and "a \<noteq> []" and "b \<noteq> []" and "a \<noteq> b"
  shows "\<exists>s' w. (allow_step F ren J)\<^sup>*\<^sup>* (s, Map.empty) (s', w) \<and> w = [0 \<mapsto> Wrote (Ok ()), 1 \<mapsto> Wrote (Ok ())]
    \<and> allowedPublicKeys (stRegistry s') = {a, b} \<and> keys_on_disk F J (allowlistPath (stRegistry s)) (stFiles s') = {a}"
proof -
  let ?S = "allow_step F ren J"
  let ?sa = "change_keys (insert a) s" and ?sb = "change_keys (insert b) (change_keys (insert a) s)"
  let ?ra = "(stRegistry ?sb)\<lparr>allowedPublicKeys := {a}\<rparr>"
  obtain f1 where f1: "saveAllowedPublicKeys F ren J ((stRegistry ?sb)\<lparr>allowedPublicKeys := {a, b}\<rparr>) (stFiles ?sb) = (Ok (), f1)"
    using assms(3) by (metis prod.collapse)
  obtain f2 where f2: "saveAllowedPublicKeys F ren J ?ra f1 = (Ok (), f2)" using assms(3) by (metis prod.collapse)
  have keys: "allowedPublicKeys (stRegistry ?sa) = {a}" "allowedPublicKeys (stRegistry ?sb) = {a, b}"
    using assms(4) by (auto simp: change_keys_def)
  have "?S (s, Map.empty) (?sa, [0 \<mapsto> Changed])" by (rule allow_key) simp
  moreover have "?S (?sa, [0 \<mapsto> Changed]) (?sa, [0 \<mapsto> Copied {a}])"
    using copy_keys [of "[0 \<mapsto> Changed]" 0 F ren J ?sa] keys by simp
  moreover have "?S (?sa, [0 \<mapsto> Copied {a}]) (?sb, [0 \<mapsto> Copied {a}, 1 \<mapsto> Changed])" by (rule allow_key) simp
  moreover have "?S (?sb, [0 \<mapsto> Copied {a}, 1 \<mapsto> Changed]) (?sb, [0 \<mapsto> Copied {a}, 1 \<mapsto> Copied {a, b}])"
    using copy_keys [of "[0 \<mapsto> Copied {a}, 1 \<mapsto> Changed]" 1 F ren J ?sb] keys by simp
  moreover have "?S (?sb, [0 \<mapsto> Copied {a}, 1 \<mapsto> Copied {a, b}]) (?sb\<lparr>stFiles := f1\<rparr>, [0 \<mapsto> Copied {a}, 1 \<mapsto> Wrote (Ok ())])"
    using write_keys [of "[0 \<mapsto> Copied {a}, 1 \<mapsto> Copied {a, b}]" 1 "{a, b}" F ren J ?sb "Ok ()" f1] f1 by simp
  moreover have "?S (?sb\<lparr>stFiles := f1\<rparr>, [0 \<mapsto> Copied {a}, 1 \<mapsto> Wrote (Ok ())])
      (?sb\<lparr>stFiles := f2\<rparr>, [0 \<mapsto> Wrote (Ok ()), 1 \<mapsto> Wrote (Ok ())])"
    using write_keys [of "[0 \<mapsto> Copied {a}, 1 \<mapsto> Wrote (Ok ())]" 0 "{a}" F ren J "?sb\<lparr>stFiles := f1\<rparr>" "Ok ()" f2] f2
    by (simp add: fun_upd_twist)
  ultimately have "?S\<^sup>*\<^sup>* (s, Map.empty) (?sb\<lparr>stFiles := f2\<rparr>, [0 \<mapsto> Wrote (Ok ()), 1 \<mapsto> Wrote (Ok ())])"
    by (meson converse_rtranclp_into_rtranclp rtranclp.rtrancl_refl)
  moreover have "keys_on_disk F J (allowlistPath ?ra) f2 = {a}"
    using saveAllowedPublicKeys_saves [OF assms(1,2) _ f2] assms(5) by simp
  then have "keys_on_disk F J (allowlistPath (stRegistry s)) f2 = {a}" by (simp add: change_keys_def)
  moreover have "stFiles (?sb\<lparr>stFiles := f2\<rparr>) = f2" "stRegistry (?sb\<lparr>stFiles := f2\<rparr>) = stRegistry ?sb" by simp_all
  ultimately show ?thesis using keys(2) by (intro exI [of _ "?sb\<lparr>stFiles := f2\<rparr>"] exI conjI) auto
qed

end
