(* ===== verification/Content_Bus.thy ===== *)
theory Content_Bus
  imports Transport_Link Peer_Store
begin

text \<open>
  The content bus, \<^verbatim>\<open>src/go/pkg/contentbus/controller.go\<close>: topics, subscriber channels, publishing to
  local subscribers and connected peers, closing.

  A channel is a heap object: \<open>cbChans\<close> holds every channel made, a reference is its position. What a
  subscriber takes from its channel is an operation of its own. Options, ownership of the registry and
  of the transport, and the shutdown are those of the code; the libraries are arguments, as in the
  theories of the components.
\<close>

section \<open>Events and channels\<close>

definition contentEventMessageType :: MessageType where "contentEventMessageType = ''content_event''"

record Event =
  evTopic :: string
  evPayload :: "bytes option"
  evPeerID :: string
  evTimestamp :: instant

definition ErrClosed :: go_error where
  "ErrClosed = E ''contentbus.Controller'' ''controller closed'' None"

definition ErrInvalidTopic :: go_error where
  "ErrInvalidTopic = E ''contentbus.Controller'' ''topic is required'' None"

text \<open>Appending nothing to a nil slice gives a nil slice.\<close>

definition cloneBytes :: "bytes option \<Rightarrow> bytes option" where
  "cloneBytes payload = (case payload of None \<Rightarrow> None | Some b \<Rightarrow> if b = [] then None else Some b)"

definition cloneEvent :: "Event \<Rightarrow> Event" where
  "cloneEvent event = event\<lparr>evPayload := cloneBytes (evPayload event)\<rparr>"

record chan =
  chBuffer :: "Event list"
  chCap :: nat
  chClosed :: bool

definition make_chan :: "nat \<Rightarrow> chan" where
  "make_chan n = \<lparr>chBuffer = [], chCap = n, chClosed = False\<rparr>"

text \<open>The send in a \<^verbatim>\<open>select\<close> with a default branch, and \<^verbatim>\<open>close\<close>.\<close>

definition try_send :: "Event \<Rightarrow> chan \<Rightarrow> chan result" where
  "try_send e ch =
     (if chClosed ch then Panic SendOnClosedChannel
      else if length (chBuffer ch) < chCap ch then Ok (ch\<lparr>chBuffer := chBuffer ch @ [e]\<rparr>)
      else Ok ch)"

definition close_chan :: "chan \<Rightarrow> chan result" where
  "close_chan ch = (if chClosed ch then Panic CloseOfClosedChannel else Ok (ch\<lparr>chClosed := True\<rparr>))"

definition on_chan :: "nat \<Rightarrow> (chan \<Rightarrow> chan result) \<Rightarrow> (chan list, unit) cmd" where
  "on_chan n f chs =
     (if n < length chs
      then case f (chs ! n) of Ok ch \<Rightarrow> (Ok (), chs[n := ch]) | Fail e \<Rightarrow> (Fail e, chs) | Panic p \<Rightarrow> (Panic p, chs)
      else (Panic NilDereference, chs))"

fun on_chans :: "nat list \<Rightarrow> (chan \<Rightarrow> chan result) \<Rightarrow> (chan list, unit) cmd" where
  "on_chans [] f = of_result (Ok ())"
| "on_chans (n # ns) f = cmd_then (on_chan n f) (\<lambda>_. on_chans ns f)"

section \<open>The controller\<close>

text \<open>
  The map from topics to the maps from subscription identifiers to channels is an association list of
  association lists. \<open>closeErr\<close> is the error kept by \<^verbatim>\<open>closeOnce\<close>.
\<close>

record controller =
  subscribers :: "(string \<times> (64 word \<times> nat) list) list"
  nextSubID :: "64 word"
  cbClosed :: bool
  cbChans :: "chan list"
  channelBuffer :: nat
  ownsRegistry :: bool
  ownsTransport :: bool
  startedTransport :: bool
  closeOnce :: bool
  closeErr :: "go_error option"

definition topic_subs :: "string \<Rightarrow> controller \<Rightarrow> (64 word \<times> nat) list" where
  "topic_subs topic c = (case map_of (subscribers c) topic of None \<Rightarrow> [] | Some subs \<Rightarrow> subs)"

definition topic_chans :: "string \<Rightarrow> controller \<Rightarrow> nat list" where
  "topic_chans topic c = map snd (topic_subs topic c)"

text \<open>The part of \<^verbatim>\<open>Subscribe\<close> under both locks.\<close>

definition add_subscriber :: "string \<Rightarrow> controller \<Rightarrow> controller" where
  "add_subscriber topic c =
     c\<lparr>cbChans := cbChans c @ [make_chan (channelBuffer c)],
       subscribers := AList.update topic (AList.update (nextSubID c) (length (cbChans c)) (topic_subs topic c)) (subscribers c),
       nextSubID := nextSubID c + 1\<rparr>"

definition Subscribe :: "string \<Rightarrow> (controller, nat) cmd" where
  "Subscribe topic c =
     (if topic = [] then (Fail ErrInvalidTopic, c)
      else if cbClosed c then (Fail ErrClosed, c)
      else (Ok (length (cbChans c)), add_subscriber topic c))"

definition deliver :: "Event \<Rightarrow> (controller, unit) cmd" where
  "deliver event c =
     (case on_chans (topic_chans (evTopic event) c) (try_send (cloneEvent event)) (cbChans c) of
        (r, chs) \<Rightarrow> (r, c\<lparr>cbChans := chs\<rparr>))"

text \<open>What a subscriber gets from its channel: an event, the end of a closed channel, or nothing yet.\<close>

datatype receipt = Got Event | Ended | Blocked

definition receive_event :: "nat \<Rightarrow> controller \<Rightarrow> receipt \<times> controller" where
  "receive_event n c =
     (case chBuffer (cbChans c ! n) of
        e # es \<Rightarrow> (Got e, c\<lparr>cbChans := (cbChans c)[n := (cbChans c ! n)\<lparr>chBuffer := es\<rparr>]\<rparr>)
      | [] \<Rightarrow> (if chClosed (cbChans c ! n) then Ended else Blocked, c))"

text \<open>\<open>now\<close> is the second clock reading, used when the message has no timestamp.\<close>

definition bus_handleMessage :: "'any json \<Rightarrow> instant \<Rightarrow> Message option \<Rightarrow> (controller, unit) cmd" where
  "bus_handleMessage j now mp c =
     (case mp of
        None \<Rightarrow> (Ok (), c)
      | Some msg \<Rightarrow>
          if mType msg \<noteq> contentEventMessageType then (Ok (), c)
          else case ParsePayload j KWireEvent msg of
              Ok (PWireEvent payload) \<Rightarrow>
                if weTopic payload = [] then (Ok (), c)
                else if cbClosed c then (Ok (), c)
                else deliver \<lparr>evTopic = weTopic payload, evPayload = cloneBytes (wePayload payload), evPeerID = mFrom msg,
                       evTimestamp = (case mTimestamp msg of None \<Rightarrow> now | Some t \<Rightarrow> t)\<rparr> c
            | Panic p \<Rightarrow> (Panic p, c)
            | _ \<Rightarrow> (Ok (), c))"

section \<open>The bus on a node\<close>

text \<open>The controller with what it holds: node, transport with its registry, and the files of the latter.\<close>

record ('kp, 'kd, 'f) bus_node =
  bnBus :: controller
  bnNode :: "'kp NodeManager"
  bnTransport :: "'kd Transport"
  bnFiles :: 'f

definition on_bus :: "(controller, 'a) cmd \<Rightarrow> (('kp, 'kd, 'f) bus_node, 'a) cmd" where
  "on_bus m s = (case m (bnBus s) of (r, c) \<Rightarrow> (r, s\<lparr>bnBus := c\<rparr>))"

definition on_transport :: "('kd Transport, 'a) cmd \<Rightarrow> (('kp, 'kd, 'f) bus_node, 'a) cmd" where
  "on_transport m s = (case m (bnTransport s) of (r, t) \<Rightarrow> (r, s\<lparr>bnTransport := t\<rparr>))"

text \<open>\<open>now\<close> is the time of the event, \<open>am\<close> gives that of the message and its identifier, \<open>ams\<close> what each send observes.\<close>

definition Publish :: "('any, 'c, 'kp, 'pk, 'sk, 'kd) crypto \<Rightarrow> instant \<Rightarrow> ambient \<Rightarrow> (nat \<Rightarrow> ambient) \<Rightarrow> string \<Rightarrow> bytes option
    \<Rightarrow> (('kp, 'kd, 'f) bus_node, unit) cmd" where
  "Publish cr now am ams topic payload s =
     (let err = (\<lambda>msg e. E ''contentbus.Controller.Publish'' msg (Some e)) in
      if topic = [] then (Fail ErrInvalidTopic, s)
      else if cbClosed (bnBus s) then (Fail ErrClosed, s)
      else case GetIdentity (bnNode s) of
          None \<Rightarrow> (Fail ErrIdentityNotInitialized, s)
        | Some identity \<Rightarrow>
            (let event = \<lparr>evTopic = topic, evPayload = cloneBytes payload, evPeerID = niID identity, evTimestamp = now\<rparr> in
             cmd_then (on_bus (deliver event)) (\<lambda>_.
             cmd_then (of_result (map_err (err ''create content event message'')
               (NewMessage (crJSON cr) (amUUID am) (amNow am) contentEventMessageType (niID identity) []
                 (Some (PWireEvent \<lparr>weTopic = topic, wePayload = evPayload event\<rparr>))))) (\<lambda>msg.
             cmd_map_err (err ''broadcast content event'') (on_transport (Broadcast cr ams msg)))) s))"

definition close_subscribers :: "(controller, unit) cmd" where
  "close_subscribers c =
     (case on_chans (concat (map (map snd \<circ> snd) (subscribers c))) close_chan (cbChans c) of
        (r, chs) \<Rightarrow> (r, c\<lparr>cbClosed := True, cbChans := chs, subscribers := []\<rparr>))"

text \<open>Closing the registry the transport holds.\<close>

definition close_registry :: "'f localfs \<Rightarrow> 'f renaming \<Rightarrow> registry_json \<Rightarrow> (('kp, 'kd, 'f) bus_node, unit) cmd" where
  "close_registry F ren J s =
     (case CloseRegistry F ren J \<lparr>stRegistry = trRegistry (bnTransport s), stFiles = bnFiles s, stSavers = 0\<rparr> of
        (r, st) \<Rightarrow> (r, s\<lparr>bnTransport := (bnTransport s)\<lparr>trRegistry := stRegistry st\<rparr>, bnFiles := stFiles st\<rparr>))"

text \<open>The body of \<^verbatim>\<open>closeOnce\<close>; \<open>shutdownErr\<close> is the outcome of stopping the HTTP server.\<close>

definition close_once :: "('any, 'c, 'kp, 'pk, 'sk, 'kd) crypto \<Rightarrow> 'f localfs \<Rightarrow> 'f renaming \<Rightarrow> registry_json
    \<Rightarrow> (nat \<Rightarrow> ambient) \<Rightarrow> go_error option \<Rightarrow> (('kp, 'kd, 'f) bus_node, unit) cmd" where
  "close_once cr F ren J ams shutdownErr =
     (let err = (\<lambda>msg e. E ''contentbus.Controller.Close'' msg (Some e)) in
      cmd_then (on_bus close_subscribers) (\<lambda>_.
      cmd_then (\<lambda>s. if ownsTransport (bnBus s) \<or> startedTransport (bnBus s)
                    then cmd_map_err (err ''stop transport'') (on_transport (Stop cr ams shutdownErr)) s else (Ok (), s)) (\<lambda>_.
      \<lambda>s. if ownsRegistry (bnBus s) then cmd_map_err (err ''close peer registry'') (close_registry F ren J) s else (Ok (), s))))"

definition CloseBus :: "('any, 'c, 'kp, 'pk, 'sk, 'kd) crypto \<Rightarrow> 'f localfs \<Rightarrow> 'f renaming \<Rightarrow> registry_json
    \<Rightarrow> (nat \<Rightarrow> ambient) \<Rightarrow> go_error option \<Rightarrow> (('kp, 'kd, 'f) bus_node, unit) cmd" where
  "CloseBus cr F ren J ams shutdownErr s =
     (if closeOnce (bnBus s) then (result_of (closeErr (bnBus s)), s)
      else case close_once cr F ren J ams shutdownErr (s\<lparr>bnBus := (bnBus s)\<lparr>closeOnce := True\<rparr>\<rparr>) of
          (Fail e, s') \<Rightarrow> (Fail e, s'\<lparr>bnBus := (bnBus s')\<lparr>closeErr := Some e\<rparr>\<rparr>)
        | (r, s') \<Rightarrow> (r, s'))"

section \<open>Construction\<close>

record ('kp, 'kd) options =
  opNode :: "'kp NodeManager option"
  opRegistry :: "'kd PeerRegistry option"
  opTransport :: "'kd Transport option"
  opTransportConfig :: TransportConfig
  opChannelBuffer :: nat
  opStartTransport :: bool

text \<open>An option is a function on the options under construction; a nil option is \<open>None\<close>.\<close>

type_synonym ('kp, 'kd) Option = "(('kp, 'kd) options, unit) cmd"

definition WithNodeManager :: "'kp NodeManager option \<Rightarrow> ('kp, 'kd) Option" where
  "WithNodeManager node opts =
     (if node = None then (Fail (E ''contentbus.WithNodeManager'' ''node manager is nil'' None), opts)
      else (Ok (), opts\<lparr>opNode := node\<rparr>))"

definition WithPeerRegistry :: "'kd PeerRegistry option \<Rightarrow> ('kp, 'kd) Option" where
  "WithPeerRegistry registry opts =
     (if registry = None then (Fail (E ''contentbus.WithPeerRegistry'' ''peer registry is nil'' None), opts)
      else (Ok (), opts\<lparr>opRegistry := registry\<rparr>))"

definition WithTransport :: "'kd Transport option \<Rightarrow> ('kp, 'kd) Option" where
  "WithTransport transport opts =
     (if transport = None then (Fail (E ''contentbus.WithTransport'' ''transport is nil'' None), opts)
      else (Ok (), opts\<lparr>opTransport := transport\<rparr>))"

definition WithTransportConfig :: "TransportConfig \<Rightarrow> ('kp, 'kd) Option" where
  "WithTransportConfig config opts = (Ok (), opts\<lparr>opTransportConfig := config\<rparr>)"

definition WithChannelBuffer :: "int \<Rightarrow> ('kp, 'kd) Option" where
  "WithChannelBuffer n opts =
     (if n < 1 then (Fail (E ''contentbus.WithChannelBuffer'' ''channel buffer must be at least 1'' None), opts)
      else (Ok (), opts\<lparr>opChannelBuffer := nat n\<rparr>))"

definition WithStartTransport :: "bool \<Rightarrow> ('kp, 'kd) Option" where
  "WithStartTransport start opts = (Ok (), opts\<lparr>opStartTransport := start\<rparr>)"

fun apply_options :: "('kp, 'kd) Option option list \<Rightarrow> ('kp, 'kd) Option" where
  "apply_options [] = of_result (Ok ())"
| "apply_options (None # os) = apply_options os"
| "apply_options (Some opt # os) =
     cmd_then (cmd_map_err (\<lambda>e. E ''contentbus.NewController'' ''apply option'' (Some e)) opt) (\<lambda>_. apply_options os)"

definition default_options :: "('kp, 'kd) options" where
  "default_options = \<lparr>opNode = None, opRegistry = None, opTransport = None, opTransportConfig = DefaultTransportConfig,
     opChannelBuffer = 16, opStartTransport = False\<rparr>"

definition loadOrCreateContentIdentity :: "('kp, 'pk, 'sk, 'kd, 'f) host \<Rightarrow> ('f, 'kp NodeManager) cmd" where
  "loadOrCreateContentIdentity h f =
     (case NewNodeManager (hoKeys h) (hoFS h) (hoIdentityJSON h) (hoKeyPath h) (hoConfigPath h) f of
        Ok nm \<Rightarrow>
          if HasIdentity nm then (Ok nm, f)
          else (case GenerateIdentity (hoKeys h) (hoFS h) (hoIdentityJSON h) (hoNow h) ''contentbus-node'' RoleController (nm, f) of
                  (Ok _, (nm', f')) \<Rightarrow> (Ok nm', f')
                | (Fail e, (_, f')) \<Rightarrow> (Fail e, f')
                | (Panic p, (_, f')) \<Rightarrow> (Panic p, f'))
      | Fail e \<Rightarrow> (Fail e, f)
      | Panic p \<Rightarrow> (Panic p, f))"

text \<open>The node, and the transport with whether its registry and the transport itself are made here.\<close>

definition choose_node :: "('kp, 'pk, 'sk, 'kd, 'f) host \<Rightarrow> ('kp, 'kd) options \<Rightarrow> ('f, 'kp NodeManager) cmd" where
  "choose_node h cfg =
     (case opNode cfg of
        Some node \<Rightarrow> of_result (Ok node)
      | None \<Rightarrow> cmd_map_err (\<lambda>e. E ''contentbus.NewController'' ''load node identity'' (Some e)) (loadOrCreateContentIdentity h))"

definition choose_transport :: "('kp, 'pk, 'sk, 'kd, 'f) host \<Rightarrow> ('kp, 'kd) options \<Rightarrow> 'f \<Rightarrow> ('kd Transport \<times> bool \<times> bool) result" where
  "choose_transport h cfg f =
     (case (opTransport cfg, opRegistry cfg) of
        (Some t, _) \<Rightarrow> Ok (t, False, False)
      | (None, Some r) \<Rightarrow> Ok (NewTransport r (opTransportConfig cfg), False, True)
      | (None, None) \<Rightarrow>
          and_then (map_err (\<lambda>e. E ''contentbus.NewController'' ''create peer registry'' (Some e))
              (NewPeerRegistry (hoTree h) (hoFS h) (hoRegistryJSON h) (hoPeersPath h) [] f))
            (\<lambda>r. Ok (NewTransport r (opTransportConfig cfg), True, True)))"

definition new_controller :: "nat \<Rightarrow> bool \<Rightarrow> bool \<Rightarrow> controller" where
  "new_controller n ownsReg ownsTr =
     \<lparr>subscribers = [], nextSubID = 0, cbClosed = False, cbChans = [], channelBuffer = n, ownsRegistry = ownsReg,
      ownsTransport = ownsTr, startedTransport = False, closeOnce = False, closeErr = None\<rparr>"

text \<open>
  What \<^verbatim>\<open>NewController\<close> does when the transport does not start: it releases what it made and joins
  the errors.
\<close>

definition join_failure :: "('kp, 'pk, 'sk, 'kd, 'f) host \<Rightarrow> go_error \<Rightarrow> (('kp, 'kd, 'f) bus_node, unit) cmd \<Rightarrow> (('kp, 'kd, 'f) bus_node, go_error) cmd" where
  "join_failure h e m s =
     (case m s of
        (Ok _, s') \<Rightarrow> (Ok e, s')
      | (Fail e', s') \<Rightarrow> (Ok (hoErrorJoin h e e'), s')
      | (Panic p, s') \<Rightarrow> (Panic p, s'))"

definition abandon :: "('kp, 'pk, 'sk, 'kd, 'f) host \<Rightarrow> ('any, 'c, 'kp, 'pk, 'sk, 'kd) crypto \<Rightarrow> (nat \<Rightarrow> ambient) \<Rightarrow> go_error option
    \<Rightarrow> go_error \<Rightarrow> (('kp, 'kd, 'f) bus_node, go_error) cmd" where
  "abandon h cr ams shutdownErr startErr =
     cmd_then (\<lambda>s. if ownsTransport (bnBus s) then join_failure h startErr (on_transport (Stop cr ams shutdownErr)) s
                   else (Ok startErr, s)) (\<lambda>e.
     \<lambda>s. if ownsRegistry (bnBus s) then join_failure h e (close_registry (hoFS h) (hoRename h) (hoRegistryJSON h)) s
         else (Ok e, s))"

definition start_bus :: "('kp, 'pk, 'sk, 'kd, 'f) host \<Rightarrow> ('any, 'c, 'kp, 'pk, 'sk, 'kd) crypto \<Rightarrow> (nat \<Rightarrow> ambient)
    \<Rightarrow> go_error option \<Rightarrow> ('kp, 'kd, 'f) bus_node \<Rightarrow> ('kp, 'kd, 'f) bus_node result \<times> 'f" where
  "start_bus h cr ams shutdownErr s =
     (case on_transport Start s of
        (Ok _, s1) \<Rightarrow> (Ok (s1\<lparr>bnBus := (bnBus s1)\<lparr>startedTransport := True\<rparr>\<rparr>), bnFiles s1)
      | (Panic p, s1) \<Rightarrow> (Panic p, bnFiles s1)
      | (Fail e, s1) \<Rightarrow>
          (case abandon h cr ams shutdownErr e s1 of
             (Ok e', s') \<Rightarrow> (Fail (E ''contentbus.NewController'' ''start transport'' (Some e')), bnFiles s')
           | (Fail e', s') \<Rightarrow> (Fail e', bnFiles s')
           | (Panic p, s') \<Rightarrow> (Panic p, bnFiles s')))"

definition NewBusController :: "('kp, 'pk, 'sk, 'kd, 'f) host \<Rightarrow> ('any, 'c, 'kp, 'pk, 'sk, 'kd) crypto \<Rightarrow> (nat \<Rightarrow> ambient)
    \<Rightarrow> go_error option \<Rightarrow> ('kp, 'kd) Option option list \<Rightarrow> 'f \<Rightarrow> ('kp, 'kd, 'f) bus_node result \<times> 'f" where
  "NewBusController h cr ams shutdownErr opts f =
     (case apply_options opts default_options of
        (Fail e, _) \<Rightarrow> (Fail e, f)
      | (Panic p, _) \<Rightarrow> (Panic p, f)
      | (Ok _, cfg) \<Rightarrow>
          if opTransport cfg \<noteq> None \<and> opNode cfg = None
          then (Fail (E ''contentbus.NewController'' ''node manager is required when providing a transport'' None), f)
          else
            cmd_then (choose_node h cfg) (\<lambda>node f.
            cmd_then (of_result (choose_transport h cfg f)) (\<lambda>(t, ownsReg, ownsTr) f.
              let s = \<lparr>bnBus = new_controller (opChannelBuffer cfg) ownsReg ownsTr, bnNode = node,
                       bnTransport = OnMessage ContentBusHandleMessage t, bnFiles = f\<rparr>
              in if opStartTransport cfg then start_bus h cr ams shutdownErr s else (Ok s, f)) f) f)"

section \<open>Channels of a topic\<close>

lemma cloneBytes_idem [simp]: "cloneBytes (cloneBytes p) = cloneBytes p"
  by (auto simp: cloneBytes_def split: option.splits)

lemma cloneEvent_sel [simp]:
  "evTopic (cloneEvent e) = evTopic e" "evPeerID (cloneEvent e) = evPeerID e" "evTimestamp (cloneEvent e) = evTimestamp e"
  "evPayload (cloneEvent e) = cloneBytes (evPayload e)"
  by (simp_all add: cloneEvent_def)

lemma on_chan_Ok: "n < length chs \<Longrightarrow> f (chs ! n) = Ok ch \<Longrightarrow> on_chan n f chs = (Ok (), chs[n := ch])"
  by (simp add: on_chan_def)

text \<open>A loop over distinct channels on which the action succeeds changes exactly those, in any order.\<close>

lemma on_chans_Ok:
  assumes "distinct ns" and "\<And>n. n \<in> set ns \<Longrightarrow> n < length chs \<and> f (chs ! n) = Ok (g (chs ! n))"
  shows "\<exists>chs'. on_chans ns f chs = (Ok (), chs') \<and> length chs' = length chs
    \<and> (\<forall>n < length chs. chs' ! n = (if n \<in> set ns then g (chs ! n) else chs ! n))"
  using assms
proof (induction ns arbitrary: chs)
  case (Cons n ns)
  let ?chs = "chs[n := g (chs ! n)]"
  have n: "on_chan n f chs = (Ok (), ?chs)" using Cons.prems(2) [of n] by (simp add: on_chan_Ok)
  have "\<exists>chs'. on_chans ns f ?chs = (Ok (), chs') \<and> length chs' = length ?chs
      \<and> (\<forall>k < length ?chs. chs' ! k = (if k \<in> set ns then g (?chs ! k) else ?chs ! k))"
  proof (rule Cons.IH)
    show "distinct ns" using Cons.prems(1) by simp
    show "k < length ?chs \<and> f (?chs ! k) = Ok (g (?chs ! k))" if "k \<in> set ns" for k
      using Cons.prems(1) Cons.prems(2) [of k] that by (cases "k = n") auto
  qed
  then obtain chs' where run: "on_chans ns f ?chs = (Ok (), chs')" and len: "length chs' = length chs"
    and chs': "\<forall>k < length chs. chs' ! k = (if k \<in> set ns then g (?chs ! k) else ?chs ! k)" by auto
  have "chs' ! k = (if k \<in> set (n # ns) then g (chs ! k) else chs ! k)" if "k < length chs" for k
    using chs' that Cons.prems(1) by (cases "k = n") auto
  then show ?case using n run len by (intro exI [of _ chs']) simp
qed simp

definition offered :: "Event \<Rightarrow> chan \<Rightarrow> chan" where
  "offered e ch = (if length (chBuffer ch) < chCap ch then ch\<lparr>chBuffer := chBuffer ch @ [e]\<rparr> else ch)"

lemma try_send_open: "\<not> chClosed ch \<Longrightarrow> try_send e ch = Ok (offered e ch)"
  by (simp add: try_send_def offered_def)

lemma offered_closed [simp]: "chClosed (offered e ch) = chClosed ch"
  by (simp add: offered_def)

subsection \<open>Invariant\<close>

text \<open>
  Every channel is filed under exactly one topic, under its own number as identifier, until the bus is
  closed, which empties the table; the channels are closed exactly when the bus is.
\<close>

definition bus_inv :: "controller \<Rightarrow> bool" where
  "bus_inv c \<longleftrightarrow>
     nextSubID c = of_nat (length (cbChans c)) \<and>
     distinct (map fst (subscribers c)) \<and>
     (\<forall>topic i n. (i, n) \<in> set (topic_subs topic c) \<longrightarrow> i = of_nat n \<and> n < length (cbChans c)) \<and>
     (\<forall>topic. distinct (topic_chans topic c)) \<and>
     (\<forall>a b n. n \<in> set (topic_chans a c) \<longrightarrow> n \<in> set (topic_chans b c) \<longrightarrow> a = b) \<and>
     (cbClosed c \<longrightarrow> subscribers c = []) \<and>
     (\<not> cbClosed c \<longrightarrow> (\<forall>n < length (cbChans c). \<exists>topic. n \<in> set (topic_chans topic c))) \<and>
     (\<forall>ch \<in> set (cbChans c). chClosed ch = cbClosed c)"

lemma bus_invD:
  assumes "bus_inv c"
  shows "nextSubID c = of_nat (length (cbChans c))" and "distinct (map fst (subscribers c))"
    and "(i, n) \<in> set (topic_subs topic c) \<Longrightarrow> i = of_nat n"
    and "n \<in> set (topic_chans topic c) \<Longrightarrow> n < length (cbChans c)"
    and "distinct (topic_chans topic c)"
    and "n \<in> set (topic_chans a c) \<Longrightarrow> n \<in> set (topic_chans b c) \<Longrightarrow> a = b"
    and "cbClosed c \<Longrightarrow> subscribers c = []"
    and "k < length (cbChans c) \<Longrightarrow> chClosed (cbChans c ! k) = cbClosed c"
    and "ch \<in> set (cbChans c) \<Longrightarrow> chClosed ch = cbClosed c"
    and "\<not> cbClosed c \<Longrightarrow> k < length (cbChans c) \<Longrightarrow> \<exists>topic. k \<in> set (topic_chans topic c)"
  using assms by (auto simp: bus_inv_def topic_chans_def)

lemma bus_inv_new: "bus_inv (new_controller n a b)"
  by (simp add: bus_inv_def new_controller_def topic_chans_def topic_subs_def)

text \<open>The invariant reads only these fields of the controller.\<close>

lemma topic_subs_cong: "subscribers c = subscribers c' \<Longrightarrow> topic_subs topic c = topic_subs topic c'"
  by (simp add: topic_subs_def)

lemma bus_inv_cong:
  assumes "bus_inv c" and "subscribers c' = subscribers c" "nextSubID c' = nextSubID c" "cbClosed c' = cbClosed c"
    and "length (cbChans c') = length (cbChans c)" and "\<forall>ch \<in> set (cbChans c'). chClosed ch = cbClosed c"
  shows "bus_inv c'"
  using assms(1,6) by (simp add: bus_inv_def topic_chans_def topic_subs_cong [OF assms(2)] assms(2-5))

lemma topic_subs_added:
  "topic_subs t (add_subscriber topic c) =
     (if t = topic then AList.update (nextSubID c) (length (cbChans c)) (topic_subs topic c) else topic_subs t c)"
  by (auto simp: topic_subs_def add_subscriber_def update_conv')

lemma topic_subs_added_fresh:
  assumes "bus_inv c" and "length (cbChans c) < 2 ^ 64"
  shows "topic_subs t (add_subscriber topic c) =
     (if t = topic then topic_subs topic c @ [(nextSubID c, length (cbChans c))] else topic_subs t c)"
proof -
  have "nextSubID c \<notin> fst ` set (topic_subs topic c)"
  proof
    assume "nextSubID c \<in> fst ` set (topic_subs topic c)"
    then obtain n where n: "(nextSubID c, n) \<in> set (topic_subs topic c)" by auto
    then have "n < length (cbChans c)"
      using bus_invD(4) [OF assms(1), of n topic] by (force simp: topic_chans_def)
    moreover have "(of_nat (length (cbChans c)) :: 64 word) = of_nat n"
      using bus_invD(1) [OF assms(1)] bus_invD(3) [OF assms(1) n] by simp
    then have "unat (of_nat (length (cbChans c)) :: 64 word) = unat (of_nat n :: 64 word)" by simp
    ultimately show False using assms(2) by (simp add: unat_of_nat take_bit_eq_mod)
  qed
  then show ?thesis by (simp add: topic_subs_added update_fresh)
qed

lemma bus_inv_subscribe:
  assumes "bus_inv c" and "length (cbChans c) < 2 ^ 64" and "\<not> cbClosed c"
  shows "bus_inv (add_subscriber topic c)"
proof -
  note inv = bus_invD [OF assms(1)]
  note subs = topic_subs_added_fresh [OF assms(1,2), of _ topic]
  have len: "length (cbChans (add_subscriber topic c)) = Suc (length (cbChans c))" by (simp add: add_subscriber_def)
  have chans: "topic_chans t (add_subscriber topic c) = topic_chans t c @ (if t = topic then [length (cbChans c)] else [])" for t
    by (simp add: topic_chans_def subs)
  have below: "n \<in> set (topic_chans t c) \<Longrightarrow> n < length (cbChans c)" for n t using inv(4) .
  show ?thesis unfolding bus_inv_def
  proof (intro conjI allI impI)
    show "nextSubID (add_subscriber topic c) = of_nat (length (cbChans (add_subscriber topic c)))"
      using inv(1) by (simp add: add_subscriber_def)
    show "distinct (map fst (subscribers (add_subscriber topic c)))"
      using inv(2) by (simp add: add_subscriber_def distinct_update)
    show "i = of_nat n" if "(i, n) \<in> set (topic_subs t (add_subscriber topic c))" for t i n
      using that inv(1) inv(3) [of i n t] inv(3) [of i n topic] by (auto simp: subs split: if_splits)
    show "n < length (cbChans (add_subscriber topic c))" if "(i, n) \<in> set (topic_subs t (add_subscriber topic c))" for t i n
    proof -
      have "n \<in> set (topic_chans t (add_subscriber topic c))" using that by (force simp: topic_chans_def)
      then show ?thesis using below [of n t] by (auto simp: chans len split: if_splits)
    qed
    show "distinct (topic_chans t (add_subscriber topic c))" for t
      using inv(5) [of t] below [of "length (cbChans c)" t] by (auto simp: chans)
    show "a = b" if "n \<in> set (topic_chans a (add_subscriber topic c))" "n \<in> set (topic_chans b (add_subscriber topic c))" for a b n
      using that inv(6) [of n a b] below [of n a] below [of n b] by (auto simp: chans split: if_splits)
    show "subscribers (add_subscriber topic c) = []" if "cbClosed (add_subscriber topic c)"
      using that assms(3) by (simp add: add_subscriber_def)
    show "\<exists>t. n \<in> set (topic_chans t (add_subscriber topic c))" if "n < length (cbChans (add_subscriber topic c))" for n
      using that inv(10) [OF assms(3), of n] by (cases "n = length (cbChans c)") (auto simp: chans len)
    show "\<forall>ch\<in>set (cbChans (add_subscriber topic c)). chClosed ch = cbClosed (add_subscriber topic c)"
      using assms(1,3) by (simp add: add_subscriber_def make_chan_def bus_inv_def)
  qed
qed

text \<open>Delivery: no panic, and exactly the channels of the topic are offered the event.\<close>

lemma deliver_inv:
  assumes "bus_inv c" and "\<not> cbClosed c"
  shows "\<exists>chs. deliver e c = (Ok (), c\<lparr>cbChans := chs\<rparr>) \<and> length chs = length (cbChans c)
    \<and> (\<forall>n < length chs. chs ! n = (if n \<in> set (topic_chans (evTopic e) c) then offered (cloneEvent e) (cbChans c ! n) else cbChans c ! n))"
proof -
  note inv = bus_invD [OF assms(1)]
  have "n < length (cbChans c) \<and> try_send (cloneEvent e) (cbChans c ! n) = Ok (offered (cloneEvent e) (cbChans c ! n))"
    if "n \<in> set (topic_chans (evTopic e) c)" for n
    using inv(4) [OF that] inv(8) [OF inv(4) [OF that]] assms(2) by (simp add: try_send_open)
  from on_chans_Ok [OF inv(5) [of "evTopic e"] this] obtain chs where
    "on_chans (topic_chans (evTopic e) c) (try_send (cloneEvent e)) (cbChans c) = (Ok (), chs)"
    and "length chs = length (cbChans c)"
    and "\<forall>n < length (cbChans c). chs ! n =
      (if n \<in> set (topic_chans (evTopic e) c) then offered (cloneEvent e) (cbChans c ! n) else cbChans c ! n)"
    by auto
  then show ?thesis by (intro exI [of _ chs]) (simp add: deliver_def)
qed

lemma bus_inv_deliver:
  assumes "bus_inv c" and "\<not> cbClosed c"
  shows "bus_inv (snd (deliver e c))"
proof -
  obtain chs where d: "deliver e c = (Ok (), c\<lparr>cbChans := chs\<rparr>)" and len: "length chs = length (cbChans c)"
    and chs: "\<forall>n < length chs. chs ! n = (if n \<in> set (topic_chans (evTopic e) c) then offered (cloneEvent e) (cbChans c ! n) else cbChans c ! n)"
    using deliver_inv [OF assms] by blast
  have "chClosed (chs ! n) = cbClosed c" if "n < length chs" for n
    using chs len bus_invD(8) [OF assms(1), of n] that by simp
  then have "\<forall>ch \<in> set chs. chClosed ch = cbClosed c" by (metis in_set_conv_nth)
  then have "bus_inv (c\<lparr>cbChans := chs\<rparr>)" using len by (intro bus_inv_cong [OF assms(1)]) simp_all
  then show ?thesis using d by simp
qed

lemma bus_inv_receive:
  assumes "bus_inv c" and "n < length (cbChans c)"
  shows "bus_inv (snd (receive_event n c))"
proof -
  have "chClosed ch = cbClosed c" if "ch \<in> set ((cbChans c)[n := (cbChans c ! n)\<lparr>chBuffer := es\<rparr>])" for ch es
  proof -
    have "ch = (cbChans c ! n)\<lparr>chBuffer := es\<rparr> \<or> ch \<in> set (cbChans c)"
      using that set_update_subset_insert [of "cbChans c" n] by blast
    then show ?thesis using bus_invD(8) [OF assms] bus_invD(9) [OF assms(1)] by auto
  qed
  then have "bus_inv (c\<lparr>cbChans := (cbChans c)[n := (cbChans c ! n)\<lparr>chBuffer := es\<rparr>]\<rparr>)" for es
    by (intro bus_inv_cong [OF assms(1)]) simp_all
  then show ?thesis using assms(1) by (simp add: receive_event_def split: list.split)
qed

text \<open>Closing: no panic, every channel is closed and keeps its events.\<close>

lemma all_chans:
  assumes "bus_inv c"
  shows "distinct (concat (map (map snd \<circ> snd) (subscribers c)))"
    and "set (concat (map (map snd \<circ> snd) (subscribers c))) = (\<Union>t. set (topic_chans t c))"
proof -
  note inv = bus_invD [OF assms]
  have entry: "topic_chans t c = map snd subs" if "(t, subs) \<in> set (subscribers c)" for t subs
    using that inv(2) by (simp add: topic_chans_def topic_subs_def)
  have "distinct (concat (map (map snd \<circ> snd) al))" if "set al \<subseteq> set (subscribers c)" "distinct (map fst al)" for al
    using that
  proof (induction al)
    case (Cons x al)
    obtain t subs where x: "x = (t, subs)" by fastforce
    have t: "topic_chans t c = map snd subs" using entry Cons.prems(1) x by simp
    have "n \<notin> snd ` set subs'" if "n \<in> snd ` set subs" "(t', subs') \<in> set al" for n t' subs'
    proof
      assume "n \<in> snd ` set subs'"
      moreover have "topic_chans t' c = map snd subs'" using entry Cons.prems(1) that(2) by auto
      ultimately have "t = t'" using inv(6) [of n t t'] t that(1) by simp
      then show False using Cons.prems(2) that(2) x by force
    qed
    then have "snd ` set subs \<inter> set (concat (map (map snd \<circ> snd) al)) = {}" by force
    moreover have "distinct (map snd subs)" using inv(5) [of t] t by simp
    ultimately show ?case using Cons x by simp
  qed simp
  from this [of "subscribers c"] inv(2) show "distinct (concat (map (map snd \<circ> snd) (subscribers c)))" by simp
  show "set (concat (map (map snd \<circ> snd) (subscribers c))) = (\<Union>t. set (topic_chans t c))"
    using inv(2) by (force simp: topic_chans_def topic_subs_def split: option.splits dest: map_of_SomeD)
qed

lemma close_subscribers_inv:
  assumes "bus_inv c" and "\<not> cbClosed c"
  shows "close_subscribers c =
    (Ok (), c\<lparr>cbClosed := True, cbChans := map (\<lambda>ch. ch\<lparr>chClosed := True\<rparr>) (cbChans c), subscribers := []\<rparr>)"
proof -
  let ?ns = "concat (map (map snd \<circ> snd) (subscribers c))"
  note inv = bus_invD [OF assms(1)]
  have all: "n \<in> set ?ns \<longleftrightarrow> n < length (cbChans c)" for n
    unfolding all_chans(2) [OF assms(1)] using inv(4) [of n] inv(10) [OF assms(2), of n] by (metis UNIV_I UN_iff)
  then have "n < length (cbChans c) \<and> close_chan (cbChans c ! n) = Ok ((cbChans c ! n)\<lparr>chClosed := True\<rparr>)" if "n \<in> set ?ns" for n
    using that inv(8) [of n] assms(2) by (simp add: close_chan_def)
  from on_chans_Ok [OF all_chans(1) [OF assms(1)] this] obtain chs where
    run: "on_chans ?ns close_chan (cbChans c) = (Ok (), chs)" and len: "length chs = length (cbChans c)"
    and chs: "\<forall>n < length (cbChans c). chs ! n = (if n \<in> set ?ns then (cbChans c ! n)\<lparr>chClosed := True\<rparr> else cbChans c ! n)"
    by auto
  have "chs = map (\<lambda>ch. ch\<lparr>chClosed := True\<rparr>) (cbChans c)"
    using len chs all by (intro nth_equalityI) simp_all
  then show ?thesis using run by (simp add: close_subscribers_def)
qed

lemma bus_inv_close:
  assumes "bus_inv c" and "\<not> cbClosed c"
  shows "bus_inv (snd (close_subscribers c))"
  using bus_invD(1) [OF assms(1)] by (simp add: close_subscribers_inv [OF assms] bus_inv_def topic_chans_def topic_subs_def)

section \<open>What a subscriber sees\<close>

text \<open>The calls on a bus, arriving messages and the receptions of subscribers.\<close>

datatype bus_op =
    DoSubscribe string
  | DoPublish instant ambient "nat \<Rightarrow> ambient" string "bytes option"
  | DoHandle instant Message
  | DoReceive nat
  | DoClose "nat \<Rightarrow> ambient" "go_error option"

fun bus_exec :: "('any, 'c, 'kp, 'pk, 'sk, 'kd) crypto \<Rightarrow> 'f localfs \<Rightarrow> 'f renaming \<Rightarrow> registry_json \<Rightarrow> bus_op
    \<Rightarrow> ('kp, 'kd, 'f) bus_node \<Rightarrow> ('kp, 'kd, 'f) bus_node" where
  "bus_exec cr F ren J (DoSubscribe topic) s = snd (on_bus (Subscribe topic) s)"
| "bus_exec cr F ren J (DoPublish now am ams topic payload) s = snd (Publish cr now am ams topic payload s)"
| "bus_exec cr F ren J (DoHandle now msg) s = snd (on_bus (bus_handleMessage (crJSON cr) now (Some msg)) s)"
| "bus_exec cr F ren J (DoReceive n) s =
     (if n < length (cbChans (bnBus s)) then s\<lparr>bnBus := snd (receive_event n (bnBus s))\<rparr> else s)"
| "bus_exec cr F ren J (DoClose ams shutdownErr) s = snd (CloseBus cr F ren J ams shutdownErr s)"

text \<open>The event an operation brings to an open bus, if any.\<close>

fun event_of :: "'any json \<Rightarrow> 'kp NodeManager \<Rightarrow> bus_op \<Rightarrow> Event option" where
  "event_of j node (DoPublish now am ams topic payload) =
     (case GetIdentity node of
        Some identity \<Rightarrow>
          if topic = [] then None
          else Some \<lparr>evTopic = topic, evPayload = cloneBytes payload, evPeerID = niID identity, evTimestamp = now\<rparr>
      | None \<Rightarrow> None)"
| "event_of j node (DoHandle now msg) =
     (if mType msg \<noteq> contentEventMessageType then None
      else case ParsePayload j KWireEvent msg of
          Ok (PWireEvent p) \<Rightarrow>
            if weTopic p = [] then None
            else Some \<lparr>evTopic = weTopic p, evPayload = cloneBytes (wePayload p), evPeerID = mFrom msg,
                       evTimestamp = (case mTimestamp msg of None \<Rightarrow> now | Some t \<Rightarrow> t)\<rparr>
        | _ \<Rightarrow> None)"
| "event_of j node _ = None"

text \<open>
  The promise to a subscriber of a topic: a bounded queue of its own, which takes the events of the
  topic in order as long as it is open and not full, and which only the subscriber's receptions empty.
\<close>

fun watch :: "'any json \<Rightarrow> 'kp NodeManager \<Rightarrow> string \<Rightarrow> nat \<Rightarrow> bus_op \<Rightarrow> chan \<Rightarrow> chan" where
  "watch j node topic n (DoReceive k) q = (if k = n then q\<lparr>chBuffer := tl (chBuffer q)\<rparr> else q)"
| "watch j node topic n (DoClose ams e) q = q\<lparr>chClosed := True\<rparr>"
| "watch j node topic n op q =
     (case event_of j node op of
        Some e \<Rightarrow> if evTopic e = topic \<and> \<not> chClosed q then offered e q else q
      | None \<Rightarrow> q)"

text \<open>What the operations do to the controller; the rest of the node matters to none of them.\<close>

definition delivered :: "Event \<Rightarrow> controller \<Rightarrow> controller" where
  "delivered e c = (if cbClosed c then c else snd (deliver e c))"

lemma broadcast_keeps_bus:
  "bnBus (snd (cmd_then (of_result r) (\<lambda>msg. cmd_map_err g (on_transport (Broadcast cr ams msg))) s)) = bnBus s"
  "bnNode (snd (cmd_then (of_result r) (\<lambda>msg. cmd_map_err g (on_transport (Broadcast cr ams msg))) s)) = bnNode s"
  by (cases r; simp add: cmd_map_err_def on_transport_def split: prod.split result.split)+

lemma Publish_bus:
  assumes "bus_inv (bnBus s)"
  shows "bnBus (snd (Publish cr now am ams topic payload s)) =
      (case event_of j (bnNode s) (DoPublish now am ams topic payload) of None \<Rightarrow> bnBus s | Some e \<Rightarrow> delivered e (bnBus s))
    \<and> bnNode (snd (Publish cr now am ams topic payload s)) = bnNode s"
proof (cases "topic = [] \<or> cbClosed (bnBus s) \<or> GetIdentity (bnNode s) = None")
  case True
  then show ?thesis by (auto simp: Publish_def delivered_def split: option.splits)
next
  case False
  then obtain identity where i: "GetIdentity (bnNode s) = Some identity" by auto
  let ?e = "\<lparr>evTopic = topic, evPayload = cloneBytes payload, evPeerID = niID identity, evTimestamp = now\<rparr>"
  obtain chs where d: "deliver ?e (bnBus s) = (Ok (), (bnBus s)\<lparr>cbChans := chs\<rparr>)"
    using deliver_inv [OF assms] False by blast
  have "on_bus (deliver ?e) s = (Ok (), s\<lparr>bnBus := (bnBus s)\<lparr>cbChans := chs\<rparr>\<rparr>)" using d by (simp add: on_bus_def)
  then show ?thesis using False i d by (simp add: Publish_def Let_def delivered_def broadcast_keeps_bus)
qed

lemma handleMessage_bus:
  assumes "bus_inv c"
  shows "snd (bus_handleMessage j now (Some msg) c) =
      (case event_of j node (DoHandle now msg) of None \<Rightarrow> c | Some e \<Rightarrow> delivered e c)"
  by (simp add: bus_handleMessage_def delivered_def split: result.split Payload.split)

lemma close_rest_bus:
  "bnBus (snd (cmd_map_err g (on_transport m) s)) = bnBus s" "bnNode (snd (cmd_map_err g (on_transport m) s)) = bnNode s"
  "bnBus (snd (cmd_map_err g (close_registry F ren J) s)) = bnBus s" "bnNode (snd (cmd_map_err g (close_registry F ren J) s)) = bnNode s"
  by (simp_all add: cmd_map_err_def on_transport_def close_registry_def split: prod.split)

lemma cmd_then_invariant:
  assumes "P (snd (m s))" and "\<And>x t. P t \<Longrightarrow> P (snd (f x t))"
  shows "P (snd (cmd_then m f s))"
  using assms by (auto simp: cmd_then_def split: prod.splits result.splits)

definition closed_bus :: "controller \<Rightarrow> controller" where
  "closed_bus c = c\<lparr>cbClosed := True, cbChans := map (\<lambda>ch. ch\<lparr>chClosed := True\<rparr>) (cbChans c), subscribers := []\<rparr>"

lemma CloseBus_bus:
  assumes "bus_inv (bnBus s)" and "\<not> cbClosed (bnBus s)" and "\<not> closeOnce (bnBus s)"
  shows "\<exists>x. bnBus (snd (CloseBus cr F ren J ams e s)) = (closed_bus (bnBus s))\<lparr>closeOnce := True, closeErr := x\<rparr>"
    and "bnNode (snd (CloseBus cr F ren J ams e s)) = bnNode s"
proof -
  let ?s = "s\<lparr>bnBus := (bnBus s)\<lparr>closeOnce := True\<rparr>\<rparr>"
  let ?P = "\<lambda>s'. bnBus s' = (closed_bus (bnBus s))\<lparr>closeOnce := True\<rparr> \<and> bnNode s' = bnNode s"
  have "bus_inv (bnBus ?s)" by (rule bus_inv_cong [OF assms(1)]) (use bus_invD(9) [OF assms(1)] in auto)
  from close_subscribers_inv [OF this] assms(2)
  have "on_bus close_subscribers ?s = (Ok (), ?s\<lparr>bnBus := (closed_bus (bnBus s))\<lparr>closeOnce := True\<rparr>\<rparr>)"
    by (simp add: on_bus_def closed_bus_def)
  then have P: "?P (snd (close_once cr F ren J ams e ?s))"
    unfolding close_once_def Let_def
    by (simp, intro cmd_then_invariant [where P = ?P]) (simp_all add: close_rest_bus)
  obtain r s' where run: "close_once cr F ren J ams e ?s = (r, s')" by fastforce
  have "snd (CloseBus cr F ren J ams e s) =
      (case r of Fail x \<Rightarrow> s'\<lparr>bnBus := (bnBus s')\<lparr>closeErr := Some x\<rparr>\<rparr> | _ \<Rightarrow> s')"
    using run assms(3) by (simp add: CloseBus_def split: result.split)
  then show "\<exists>x. bnBus (snd (CloseBus cr F ren J ams e s)) = (closed_bus (bnBus s))\<lparr>closeOnce := True, closeErr := x\<rparr>"
    "bnNode (snd (CloseBus cr F ren J ams e s)) = bnNode s"
    using P run by (auto split: result.split intro: exI [of _ "closeErr (bnBus s')"])
qed

text \<open>The invariant with the flag of \<^verbatim>\<open>closeOnce\<close>, and a subscriber of a topic, open or ended.\<close>

definition bus_ok :: "controller \<Rightarrow> bool" where
  "bus_ok c \<longleftrightarrow> bus_inv c \<and> closeOnce c = cbClosed c"

definition serves :: "string \<Rightarrow> nat \<Rightarrow> controller \<Rightarrow> bool" where
  "serves topic n c \<longleftrightarrow> n < length (cbChans c) \<and> (cbClosed c \<or> n \<in> set (topic_chans topic c))"

lemma event_of_cloned: "event_of j node op = Some e \<Longrightarrow> cloneEvent e = e"
  by (cases op) (auto simp: cloneEvent_def split: if_splits option.splits result.splits Payload.splits)

lemma delivered_frame:
  assumes "bus_inv c"
  shows "bus_inv (delivered e c)" "length (cbChans (delivered e c)) = length (cbChans c)" "closeOnce (delivered e c) = closeOnce c"
    "cbClosed (delivered e c) = cbClosed c" "topic_chans t (delivered e c) = topic_chans t c"
  using bus_inv_deliver [OF assms] deliver_inv [OF assms, of e] assms
  by (auto simp: delivered_def topic_chans_def topic_subs_def)

lemma delivered_view:
  assumes "bus_inv c" and "serves topic n c"
  shows "serves topic n (delivered e c) \<and> cbChans (delivered e c) ! n =
    (if evTopic e = topic \<and> \<not> chClosed (cbChans c ! n) then offered (cloneEvent e) (cbChans c ! n) else cbChans c ! n)"
proof -
  have n: "n < length (cbChans c)" using assms(2) by (simp add: serves_def)
  have "cbChans (delivered e c) ! n =
    (if evTopic e = topic \<and> \<not> chClosed (cbChans c ! n) then offered (cloneEvent e) (cbChans c ! n) else cbChans c ! n)"
  proof (cases "cbClosed c")
    case True
    then show ?thesis using bus_invD(8) [OF assms(1) n] by (simp add: delivered_def)
  next
    case False
    then have "n \<in> set (topic_chans (evTopic e) c) \<longleftrightarrow> evTopic e = topic"
      using assms(2) bus_invD(6) [OF assms(1)] unfolding serves_def by blast
    then show ?thesis using deliver_inv [OF assms(1) False, of e] False bus_invD(8) [OF assms(1) n] n
      by (auto simp: delivered_def)
  qed
  then show ?thesis using assms(2) delivered_frame [OF assms(1), where e = e] by (simp add: serves_def)
qed

text \<open>
  What a call may do to the bus of a node: keep it well formed, open at most one channel, and treat
  every subscriber as promised.
\<close>

definition keeps_promise :: "'any json \<Rightarrow> 'kp NodeManager \<Rightarrow> bus_op \<Rightarrow> controller \<Rightarrow> controller \<Rightarrow> bool" where
  "keeps_promise j node op c c' \<longleftrightarrow> bus_ok c' \<and> channelBuffer c' = channelBuffer c \<and>
     length (cbChans c') \<in> {length (cbChans c), Suc (length (cbChans c))} \<and>
     (\<forall>topic n. serves topic n c \<longrightarrow> serves topic n c' \<and> cbChans c' ! n = watch j node topic n op (cbChans c ! n))"

lemma promise_event:
  assumes "bus_ok c" and "c' = (case event_of j node op of None \<Rightarrow> c | Some e \<Rightarrow> delivered e c)"
    and "\<And>topic n q. watch j node topic n op q =
       (case event_of j node op of Some e \<Rightarrow> if evTopic e = topic \<and> \<not> chClosed q then offered e q else q | None \<Rightarrow> q)"
  shows "keeps_promise j node op c c'"
proof (cases "event_of j node op")
  case None
  then show ?thesis using assms by (simp add: keeps_promise_def)
next
  case (Some e)
  have inv: "bus_inv c" using assms(1) by (simp add: bus_ok_def)
  have "channelBuffer (delivered e c) = channelBuffer c"
    using deliver_inv [OF inv, of e] by (auto simp: delivered_def)
  then show ?thesis using assms Some delivered_view [OF inv, of _ _ e] delivered_frame [OF inv, where e = e]
    by (auto simp: keeps_promise_def bus_ok_def event_of_cloned)
qed

lemma promise_subscribe:
  assumes "bus_ok c" and "length (cbChans c) < 2 ^ 64"
  shows "keeps_promise j node (DoSubscribe t) c (snd (Subscribe t c))"
proof (cases "t = [] \<or> cbClosed c")
  case True
  then show ?thesis using assms(1) by (auto simp: Subscribe_def keeps_promise_def)
next
  case False
  have inv: "bus_inv c" and once: "closeOnce c = cbClosed c" using assms(1) by (simp_all add: bus_ok_def)
  have "serves topic n (add_subscriber t c) \<and> cbChans (add_subscriber t c) ! n = cbChans c ! n" if "serves topic n c" for topic n
    using that by (auto simp: serves_def topic_chans_def topic_subs_added_fresh [OF inv assms(2)] nth_append)
      (auto simp: add_subscriber_def nth_append)
  then show ?thesis using False bus_inv_subscribe [OF inv assms(2)] once
    by (auto simp: Subscribe_def keeps_promise_def bus_ok_def add_subscriber_def)
qed

lemma promise_receive:
  assumes "bus_ok c" and "k < length (cbChans c)"
  shows "keeps_promise j node (DoReceive k) c (snd (receive_event k c))"
proof -
  have inv: "bus_inv c" and once: "closeOnce c = cbClosed c" using assms(1) by (simp_all add: bus_ok_def)
  have "cbChans (snd (receive_event k c)) = (cbChans c)[k := (cbChans c ! k)\<lparr>chBuffer := tl (chBuffer (cbChans c ! k))\<rparr>]"
    using assms(2) by (simp add: receive_event_def split: list.split) (metis list_update_id chan.surjective chan.update_convs(1))
  moreover have "closeOnce (snd (receive_event k c)) = closeOnce c" "cbClosed (snd (receive_event k c)) = cbClosed c"
    "channelBuffer (snd (receive_event k c)) = channelBuffer c" "topic_chans t (snd (receive_event k c)) = topic_chans t c" for t
    by (simp_all add: receive_event_def topic_chans_def topic_subs_def split: list.split)
  ultimately show ?thesis using bus_inv_receive [OF inv assms(2)] once assms(2)
    by (simp add: keeps_promise_def bus_ok_def serves_def)
qed

lemma bus_inv_closed:
  assumes "bus_inv c"
  shows "bus_inv ((closed_bus c)\<lparr>closeOnce := a, closeErr := x\<rparr>)"
  using bus_invD(1) [OF assms] by (simp add: bus_inv_def closed_bus_def topic_chans_def topic_subs_def)

lemma promise_close:
  fixes s :: "('kp, 'kd, 'f) bus_node"
  assumes "bus_ok (bnBus s)"
  shows "keeps_promise j node (DoClose ams e) (bnBus s) (bnBus (snd (CloseBus cr F ren J ams e s)))"
    and "bnNode (snd (CloseBus cr F ren J ams e s)) = bnNode s"
proof -
  let ?s' = "snd (CloseBus cr F ren J ams e s)"
  have inv: "bus_inv (bnBus s)" and once: "closeOnce (bnBus s) = cbClosed (bnBus s)" using assms by (simp_all add: bus_ok_def)
  have "keeps_promise j node (DoClose ams e) (bnBus s) (bnBus ?s') \<and> bnNode ?s' = bnNode s"
  proof (cases "closeOnce (bnBus s)")
    case True
    then have s': "?s' = s" by (simp add: CloseBus_def)
    have "(cbChans (bnBus s) ! n)\<lparr>chClosed := True\<rparr> = cbChans (bnBus s) ! n" if "serves topic n (bnBus s)" for topic n
      using bus_invD(8) [OF inv, of n] that True once by (simp add: serves_def)
    then show ?thesis using assms s' by (auto simp: keeps_promise_def)
  next
    case False
    then obtain x where b: "bnBus ?s' = (closed_bus (bnBus s))\<lparr>closeOnce := True, closeErr := x\<rparr>" and n: "bnNode ?s' = bnNode s"
      using CloseBus_bus [OF inv, of cr F ren J ams e] once by blast
    show ?thesis using bus_inv_closed [OF inv, where a = True and x = x] n unfolding b
      by (auto simp: keeps_promise_def bus_ok_def closed_bus_def serves_def)
  qed
  then show "keeps_promise j node (DoClose ams e) (bnBus s) (bnBus ?s')" "bnNode ?s' = bnNode s" by auto
qed

lemma promise_exec:
  fixes s :: "('kp, 'kd, 'f) bus_node"
  assumes "bus_ok (bnBus s)" and "length (cbChans (bnBus s)) < 2 ^ 64"
  shows "keeps_promise (crJSON cr) (bnNode s) op (bnBus s) (bnBus (bus_exec cr F ren J op s))
    \<and> bnNode (bus_exec cr F ren J op s) = bnNode s"
proof -
  have inv: "bus_inv (bnBus s)" using assms(1) by (simp add: bus_ok_def)
  show ?thesis
  proof (cases op)
    case (DoSubscribe t)
    then show ?thesis using promise_subscribe [OF assms, of _ _ t] by (simp add: on_bus_def case_prod_unfold)
  next
    case (DoPublish now am ams topic payload)
    then show ?thesis using Publish_bus [OF inv, of cr now am ams topic payload "crJSON cr"]
      by (auto intro!: promise_event [OF assms(1)])
  next
    case (DoHandle now msg)
    then show ?thesis using handleMessage_bus [OF inv, of "crJSON cr" now msg "bnNode s"]
      by (auto intro!: promise_event [OF assms(1)] simp: on_bus_def case_prod_unfold)
  next
    case (DoReceive n)
    show ?thesis
    proof (cases "n < length (cbChans (bnBus s))")
      case True
      then show ?thesis using DoReceive promise_receive [OF assms(1)] by simp
    next
      case False
      then show ?thesis using DoReceive assms(1) by (auto simp: keeps_promise_def serves_def)
    qed
  next
    case (DoClose ams e)
    then show ?thesis by (simp add: promise_close [OF assms(1)])
  qed
qed

lemma promise_run:
  fixes s :: "('kp, 'kd, 'f) bus_node"
  assumes "bus_ok (bnBus s)" and "length (cbChans (bnBus s)) + length ops < 2 ^ 64"
    and "s' = fold (bus_exec cr F ren J) ops s"
  shows "bus_ok (bnBus s') \<and> bnNode s' = bnNode s \<and> channelBuffer (bnBus s') = channelBuffer (bnBus s)
    \<and> length (cbChans (bnBus s')) \<le> length (cbChans (bnBus s)) + length ops
    \<and> (\<forall>topic n. serves topic n (bnBus s) \<longrightarrow> serves topic n (bnBus s')
         \<and> cbChans (bnBus s') ! n = fold (watch (crJSON cr) (bnNode s) topic n) ops (cbChans (bnBus s) ! n))"
  using assms(1,2) unfolding assms(3)
proof (induction ops arbitrary: s)
  case (Cons op ops)
  let ?s = "bus_exec cr F ren J op s"
  have k: "keeps_promise (crJSON cr) (bnNode s) op (bnBus s) (bnBus ?s)" and node: "bnNode ?s = bnNode s"
    using promise_exec [OF Cons.prems(1), of cr op F ren J] Cons.prems(2) by simp_all
  have step: "bus_ok (bnBus ?s)" "channelBuffer (bnBus ?s) = channelBuffer (bnBus s)"
    "length (cbChans (bnBus ?s)) \<le> Suc (length (cbChans (bnBus s)))"
    and view: "\<And>topic n. serves topic n (bnBus s) \<Longrightarrow> serves topic n (bnBus ?s)
      \<and> cbChans (bnBus ?s) ! n = watch (crJSON cr) (bnNode s) topic n op (cbChans (bnBus s) ! n)"
    using k by (auto simp: keeps_promise_def)
  have "length (cbChans (bnBus ?s)) + length ops < 2 ^ 64" using step(3) Cons.prems(2) by simp
  note IH = Cons.IH [OF step(1) this]
  have "serves topic n (bnBus (fold (bus_exec cr F ren J) ops ?s)) \<and> cbChans (bnBus (fold (bus_exec cr F ren J) ops ?s)) ! n =
      fold (watch (crJSON cr) (bnNode s) topic n) (op # ops) (cbChans (bnBus s) ! n)" if "serves topic n (bnBus s)" for topic n
    using view [OF that] IH node by (metis fold_simps(2))
  then show ?case using IH node step by simp
qed simp

text \<open>\<^verbatim>\<open>Start\<close> never fails, so what the code does in that case is never reached.\<close>

lemma start_bus_Ok:
  "start_bus h cr ams e s = (Ok (s\<lparr>bnTransport := snd (Start (bnTransport s)), bnBus := (bnBus s)\<lparr>startedTransport := True\<rparr>\<rparr>), bnFiles s)"
  by (simp add: start_bus_def on_transport_def Start_def Let_def)

lemma NewBusController_bus:
  assumes "NewBusController h cr ams e opts f = (Ok s, f')"
  shows "subscribers (bnBus s) = [] \<and> nextSubID (bnBus s) = 0 \<and> \<not> cbClosed (bnBus s) \<and> cbChans (bnBus s) = [] \<and> \<not> closeOnce (bnBus s)"
    and "trHandler (bnTransport s) = Some ContentBusHandleMessage"
proof -
  obtain cfg where "apply_options opts default_options = (Ok (), cfg)" and "\<not> (opTransport cfg \<noteq> None \<and> opNode cfg = None)"
    using assms by (auto simp: NewBusController_def split: prod.splits result.splits if_splits)
  then obtain node f1 t a b x where "s = \<lparr>bnBus = (new_controller (opChannelBuffer cfg) a b)\<lparr>startedTransport := x\<rparr>, bnNode = node,
        bnTransport = (if x then snd (Start (OnMessage ContentBusHandleMessage t)) else OnMessage ContentBusHandleMessage t), bnFiles = f1\<rparr>"
    using assms unfolding NewBusController_def Let_def start_bus_Ok
    by (fastforce simp: new_controller_def split: prod.splits if_splits elim!: cmd_then_OkE)
  then show "subscribers (bnBus s) = [] \<and> nextSubID (bnBus s) = 0 \<and> \<not> cbClosed (bnBus s) \<and> cbChans (bnBus s) = [] \<and> \<not> closeOnce (bnBus s)"
    and "trHandler (bnTransport s) = Some ContentBusHandleMessage"
    by (auto simp: OnMessage_def new_controller_def Start_def Let_def)
qed

text \<open>
  C14. Subscribers are isolated from each other. Whatever calls, arriving messages, receptions and closings
  a new bus goes through, the channel that a subscription returns develops exactly as a bounded queue of
  its own: it takes, in order, every event published locally or received for its topic while the bus is
  open and the queue is not full, and loses events only to its own subscriber's receptions.
\<close>

theorem subscriber_view:
  fixes s0 :: "('kp, 'kd, 'f) bus_node"
  assumes "NewBusController h cr ams e opts f = (Ok s0, f')"
    and "s1 = fold (bus_exec cr F ren J) earlier s0" and "Subscribe topic (bnBus s1) = (Ok n, c)"
    and "s2 = fold (bus_exec cr F ren J) later (s1\<lparr>bnBus := c\<rparr>)" and "length earlier + length later < 2 ^ 64 - 1"
  shows "cbChans (bnBus s2) ! n =
    fold (watch (crJSON cr) (bnNode s0) topic n) later (make_chan (channelBuffer (bnBus s0)))"
proof -
  have ok0: "bus_ok (bnBus s0)" "length (cbChans (bnBus s0)) = 0"
    using NewBusController_bus(1) [OF assms(1)] by (simp_all add: bus_ok_def bus_inv_def topic_chans_def topic_subs_def)
  have ok1: "bus_ok (bnBus s1)" and node: "bnNode s1 = bnNode s0" and size1: "channelBuffer (bnBus s1) = channelBuffer (bnBus s0)"
    and len1: "length (cbChans (bnBus s1)) \<le> length earlier"
    using promise_run [OF ok0(1) _ assms(2)] ok0(2) assms(5) by simp_all
  have c: "c = add_subscriber topic (bnBus s1)" and n: "n = length (cbChans (bnBus s1))" and live: "\<not> cbClosed (bnBus s1)"
    using assms(3) by (auto simp: Subscribe_def split: if_splits)
  have small: "length (cbChans (bnBus s1)) < 2 ^ 64" using len1 assms(5) by simp
  have inv1: "bus_inv (bnBus s1)" using ok1 by (simp add: bus_ok_def)
  have okc: "bus_ok c" using bus_inv_subscribe [OF inv1 small live] ok1 by (simp add: bus_ok_def c add_subscriber_def)
  have "serves topic n c"
    by (simp add: serves_def c n topic_chans_def topic_subs_added_fresh [OF inv1 small]) (simp add: add_subscriber_def)
  moreover have "cbChans c ! n = make_chan (channelBuffer (bnBus s0))" by (simp add: c n add_subscriber_def size1)
  moreover have "length (cbChans c) + length later < 2 ^ 64" using len1 assms(5) by (simp add: c add_subscriber_def)
  ultimately show ?thesis using promise_run [of "s1\<lparr>bnBus := c\<rparr>" later s2 cr F ren J] okc assms(4) node by simp
qed

section \<open>From one node to another\<close>

lemma Broadcast_state: "snd (Broadcast cr am msg t) = snd (broadcast_loop cr am msg (Connections t) None t)"
  by (cases "broadcast_loop cr am msg (Connections t) None t"; cases "fst (broadcast_loop cr am msg (Connections t) None t)")
    (simp_all add: Broadcast_def)

lemma Publish_transport:
  assumes "bus_inv (bnBus s)" and "topic \<noteq> []" and "\<not> cbClosed (bnBus s)" and "GetIdentity (bnNode s) = Some identity"
    and "NewMessage (crJSON cr) (amUUID am) (amNow am) contentEventMessageType (niID identity) []
      (Some (PWireEvent \<lparr>weTopic = topic, wePayload = cloneBytes payload\<rparr>)) = Ok msg"
  shows "bnTransport (snd (Publish cr now am ams topic payload s)) = snd (Broadcast cr ams msg (bnTransport s))"
proof -
  let ?e = "\<lparr>evTopic = topic, evPayload = cloneBytes payload, evPeerID = niID identity, evTimestamp = now\<rparr>"
  obtain chs where "deliver ?e (bnBus s) = (Ok (), (bnBus s)\<lparr>cbChans := chs\<rparr>)"
    using deliver_inv [OF assms(1,3)] by blast
  then have "on_bus (deliver ?e) s = (Ok (), s\<lparr>bnBus := (bnBus s)\<lparr>cbChans := chs\<rparr>\<rparr>)" by (simp add: on_bus_def)
  then show ?thesis using assms(2-5)
    by (simp add: Publish_def Let_def cmd_map_err_def on_transport_def case_prod_unfold)
qed


section \<open>Concurrent calls\<close>

text \<open>
  The calls as their locks order them. A delivery holds both read locks and sends to one channel at a
  time, in the arbitrary order of the map; \<^verbatim>\<open>Publish\<close> keeps the outer read lock while it broadcasts;
  \<^verbatim>\<open>Subscribe\<close> needs the inner lock for itself and \<^verbatim>\<open>Close\<close> both, so the former excludes deliveries and
  the latter also broadcasts. Receptions take no lock.
\<close>

datatype bus_thread = Delivering Event "nat list" | Broadcasting

record bus_sys =
  syBus :: controller
  syThreads :: "nat \<Rightarrow> bus_thread option"
  syCrash :: "panic option"

definition panic_of :: "'a result \<Rightarrow> panic option" where
  "panic_of r = (case r of Panic p \<Rightarrow> Some p | _ \<Rightarrow> None)"

inductive bus_step :: "bus_sys \<Rightarrow> bus_sys \<Rightarrow> bool" where
  begin_delivery: "syCrash s = None \<Longrightarrow> syThreads s g = None \<Longrightarrow> \<not> cbClosed (syBus s) \<Longrightarrow>
    mset ns = mset (topic_chans (evTopic e) (syBus s)) \<Longrightarrow>
    bus_step s (s\<lparr>syThreads := (syThreads s)(g \<mapsto> Delivering e ns)\<rparr>)"
| send_one: "syCrash s = None \<Longrightarrow> syThreads s g = Some (Delivering e (n # ns)) \<Longrightarrow>
    on_chan n (try_send (cloneEvent e)) (cbChans (syBus s)) = (r, chs) \<Longrightarrow>
    bus_step s (s\<lparr>syBus := (syBus s)\<lparr>cbChans := chs\<rparr>, syThreads := (syThreads s)(g \<mapsto> Delivering e ns), syCrash := panic_of r\<rparr>)"
| start_broadcast: "syCrash s = None \<Longrightarrow> syThreads s g = Some (Delivering e []) \<Longrightarrow>
    bus_step s (s\<lparr>syThreads := (syThreads s)(g \<mapsto> Broadcasting)\<rparr>)"
| release: "syCrash s = None \<Longrightarrow> syThreads s g \<in> {Some (Delivering e []), Some Broadcasting} \<Longrightarrow>
    bus_step s (s\<lparr>syThreads := (syThreads s)(g := None)\<rparr>)"
| subscribe: "syCrash s = None \<Longrightarrow> \<forall>g e ns. syThreads s g \<noteq> Some (Delivering e ns) \<Longrightarrow> Subscribe topic (syBus s) = (Ok n, c) \<Longrightarrow>
    bus_step s (s\<lparr>syBus := c\<rparr>)"
| close: "syCrash s = None \<Longrightarrow> \<forall>g. syThreads s g = None \<Longrightarrow> \<not> cbClosed (syBus s) \<Longrightarrow> close_subscribers (syBus s) = (r, c) \<Longrightarrow>
    bus_step s (s\<lparr>syBus := c, syCrash := panic_of r\<rparr>)"
| receive: "syCrash s = None \<Longrightarrow> n < length (cbChans (syBus s)) \<Longrightarrow>
    bus_step s (s\<lparr>syBus := snd (receive_event n (syBus s))\<rparr>)"

definition bus_start :: "nat \<Rightarrow> bus_sys" where
  "bus_start n = \<lparr>syBus = new_controller n False False, syThreads = Map.empty, syCrash = None\<rparr>"

text \<open>
  Nobody delivers or broadcasts on a closed bus, deliveries go to channels of their topic, and a
  channel holds no more than its capacity and only events of its topic.
\<close>

definition busy_ok :: "controller \<Rightarrow> bus_thread \<Rightarrow> bool" where
  "busy_ok c th \<longleftrightarrow> \<not> cbClosed c \<and> (case th of Delivering e ns \<Rightarrow> set ns \<subseteq> set (topic_chans (evTopic e) c) | Broadcasting \<Rightarrow> True)"

definition contents_ok :: "controller \<Rightarrow> bool" where
  "contents_ok c \<longleftrightarrow> (\<forall>n < length (cbChans c). length (chBuffer (cbChans c ! n)) \<le> chCap (cbChans c ! n)
     \<and> (\<forall>topic. n \<in> set (topic_chans topic c) \<longrightarrow> (\<forall>e \<in> set (chBuffer (cbChans c ! n)). evTopic e = topic)))"

definition sys_inv :: "bus_sys \<Rightarrow> bool" where
  "sys_inv s \<longleftrightarrow> bus_inv (syBus s) \<and> contents_ok (syBus s) \<and> syCrash s = None \<and> (\<forall>g th. syThreads s g = Some th \<longrightarrow> busy_ok (syBus s) th)"

lemma sys_invI:
  assumes "bus_inv (syBus s)" and "contents_ok (syBus s)" and "syCrash s = None" and "\<And>g th. syThreads s g = Some th \<Longrightarrow> busy_ok (syBus s) th"
  shows "sys_inv s"
  using assms by (simp add: sys_inv_def)

lemma sys_invD:
  assumes "sys_inv s"
  shows "bus_inv (syBus s)" and "contents_ok (syBus s)" and "syThreads s g = Some th \<Longrightarrow> busy_ok (syBus s) th"
  using assms by (simp_all add: sys_inv_def)

text \<open>One channel replaced by one with the same flag, and contents that fit.\<close>

lemma replace_chan:
  assumes "bus_inv c" and "contents_ok c" and "n < length (cbChans c)" and "chClosed ch = cbClosed c"
    and "length (chBuffer ch) \<le> chCap ch"
    and "\<And>topic e. n \<in> set (topic_chans topic c) \<Longrightarrow> e \<in> set (chBuffer ch) \<Longrightarrow> evTopic e = topic"
  shows "bus_inv (c\<lparr>cbChans := (cbChans c)[n := ch]\<rparr>)" and "contents_ok (c\<lparr>cbChans := (cbChans c)[n := ch]\<rparr>)"
    and "busy_ok (c\<lparr>cbChans := (cbChans c)[n := ch]\<rparr>) th = busy_ok c th"
proof -
  have "x = ch \<or> x \<in> set (cbChans c)" if "x \<in> set ((cbChans c)[n := ch])" for x
    using that set_update_subset_insert [of "cbChans c" n ch] by blast
  then have "\<forall>x \<in> set ((cbChans c)[n := ch]). chClosed x = cbClosed c" using bus_invD(9) [OF assms(1)] assms(4) by blast
  then show "bus_inv (c\<lparr>cbChans := (cbChans c)[n := ch]\<rparr>)" by (intro bus_inv_cong [OF assms(1)]) simp_all
  show "contents_ok (c\<lparr>cbChans := (cbChans c)[n := ch]\<rparr>)"
    using assms(2,3,5,6) by (simp add: contents_ok_def nth_list_update topic_chans_def topic_subs_def)
  show "busy_ok (c\<lparr>cbChans := (cbChans c)[n := ch]\<rparr>) th = busy_ok c th"
    by (simp add: busy_ok_def topic_chans_def topic_subs_def split: bus_thread.split)
qed

lemma contents_okD:
  assumes "contents_ok c" and "n < length (cbChans c)"
  shows "length (chBuffer (cbChans c ! n)) \<le> chCap (cbChans c ! n)"
    and "n \<in> set (topic_chans topic c) \<Longrightarrow> e \<in> set (chBuffer (cbChans c ! n)) \<Longrightarrow> evTopic e = topic"
  using assms by (simp_all add: contents_ok_def)

lemma sys_inv_send:
  assumes "sys_inv s" and "syThreads s g = Some (Delivering e (n # ns))"
    and "on_chan n (try_send (cloneEvent e)) (cbChans (syBus s)) = (r, chs)"
  shows "sys_inv (s\<lparr>syBus := (syBus s)\<lparr>cbChans := chs\<rparr>, syThreads := (syThreads s)(g \<mapsto> Delivering e ns), syCrash := panic_of r\<rparr>)"
proof -
  let ?c = "syBus s"
  let ?ch = "offered (cloneEvent e) (cbChans ?c ! n)"
  note inv = sys_invD [OF assms(1)]
  have live: "\<not> cbClosed ?c" and n: "n \<in> set (topic_chans (evTopic e) ?c)" and ns: "set ns \<subseteq> set (topic_chans (evTopic e) ?c)"
    using inv(3) [OF assms(2)] by (auto simp: busy_ok_def)
  have len: "n < length (cbChans ?c)" using bus_invD(4) [OF inv(1) n] .
  have flag: "chClosed (cbChans ?c ! n) = cbClosed ?c" using bus_invD(8) [OF inv(1) len] .
  have run: "r = Ok ()" "chs = (cbChans ?c)[n := ?ch]"
    using assms(3) on_chan_Ok [OF len try_send_open] flag live by auto
  have fits: "length (chBuffer ?ch) \<le> chCap ?ch"
    using contents_okD(1) [OF inv(2) len] by (simp add: offered_def)
  have topics: "evTopic x = topic" if "n \<in> set (topic_chans topic ?c)" "x \<in> set (chBuffer ?ch)" for topic x
    using contents_okD(2) [OF inv(2) len that(1), of x] that(2) bus_invD(6) [OF inv(1) n that(1)]
    by (auto simp: offered_def split: if_splits)
  note new = replace_chan [OF inv(1,2) len _ fits topics]
  have "busy_ok ?c (Delivering e ns)" using live ns by (simp add: busy_ok_def)
  then show ?thesis using new flag inv(3) run by (intro sys_invI) (auto simp: panic_of_def split: if_splits)
qed

lemma sys_inv_receive:
  assumes "sys_inv s" and "n < length (cbChans (syBus s))"
  shows "sys_inv (s\<lparr>syBus := snd (receive_event n (syBus s))\<rparr>)"
proof (cases "chBuffer (cbChans (syBus s) ! n)")
  case Nil
  then show ?thesis using assms(1) by (simp add: receive_event_def)
next
  case (Cons x xs)
  let ?c = "syBus s"
  let ?ch = "(cbChans ?c ! n)\<lparr>chBuffer := xs\<rparr>"
  note inv = sys_invD [OF assms(1)]
  have fits: "length (chBuffer ?ch) \<le> chCap ?ch" using contents_okD(1) [OF inv(2) assms(2)] Cons by simp
  have topics: "evTopic e = topic" if "n \<in> set (topic_chans topic ?c)" "e \<in> set (chBuffer ?ch)" for topic e
    using contents_okD(2) [OF inv(2) assms(2) that(1), of e] that(2) Cons by simp
  have flag: "chClosed ?ch = cbClosed ?c" using bus_invD(8) [OF inv(1) assms(2)] by simp
  note new = replace_chan [OF inv(1,2) assms(2) flag fits topics]
  then show ?thesis using inv(3) Cons assms(1)
    by (intro sys_invI) (simp_all add: receive_event_def sys_inv_def)
qed

lemma sys_inv_subscribe:
  assumes "sys_inv s" and "\<forall>g e ns. syThreads s g \<noteq> Some (Delivering e ns)" and "Subscribe topic (syBus s) = (Ok n, c)"
    and "length (cbChans (syBus s)) < 2 ^ 64"
  shows "sys_inv (s\<lparr>syBus := c\<rparr>)"
proof -
  let ?c = "syBus s"
  note inv = sys_invD [OF assms(1)]
  have c: "c = add_subscriber topic ?c" and live: "\<not> cbClosed ?c" using assms(3) by (auto simp: Subscribe_def split: if_splits)
  have chans: "topic_chans t c = topic_chans t ?c @ (if t = topic then [length (cbChans ?c)] else [])" for t
    by (simp add: c topic_chans_def topic_subs_added_fresh [OF inv(1) assms(4)])
  have heap: "cbChans c = cbChans ?c @ [make_chan (channelBuffer ?c)]" by (simp add: c add_subscriber_def)
  have "contents_ok c" unfolding contents_ok_def
  proof (intro allI impI)
    fix k assume k: "k < length (cbChans c)"
    show "length (chBuffer (cbChans c ! k)) \<le> chCap (cbChans c ! k)
        \<and> (\<forall>t. k \<in> set (topic_chans t c) \<longrightarrow> (\<forall>e\<in>set (chBuffer (cbChans c ! k)). evTopic e = t))"
    proof (cases "k < length (cbChans ?c)")
      case True
      then show ?thesis using contents_okD [OF inv(2) True] by (auto simp: heap chans nth_append split: if_splits)
    next
      case False
      then show ?thesis using k by (simp add: heap nth_append make_chan_def)
    qed
  qed
  moreover have "bus_inv c" using bus_inv_subscribe [OF inv(1) assms(4) live] c by simp
  moreover have "busy_ok c th" if "syThreads s g = Some th" for g th
    using that assms(2) live by (cases th) (auto simp: busy_ok_def c add_subscriber_def)
  ultimately show ?thesis using assms(1) by (intro sys_invI) (auto simp: sys_inv_def)
qed

lemma sys_inv_close:
  assumes "sys_inv s" and "\<forall>g. syThreads s g = None" and "\<not> cbClosed (syBus s)" and "close_subscribers (syBus s) = (r, c)"
  shows "sys_inv (s\<lparr>syBus := c, syCrash := panic_of r\<rparr>)"
proof -
  note inv = sys_invD [OF assms(1)]
  have c: "r = Ok ()" "c = (syBus s)\<lparr>cbClosed := True, cbChans := map (\<lambda>ch. ch\<lparr>chClosed := True\<rparr>) (cbChans (syBus s)), subscribers := []\<rparr>"
    using close_subscribers_inv [OF inv(1) assms(3)] assms(4) by simp_all
  have "bus_inv c" using bus_inv_close [OF inv(1) assms(3)] assms(4) by simp
  moreover have "contents_ok c" using contents_okD(1) [OF inv(2)]
    by (simp add: c contents_ok_def topic_chans_def topic_subs_def)
  ultimately show ?thesis using assms(2) c(1) by (intro sys_invI) (simp_all add: panic_of_def)
qed

lemma sys_inv_threads:
  assumes "sys_inv s" and "\<And>th'. th = Some th' \<Longrightarrow> busy_ok (syBus s) th'"
  shows "sys_inv (s\<lparr>syThreads := (syThreads s)(g := th)\<rparr>)"
  using assms by (intro sys_invI) (auto simp: sys_inv_def split: if_splits)

text \<open>Channels are only ever added, so a bound on their number at the end holds throughout.\<close>

lemma bus_step_grows: "bus_step s s' \<Longrightarrow> length (cbChans (syBus s)) \<le> length (cbChans (syBus s'))"
proof (induction rule: bus_step.induct)
  case (send_one s g e n ns r chs)
  then show ?case by (auto simp: on_chan_def split: if_splits result.splits)
next
  case (subscribe s topic n c)
  then show ?case by (auto simp: Subscribe_def add_subscriber_def split: if_splits)
next
  case (close s r c)
  have "length (snd (on_chans ns f chs)) = length chs" for ns f chs
  proof (induction ns arbitrary: chs)
    case (Cons n ns)
    have "length (snd (on_chan n f chs)) = length chs" by (simp add: on_chan_def split: result.split)
    then show ?case using Cons by (auto simp: cmd_then_def split: prod.splits result.splits)
  qed simp
  from this [of "concat (map (map snd \<circ> snd) (subscribers (syBus s)))" close_chan "cbChans (syBus s)"]
  show ?case using close by (auto simp: close_subscribers_def split: prod.splits)
next
  case (receive s n)
  then show ?case by (simp add: receive_event_def split: list.split)
qed simp_all

lemma sys_inv_step:
  assumes "bus_step s s'" and "sys_inv s" and "length (cbChans (syBus s')) \<le> 2 ^ 64"
  shows "sys_inv s'"
  using assms
proof (induction rule: bus_step.induct)
  case (begin_delivery s g ns e)
  then have "busy_ok (syBus s) (Delivering e ns)" by (simp add: busy_ok_def) (metis order_refl set_mset_mset)
  then show ?case using sys_inv_threads [OF begin_delivery(5), of "Some (Delivering e ns)" g] by simp
next
  case (send_one s g e n ns r chs)
  then show ?case using sys_inv_send by blast
next
  case (start_broadcast s g e)
  then have "busy_ok (syBus s) Broadcasting" using sys_invD(3) [OF start_broadcast(3,2)] by (simp add: busy_ok_def)
  then show ?case using sys_inv_threads [OF start_broadcast(3), of "Some Broadcasting" g] by simp
next
  case (release s g e)
  then show ?case using sys_inv_threads [of s None g] by simp
next
  case (subscribe s topic n c)
  have "length (cbChans (syBus s)) < 2 ^ 64"
    using subscribe(3,5) by (auto simp: Subscribe_def add_subscriber_def split: if_splits)
  then show ?case using sys_inv_subscribe subscribe by blast
next
  case (close s r c)
  then show ?case using sys_inv_close by blast
next
  case (receive s n)
  then show ?case using sys_inv_receive by blast
qed

text \<open>
  C15. No interleaving of the calls on a bus panics: in particular no delivery sends on a channel that
  \<^verbatim>\<open>Close\<close> has closed and no channel is closed twice. No channel ever holds more events than its
  capacity or an event of another topic, and once the bus is closed every channel is closed and no
  delivery or broadcast is under way.
\<close>

theorem bus_calls_safe:
  assumes "bus_step\<^sup>*\<^sup>* (bus_start n) s" and "length (cbChans (syBus s)) \<le> 2 ^ 64"
  shows "syCrash s = None
    \<and> (\<forall>ch \<in> set (cbChans (syBus s)). length (chBuffer ch) \<le> chCap ch)
    \<and> (\<forall>topic k e. k \<in> set (topic_chans topic (syBus s)) \<longrightarrow> e \<in> set (chBuffer (cbChans (syBus s) ! k)) \<longrightarrow> evTopic e = topic)
    \<and> (cbClosed (syBus s) \<longrightarrow> (\<forall>ch \<in> set (cbChans (syBus s)). chClosed ch) \<and> syThreads s = Map.empty)"
proof -
  have "sys_inv s" using assms
  proof (induction rule: rtranclp_induct)
    case base
    show ?case using bus_inv_new by (simp add: sys_inv_def bus_start_def contents_ok_def new_controller_def)
  next
    case (step s s')
    then have "sys_inv s" using bus_step_grows [OF step(2)] by simp
    then show ?case using sys_inv_step [OF step(2)] step.prems by blast
  qed
  note inv = sys_invD [OF this] and bus = bus_invD [OF sys_invD(1) [OF this]]
  have "length (chBuffer ch) \<le> chCap ch" if "ch \<in> set (cbChans (syBus s))" for ch
    using that contents_okD(1) [OF inv(2)] by (metis in_set_conv_nth)
  moreover have "evTopic e = topic" if "k \<in> set (topic_chans topic (syBus s))" "e \<in> set (chBuffer (cbChans (syBus s) ! k))" for topic k e
    using contents_okD(2) [OF inv(2) bus(4) [OF that(1)] that] .
  moreover have "syThreads s g = None" if "cbClosed (syBus s)" for g
    using inv(3) [of g] that by (cases "syThreads s g") (auto simp: busy_ok_def)
  ultimately show ?thesis using \<open>sys_inv s\<close> bus(9) by (auto simp: sys_inv_def)
qed

definition example_event :: Event where
  "example_event = \<lparr>evTopic = ''news'', evPayload = Some [1], evPeerID = ''p1'', evTimestamp = 5\<rparr>"

theorem bus_calls_safe_witness:
  "\<exists>s. bus_step\<^sup>*\<^sup>* (bus_start 1) s \<and> length (cbChans (syBus s)) = 1 \<and> syThreads s 0 = Some (Delivering example_event [])
     \<and> chBuffer (cbChans (syBus s) ! 0) = [example_event] \<and> syCrash s = None"
proof -
  let ?c = "add_subscriber ''news'' (new_controller 1 False False)"
  let ?s1 = "(bus_start 1)\<lparr>syBus := ?c\<rparr>"
  let ?s2 = "?s1\<lparr>syThreads := (syThreads ?s1)(0 \<mapsto> Delivering example_event [0])\<rparr>"
  let ?chs = "[(make_chan 1)\<lparr>chBuffer := [example_event]\<rparr>]"
  let ?s3 = "?s2\<lparr>syBus := (syBus ?s2)\<lparr>cbChans := ?chs\<rparr>, syThreads := (syThreads ?s2)(0 \<mapsto> Delivering example_event []), syCrash := panic_of (Ok ())\<rparr>"
  note defs = bus_start_def new_controller_def add_subscriber_def topic_subs_def topic_chans_def make_chan_def panic_of_def
    cloneEvent_def cloneBytes_def try_send_def on_chan_def example_event_def Subscribe_def
  have "bus_step (bus_start 1) ?s1" by (rule subscribe [where topic = "''news''" and n = 0]) (simp_all add: defs)
  moreover have "bus_step ?s1 ?s2" by (rule begin_delivery) (simp_all add: defs)
  moreover have "bus_step ?s2 ?s3" by (rule send_one [of ?s2 0 example_event 0 "[]" "Ok ()" ?chs]) (simp_all add: defs)
  ultimately have run: "bus_step\<^sup>*\<^sup>* (bus_start 1) ?s3" by (meson converse_rtranclp_into_rtranclp rtranclp.rtrancl_refl)
  have len: "length (cbChans (syBus ?s3)) \<le> 2 ^ 64" by simp
  from bus_calls_safe [OF run len] run show ?thesis by (intro exI [of _ ?s3]) simp
qed

text \<open>A publisher connected to one peer, and that peer, each with a subscriber.\<close>

definition news :: Payload where
  "news = PWireEvent \<lparr>weTopic = ''news'', wePayload = Some [1]\<rparr>"

definition news_message :: Message where
  "news_message = \<lparr>mID = ''m9'', mType = contentEventMessageType, mFrom = ''me'', mTo = [], mTimestamp = Some 1,
     mPayload = Some [], mReplyTo = []\<rparr>"

definition bus_crypto :: "(string, bytes, bytes, bytes, bytes, unit) crypto" where
  "bus_crypto = \<lparr>crJSON = text_json [news] [news_message], crEnvelope = bare_envelopes, crAEAD = tag_aead,
     crKeys = plain_keys [], crNode = node_manager ''me'' [1], crTree = (\<lambda>_. None)\<rparr>"

definition news_bus :: controller where
  "news_bus = add_subscriber ''news'' (new_controller 1 False False)"

definition news_node :: "(bytes, unit, string \<Rightarrow> string option) bus_node" where
  "news_node = \<lparr>bnBus = news_bus, bnNode = node_manager ''me'' [1], bnTransport = sender_example, bnFiles = Map.empty\<rparr>"

lemma news_bus_facts: "bus_inv news_bus" "\<not> cbClosed news_bus" "topic_chans ''news'' news_bus = [0]"
  using bus_inv_subscribe [OF bus_inv_new, of 1 False False "''news''"]
  by (simp_all add: news_bus_def new_controller_def add_subscriber_def topic_chans_def topic_subs_def)

lemma news_sent:
  "NewMessage (crJSON bus_crypto) ''m9'' 1 contentEventMessageType ''me'' [] (Some news) = Ok news_message"
  "json_faithful (crJSON bus_crypto) news" "wire_faithful (crJSON bus_crypto) bare_envelopes news_message"
proof -
  show "NewMessage (crJSON bus_crypto) ''m9'' 1 contentEventMessageType ''me'' [] (Some news) = Ok news_message"
    by (simp add: bus_crypto_def NewMessage_def text_json_def table_json_def unescapeHTML_def news_message_def bytes_of_def)
  show "json_faithful (crJSON bus_crypto) news"
    using json_faithful_table [of news "[news]"] by (simp add: bus_crypto_def json_faithful_def text_json_def table_json_def unescapeHTML_def)
  show "wire_faithful (crJSON bus_crypto) bare_envelopes news_message"
    by (simp add: wire_faithful_def marshalMessageJSON_def decodeMessageJSON_def bus_crypto_def text_json_def table_json_def
        unescapeHTML_def wire_of_def bare_envelopes_def news_message_def)
qed


definition example_host :: "(bytes, bytes, bytes, unit, string \<Rightarrow> string option) host" where
  "example_host = \<lparr>hoKeys = plain_keys [1], hoFS = map_fs, hoRename = map_rename, hoIdentityJSON = one_identity (node_identity ''me'' [1]),
     hoRegistryJSON = one_list_json [], hoTree = (\<lambda>_. None), hoKeyPath = Ok ''key'', hoConfigPath = Ok ''cfg'', hoPeersPath = Ok ''peers'',
     hoNow = 0, hoErrorJoin = (\<lambda>a b. a)\<rparr>"

definition example_options :: "(bytes, unit) Option option list" where
  "example_options = [Some (WithNodeManager (Some (node_manager ''me'' [1]))), None, Some (WithTransport (Some sender_example)), Some (WithChannelBuffer 1)]"

definition example_calls :: "bus_op list" where
  "example_calls =
     [DoPublish 3 (ambient_example ''a'') (\<lambda>_. ambient_example []) ''news'' (Some [1]),
      DoPublish 4 (ambient_example ''b'') (\<lambda>_. ambient_example []) ''other'' (Some [2]),
      DoPublish 5 (ambient_example ''c'') (\<lambda>_. ambient_example []) ''news'' (Some [3]), DoClose (\<lambda>_. ambient_example []) None]"

theorem subscriber_view_witness:
  "\<exists>s0 s2. NewBusController example_host bus_crypto (\<lambda>_. ambient_example []) None example_options Map.empty = (Ok s0, Map.empty)
     \<and> s2 = fold (bus_exec bus_crypto map_fs map_rename (one_list_json [])) example_calls (s0\<lparr>bnBus := snd (Subscribe ''news'' (bnBus s0))\<rparr>)
     \<and> cbChans (bnBus s2) ! 0 =
         \<lparr>chBuffer = [\<lparr>evTopic = ''news'', evPayload = Some [1], evPeerID = ''me'', evTimestamp = 3\<rparr>], chCap = 1, chClosed = True\<rparr>"
proof -
  let ?s0 = "\<lparr>bnBus = new_controller 1 False False, bnNode = node_manager ''me'' [1],
    bnTransport = OnMessage ContentBusHandleMessage sender_example, bnFiles = Map.empty\<rparr> :: (bytes, unit, string \<Rightarrow> string option) bus_node"
  let ?c = "add_subscriber ''news'' (bnBus ?s0)"
  have new: "NewBusController example_host bus_crypto (\<lambda>_. ambient_example []) None example_options Map.empty = (Ok ?s0, Map.empty)"
    by (simp add: NewBusController_def example_options_def default_options_def WithNodeManager_def WithTransport_def WithChannelBuffer_def
        cmd_map_err_def choose_node_def choose_transport_def Let_def)
  have sub: "Subscribe ''news'' (bnBus ?s0) = (Ok 0, ?c)" by (simp add: Subscribe_def new_controller_def)
  have "GetIdentity (node_manager ''me'' [1]) = Some (node_identity ''me'' [1])" by (simp add: GetIdentity_def node_manager_def)
  then have "cbChans (bnBus (fold (bus_exec bus_crypto map_fs map_rename (one_list_json [])) example_calls (?s0\<lparr>bnBus := ?c\<rparr>))) ! 0 =
      \<lparr>chBuffer = [\<lparr>evTopic = ''news'', evPayload = Some [1], evPeerID = ''me'', evTimestamp = 3\<rparr>], chCap = 1, chClosed = True\<rparr>"
    using subscriber_view [OF new _ sub refl, where F = map_fs and ren = map_rename and J = "one_list_json []" and earlier = "[]" and later = example_calls]
    by (simp add: example_calls_def cloneBytes_def make_chan_def offered_def new_controller_def)
  then show ?thesis using new sub by auto
qed

end
