(* ===== verification/HTTP_API.thy ===== *)
theory HTTP_API
  imports Transport_Net
begin

text \<open>
  The HTTP surface, \<^verbatim>\<open>src/go/pkg/api/handlers.go\<close> and \<^verbatim>\<open>src/go/pkg/api/provider.go\<close>.

  The web framework is outside the repository: a handler takes what the framework extracts from the
  request, the path parameter and the bound body, with \<open>None\<close> for a body that does not bind, and gives
  the response, a status and a body. \<open>trim\<close> is the library's trimming of a string, \<open>errText\<close> the text of
  a failed result. A handler called without a context does nothing and is left out.
\<close>

section \<open>Requests and responses\<close>

definition StatusOK :: int where "StatusOK = 200"
definition StatusBadRequest :: int where "StatusBadRequest = 400"
definition StatusNotImplemented :: int where "StatusNotImplemented = 501"
definition StatusServiceUnavailable :: int where "StatusServiceUnavailable = 503"

definition codeInvalidRequest :: string where "codeInvalidRequest = ''invalid_request''"
definition codeInvalidTopic :: string where "codeInvalidTopic = ''invalid_topic''"
definition codeProviderUnconfigured :: string where "codeProviderUnconfigured = ''provider_unconfigured''"
definition codePeerMismatch :: string where "codePeerMismatch = ''peer_id_mismatch''"
definition codePeerRejected :: string where "codePeerRejected = ''peer_rejected''"
definition codeNotImplemented :: string where "codeNotImplemented = ''not_implemented''"

record uploadRequest =
  urTopic :: string
  urEncryptedBlob :: string

record healthResponse =
  hrOK :: bool
  hrPeerCount :: nat
  hrConnectedPeers :: nat
  hrSwarmState :: string
  hrError :: string
  hrCode :: string

record peersResponse =
  prCount :: nat
  prPeers :: "Peer list"

record announceResponse =
  arOK :: bool
  arAction :: string
  arPeer :: Peer

text \<open>A body is one of the response structs or a map from strings to strings.\<close>

datatype response_body =
    Fields "(string \<times> string) list"
  | Health healthResponse
  | Peers peersResponse
  | Announce announceResponse

type_synonym response = "int \<times> response_body"

record 'kd P2PProvider =
  pvRegistry :: "'kd PeerRegistry option"
  pvTransport :: "'kd Transport option"

definition NewProvider :: "'kd PeerRegistry option \<Rightarrow> 'kd Transport option \<Rightarrow> 'kd P2PProvider" where
  "NewProvider registry transport = \<lparr>pvRegistry = registry, pvTransport = transport\<rparr>"

text \<open>The registry of a provider that may itself be nil.\<close>

definition registry_of :: "'kd P2PProvider option \<Rightarrow> 'kd PeerRegistry option" where
  "registry_of p = (case p of None \<Rightarrow> None | Some pv \<Rightarrow> pvRegistry pv)"

section \<open>Handlers\<close>

definition writeError :: "int \<Rightarrow> string \<Rightarrow> string \<Rightarrow> response" where
  "writeError status code message = (status, Fields [(''error'', message), (''code'', code)])"

definition writeNotImplemented :: "string \<Rightarrow> string \<Rightarrow> (string \<times> string) list list \<Rightarrow> response" where
  "writeNotImplemented operation todo extra =
     (StatusNotImplemented, Fields (fold (fold (\<lambda>(k, v). AList.update k v)) extra
        [(''error'', ''not implemented''), (''code'', codeNotImplemented), (''operation'', operation), (''todo'', todo)]))"

definition uploadEncryptedBlob :: "(string \<Rightarrow> string) \<Rightarrow> uploadRequest option \<Rightarrow> response" where
  "uploadEncryptedBlob trim bound =
     (case bound of
        None \<Rightarrow> writeError StatusBadRequest codeInvalidRequest ''upload request body must be valid JSON''
      | Some req \<Rightarrow>
          if trim (urEncryptedBlob req) = []
          then writeError StatusBadRequest codeInvalidRequest ''encryptedBlob is required''
          else writeNotImplemented ''upload'' ''go-p2p library work: encrypted swarm blob upload primitive'' [])"

definition syncTopicEvents :: "(string \<Rightarrow> string) \<Rightarrow> string \<Rightarrow> response" where
  "syncTopicEvents trim param =
     (let topic = trim param in
      if topic = [] then writeError StatusBadRequest codeInvalidTopic ''topic is required''
      else writeNotImplemented ''sync'' ''go-p2p library work: topic event sync primitive'' [[(''topic'', topic)]])"

text \<open>
  The announced peer is one object: what the registry's functions set in it shows in the response.
  \<open>now\<close> is the clock of the handler, \<open>later\<close> that of the registry.
\<close>

definition accept_announcement :: "(go_error \<Rightarrow> string) \<Rightarrow> string \<Rightarrow> Peer \<Rightarrow> ('kd PeerRegistry, unit) cmd \<Rightarrow> 'kd PeerRegistry \<Rightarrow> response result \<times> 'kd PeerRegistry" where
  "accept_announcement errText action peer m r =
     (case m r of
        (Ok _, r') \<Rightarrow> (Ok (StatusOK, Announce \<lparr>arOK = True, arAction = action, arPeer = peer\<rparr>), r')
      | (Fail e, r') \<Rightarrow> (Ok (writeError StatusBadRequest codePeerRejected (errText e)), r')
      | (Panic q, r') \<Rightarrow> (Panic q, r'))"

definition announce_on :: "(string \<Rightarrow> string) \<Rightarrow> (go_error \<Rightarrow> string) \<Rightarrow> (KDPoint list \<Rightarrow> 'kd option) \<Rightarrow> instant \<Rightarrow> instant
    \<Rightarrow> string \<Rightarrow> Peer option \<Rightarrow> ('kd PeerRegistry, response) cmd" where
  "announce_on trim errText mk now later param bound r =
     (let i = trim param in
      if i = [] then (Ok (writeError StatusBadRequest codeInvalidRequest ''peer id is required''), r)
      else case bound of
          None \<Rightarrow> (Ok (writeError StatusBadRequest codeInvalidRequest ''peer announcement body must be valid JSON''), r)
        | Some body \<Rightarrow>
            if ID body \<noteq> [] \<and> ID body \<noteq> i
            then (Ok (writeError StatusBadRequest codePeerMismatch ''peer id in path and body must match''), r)
            else
              (let peer = body\<lparr>ID := i, LastSeen := (case LastSeen body of None \<Rightarrow> Some now | Some t \<Rightarrow> Some t)\<rparr> in
               case GetPeer i r of
                 Some existing \<Rightarrow>
                   (let peer1 = (if AddedAt peer = None then peer\<lparr>AddedAt := AddedAt existing\<rparr> else peer);
                        peer2 = (if f64_eq (Score peer1) (Fin 0) then peer1\<lparr>Score := Score existing\<rparr> else peer1)
                    in accept_announcement errText ''updated'' peer2 (UpdatePeer mk peer2) r)
               | None \<Rightarrow> accept_announcement errText ''announced'' (added_peer later peer) (AddPeer mk later peer) r))"

text \<open>The handler on a provider: without a registry it refuses.\<close>

definition announcePeer :: "(string \<Rightarrow> string) \<Rightarrow> (go_error \<Rightarrow> string) \<Rightarrow> (KDPoint list \<Rightarrow> 'kd option) \<Rightarrow> instant \<Rightarrow> instant
    \<Rightarrow> string \<Rightarrow> Peer option \<Rightarrow> ('kd P2PProvider option, response) cmd" where
  "announcePeer trim errText mk now later param bound p =
     (case (p, registry_of p) of
        (Some pv, Some r) \<Rightarrow>
          (case announce_on trim errText mk now later param bound r of
             (resp, r') \<Rightarrow> (resp, Some (pv\<lparr>pvRegistry := Some r'\<rparr>)))
      | _ \<Rightarrow> (Ok (writeError StatusServiceUnavailable codeProviderUnconfigured ''peer registry is not configured''), p))"

definition swarmState :: "nat \<Rightarrow> nat \<Rightarrow> string" where
  "swarmState peerCount connectedPeers =
     (if peerCount = 0 then ''empty'' else if connectedPeers > 0 then ''connected'' else ''idle'')"

definition health :: "'kd P2PProvider option \<Rightarrow> response" where
  "health p =
     (case registry_of p of
        None \<Rightarrow> (StatusServiceUnavailable, Health \<lparr>hrOK = False, hrPeerCount = 0, hrConnectedPeers = 0, hrSwarmState = ''unconfigured'',
                   hrError = ''peer registry is not configured'', hrCode = codeProviderUnconfigured\<rparr>)
      | Some r \<Rightarrow>
          (let peerCount = Count r;
               connectedPeers = (case p of Some pv \<Rightarrow> (case pvTransport pv of Some t \<Rightarrow> ConnectedPeers t | None \<Rightarrow> length (GetConnectedPeers r))
                                 | None \<Rightarrow> length (GetConnectedPeers r))
           in (StatusOK, Health \<lparr>hrOK = True, hrPeerCount = peerCount, hrConnectedPeers = connectedPeers,
                 hrSwarmState = swarmState peerCount connectedPeers, hrError = [], hrCode = []\<rparr>)))"

definition listPeers :: "'kd P2PProvider option \<Rightarrow> response" where
  "listPeers p =
     (case registry_of p of
        None \<Rightarrow> writeError StatusServiceUnavailable codeProviderUnconfigured ''peer registry is not configured''
      | Some r \<Rightarrow> (StatusOK, Peers \<lparr>prCount = length (ListPeers r), prPeers = ListPeers r\<rparr>))"

section \<open>Routes\<close>

datatype handler = UploadEncryptedBlob | SyncTopicEvents | AnnouncePeer | GetHealth | GetPeers

definition Name_api :: string where "Name_api = ''p2p''"
definition BasePath :: string where "BasePath = ''/v1/p2p''"
definition Channels :: "string list" where "Channels = [''p2p'']"

text \<open>Nothing is registered for a nil provider or on a nil group.\<close>

definition RegisterRoutes :: "'kd P2PProvider option \<Rightarrow> bool \<Rightarrow> (string \<times> string \<times> handler) list" where
  "RegisterRoutes p hasGroup =
     (if p = None \<or> \<not> hasGroup then []
      else [(''POST'', ''/upload'', UploadEncryptedBlob), (''GET'', ''/sync/:topic'', SyncTopicEvents),
            (''POST'', ''/peer/:id/announce'', AnnouncePeer), (''GET'', ''/health'', GetHealth), (''GET'', ''/peers'', GetPeers)])"

section \<open>The described interface\<close>

text \<open>
  \<^verbatim>\<open>Describe\<close> gives the routes as data for an interface document. A schema is a Go \<^verbatim>\<open>map[string]any\<close>
  whose values are strings, lists of strings or schemas; the fields are those of the library's struct
  that are set here.
\<close>

datatype schema = Str string | Strs "string list" | Obj "(string \<times> schema) list"

record RouteDescription =
  rdMethod :: string
  rdPath :: string
  rdSummary :: string
  rdDescription :: string
  rdTags :: "string list"
  rdRequestBody :: "schema option"
  rdResponse :: schema

definition typed :: "string \<Rightarrow> schema" where
  "typed t = Obj [(''type'', Str t)]"

definition object_of :: "(string \<times> schema) list \<Rightarrow> schema" where
  "object_of props = Obj [(''type'', Str ''object''), (''properties'', Obj props)]"

definition notImplementedSchema :: schema where
  "notImplementedSchema = object_of [(''error'', typed ''string''), (''code'', typed ''string''),
     (''operation'', typed ''string''), (''todo'', typed ''string'')]"

definition Describe :: "RouteDescription list" where
  "Describe =
     [\<lparr>rdMethod = ''POST'', rdPath = ''/upload'', rdSummary = ''Upload an encrypted blob to the swarm'',
       rdDescription = ''Accepts an encrypted blob upload request. The route currently returns 501 until the go-p2p encrypted swarm upload primitive lands.'',
       rdTags = [''p2p''],
       rdRequestBody = Some (Obj [(''type'', Str ''object''), (''required'', Strs [''encryptedBlob'']),
         (''properties'', Obj [(''topic'', typed ''string''),
            (''encryptedBlob'', Obj [(''type'', Str ''string''), (''description'', Str ''Caller-encrypted blob payload.'')])])]),
       rdResponse = notImplementedSchema\<rparr>,
      \<lparr>rdMethod = ''GET'', rdPath = ''/sync/:topic'', rdSummary = ''Sync topic events'',
       rdDescription = ''Returns 501 until the go-p2p library exposes an HTTP-friendly topic event sync primitive.'',
       rdTags = [''p2p''], rdRequestBody = None, rdResponse = notImplementedSchema\<rparr>,
      \<lparr>rdMethod = ''POST'', rdPath = ''/peer/:id/announce'', rdSummary = ''Announce a peer'',
       rdDescription = ''Adds or updates a peer in the local peer registry.'', rdTags = [''p2p''],
       rdRequestBody = Some (object_of [(''id'', typed ''string''), (''name'', typed ''string''), (''publicKey'', typed ''string''),
         (''address'', typed ''string''), (''role'', typed ''string'')]),
       rdResponse = object_of [(''ok'', typed ''boolean''), (''action'', typed ''string''), (''peer'', typed ''object'')]\<rparr>,
      \<lparr>rdMethod = ''GET'', rdPath = ''/health'', rdSummary = ''Get P2P health'',
       rdDescription = ''Reports peer count, connected peer count, and swarm state.'', rdTags = [''p2p''], rdRequestBody = None,
       rdResponse = object_of [(''ok'', typed ''boolean''), (''peerCount'', typed ''integer''), (''connectedPeers'', typed ''integer''),
         (''swarmState'', typed ''string''), (''error'', typed ''string''), (''code'', typed ''string'')]\<rparr>,
      \<lparr>rdMethod = ''GET'', rdPath = ''/peers'', rdSummary = ''List peers'',
       rdDescription = ''Returns the local peer roster from the go-p2p peer registry.'', rdTags = [''p2p''], rdRequestBody = None,
       rdResponse = object_of [(''count'', typed ''integer''),
         (''peers'', Obj [(''type'', Str ''array''), (''items'', typed ''object'')])]\<rparr>]"

text \<open>The description covers the registered routes, in the same order.\<close>

lemma described_routes:
  "map (\<lambda>d. (rdMethod d, rdPath d)) Describe = map (\<lambda>(verb, path, _). (verb, path)) (RegisterRoutes (Some p) True)"
  by (simp add: Describe_def RegisterRoutes_def)

text \<open>
  A response that says the operation is not implemented has the described properties, and further ones
  only if the handler adds them.
\<close>

definition schema_properties :: "schema \<Rightarrow> string set" where
  "schema_properties s =
     (case s of Obj ps \<Rightarrow> (case map_of ps ''properties'' of Some (Obj qs) \<Rightarrow> fst ` set qs | _ \<Rightarrow> {}) | _ \<Rightarrow> {})"

lemma updates_keys: "fst ` set (fold (\<lambda>(k, v). AList.update k v) kvs m) = fst ` set m \<union> fst ` set kvs"
  by (induction kvs arbitrary: m) (simp_all add: dom_update case_prod_unfold)

lemma fold_updates_keys:
  "fst ` set (fold (fold (\<lambda>(k, v). AList.update k v)) extra m) = fst ` set m \<union> fst ` (\<Union>kvs \<in> set extra. set kvs)"
  by (induction extra arbitrary: m) (simp_all add: updates_keys image_Un Un_assoc)

lemma not_implemented_described:
  "\<exists>fs. writeNotImplemented operation todo extra = (StatusNotImplemented, Fields fs)
     \<and> fst ` set fs = schema_properties notImplementedSchema \<union> fst ` (\<Union>kvs \<in> set extra. set kvs)"
  by (simp add: writeNotImplemented_def fold_updates_keys schema_properties_def notImplementedSchema_def object_of_def)

section \<open>Announcements\<close>

text \<open>What is stored for an announcement: the body, completed from the path, the clock and the peer known so far.\<close>

definition announced :: "instant \<Rightarrow> instant \<Rightarrow> string \<Rightarrow> Peer \<Rightarrow> Peer option \<Rightarrow> Peer" where
  "announced now later i body known =
     body\<lparr>ID := i,
       LastSeen := Some (case LastSeen body of None \<Rightarrow> now | Some t \<Rightarrow> t),
       AddedAt := (case AddedAt body of Some t \<Rightarrow> Some t | None \<Rightarrow> (case known of None \<Rightarrow> Some later | Some p \<Rightarrow> AddedAt p)),
       Score := (if f64_eq (Score body) (Fin 0) then (case known of None \<Rightarrow> Fin 50 | Some p \<Rightarrow> Score p) else Score body)\<rparr>"

text \<open>When an announcement is accepted: a valid name is asked only of a peer that is new.\<close>

definition acceptable :: "string \<Rightarrow> Peer option \<Rightarrow> Peer option \<Rightarrow> bool" where
  "acceptable i bound known \<longleftrightarrow> i \<noteq> [] \<and>
     (case bound of None \<Rightarrow> False
      | Some body \<Rightarrow> (ID body = [] \<or> ID body = i) \<and> (known = None \<longrightarrow> validatePeerName (Name body) = Ok ()))"

lemma save_peers: "\<exists>r'. save r = (Ok (), r') \<and> peers r' = peers r"
  using save_simps(1,2) [of r] by (metis prod.collapse)

lemma UpdatePeer_known:
  assumes "GetPeer (ID p) r = Some q"
  shows "\<exists>r'. UpdatePeer mk p r = (Ok (), r') \<and> (\<forall>j. GetPeer j r' = (if j = ID p then Some p else GetPeer j r))"
  using assms save_peers [of "rebuildKDTree mk (r\<lparr>peers := AList.update (ID p) p (peers r)\<rparr>)"]
  by (auto simp: UpdatePeer_def GetPeer_def update_conv')

lemma AddPeer_new:
  assumes "GetPeer (ID p) r = None" and "ID p \<noteq> []" and "validatePeerName (Name p) = Ok ()"
  shows "\<exists>r'. AddPeer mk now p r = (Ok (), r') \<and> (\<forall>j. GetPeer j r' = (if j = ID p then Some (added_peer now p) else GetPeer j r))"
  using assms save_peers [of "rebuildKDTree mk (r\<lparr>peers := AList.update (ID p) (added_peer now p) (peers r)\<rparr>)"]
  by (auto simp: AddPeer_addable addable_def GetPeer_def update_conv')

lemma AddPeer_bad_name:
  assumes "ID p \<noteq> []" and "validatePeerName (Name p) \<noteq> Ok ()"
  shows "\<exists>e. AddPeer mk now p r = (Fail e, r)"
  using assms by (auto simp: AddPeer_def validatePeerName_def split: if_splits)

text \<open>
  C40. An announcement is answered with success exactly when it has an identifier in the path, a body
  that binds and does not contradict it, and, for a peer not registered before, a valid name. Then the
  registry holds the announced peer, completed with the known or default values, as the response says,
  and every other peer unchanged. Otherwise the answer is a client error and the registry is untouched.
\<close>

theorem announce_spec:
  assumes "pvRegistry pv = Some r"
  shows "\<exists>status body r'. announcePeer trim errText mk now later param bound (Some pv) = (Ok (status, body), Some (pv\<lparr>pvRegistry := Some r'\<rparr>))
    \<and> (let i = trim param; known = GetPeer i r in
       if acceptable i bound known
       then let p = announced now later i (the bound) known in
         status = StatusOK
         \<and> body = Announce \<lparr>arOK = True, arAction = (if known = None then ''announced'' else ''updated''), arPeer = p\<rparr>
         \<and> (\<forall>j. GetPeer j r' = (if j = i then Some p else GetPeer j r))
       else status = StatusBadRequest \<and> r' = r)"
proof -
  let ?i = "trim param"
  define known where "known = GetPeer ?i r"
  have run: "announcePeer trim errText mk now later param bound (Some pv) =
      (case announce_on trim errText mk now later param bound r of (resp, r') \<Rightarrow> (resp, Some (pv\<lparr>pvRegistry := Some r'\<rparr>)))"
    using assms by (simp add: announcePeer_def registry_of_def)
  show ?thesis
  proof (cases "?i = [] \<or> bound = None \<or> (\<exists>b. bound = Some b \<and> ID b \<noteq> [] \<and> ID b \<noteq> ?i)")
    case True
    then show ?thesis unfolding run
      by (auto simp: announce_on_def Let_def acceptable_def writeError_def split: option.splits)
  next
    case False
    then obtain b where b: "bound = Some b" "ID b = [] \<or> ID b = ?i" and i: "?i \<noteq> []" by auto
    let ?p = "b\<lparr>ID := ?i, LastSeen := (case LastSeen b of None \<Rightarrow> Some now | Some t \<Rightarrow> Some t)\<rparr>"
    let ?a = "announced now later ?i b known"
    have ida: "ID ?a = ?i" by (simp add: announced_def)
    show ?thesis
    proof (cases known)
      case (Some q)
      have "(let p1 = (if AddedAt ?p = None then ?p\<lparr>AddedAt := AddedAt q\<rparr> else ?p)
          in if f64_eq (Score p1) (Fin 0) then p1\<lparr>Score := Score q\<rparr> else p1) = ?a"
        using Some by (cases b) (auto simp: announced_def Let_def split: option.splits)
      moreover obtain r' where "UpdatePeer mk ?a r = (Ok (), r')" "\<forall>j. GetPeer j r' = (if j = ?i then Some ?a else GetPeer j r)"
        using UpdatePeer_known [of ?a r q mk] Some ida by (auto simp: known_def)
      ultimately show ?thesis unfolding run using Some b i
        by (auto simp: announce_on_def accept_announcement_def acceptable_def known_def [symmetric] Let_def)
    next
      case None
      have added: "added_peer later ?p = ?a" using None by (cases b) (auto simp: announced_def added_peer_def Let_def split: option.splits)
      show ?thesis
      proof (cases "validatePeerName (Name b) = Ok ()")
        case True
        then obtain r' where "AddPeer mk later ?p r = (Ok (), r')" "\<forall>j. GetPeer j r' = (if j = ?i then Some (added_peer later ?p) else GetPeer j r)"
          using AddPeer_new [of ?p r mk later] None i by (auto simp: known_def)
        then show ?thesis unfolding run using None b i True added
          by (auto simp: announce_on_def accept_announcement_def acceptable_def known_def [symmetric] Let_def)
      next
        case False
        then obtain e where "AddPeer mk later ?p r = (Fail e, r)" using AddPeer_bad_name [of ?p mk later r] i by auto
        then show ?thesis unfolding run using None b i False
          by (auto simp: announce_on_def accept_announcement_def acceptable_def known_def [symmetric] Let_def writeError_def)
      qed
    qed
  qed
qed

text \<open>
  The connection state is not part of the body, so an announcement of a connected peer makes the
  registry show it as disconnected.
\<close>

lemma announced_connected: "Connected (announced now later i body known) = Connected body"
  by (simp add: announced_def)

theorem announce_spec_witness:
  "\<exists>status body r'. announcePeer (\<lambda>s. s) (\<lambda>_. []) (\<lambda>_. None :: unit option) 3 4 ''p1'' (Some (example_peer\<lparr>ID := [], Name := [], AddedAt := None\<rparr>))
       (Some \<lparr>pvRegistry = Some empty_registry, pvTransport = None\<rparr>) = (Ok (status, body), Some \<lparr>pvRegistry = Some r', pvTransport = None\<rparr>)
     \<and> status = StatusOK \<and> map_option AddedAt (GetPeer ''p1'' r') = Some (Some 4) \<and> GetPeer ''p2'' r' = None"
proof -
  let ?body = "example_peer\<lparr>ID := [], Name := [], AddedAt := None\<rparr>"
  have "acceptable ''p1'' (Some ?body) None" by (simp add: acceptable_def validatePeerName_def)
  moreover have "GetPeer j (empty_registry :: unit PeerRegistry) = None" for j by (simp add: GetPeer_def empty_registry_def)
  moreover have "pvRegistry \<lparr>pvRegistry = Some (empty_registry :: unit PeerRegistry), pvTransport = None\<rparr> = Some empty_registry" by simp
  note announce_spec [OF this, of "\<lambda>s. s" "\<lambda>_. []" "\<lambda>_. None" 3 4 "''p1''" "Some ?body"]
  ultimately show ?thesis by (auto simp: Let_def announced_def)
qed

end
