(* ===== verification/Node_Service.thy ===== *)
theory Node_Service
  imports Transport_Link Peer_Store Controller_Ops
begin

text \<open>
  The service that wires the components together, \<^verbatim>\<open>src/go/node/service.go\<close>, its facade
  \<^verbatim>\<open>src/go/p2p.go\<close>, and the construction of the controller in \<^verbatim>\<open>src/go/node/controller.go\<close>.

  The peer registry is the one the transport holds; the application container the service is
  registered with is not used by any of these functions.
\<close>

section \<open>Construction\<close>

record ServiceOptions =
  soKeyPath :: string
  soConfigPath :: string
  soPeersPath :: string
  soTransportConfig :: TransportConfig

record ('kp, 'kd) Service =
  svNodeManager :: "'kp NodeManager"
  svTransport :: "'kd Transport"
  svController :: table

text \<open>Both the controller and the worker set themselves as the handler of the transport.\<close>

definition NewController :: "'kd Transport \<Rightarrow> table \<times> 'kd Transport" where
  "NewController t = (empty_table, OnMessage ControllerHandleResponse t)"

definition RegisterWithTransport :: "'kd Transport \<Rightarrow> 'kd Transport" where
  "RegisterWithTransport t = OnMessage WorkerHandleMessage t"

definition nodeManagerForOptions :: "('kp, 'pk, 'sk, 'kd, 'f) host \<Rightarrow> ServiceOptions \<Rightarrow> 'f \<Rightarrow> 'kp NodeManager result" where
  "nodeManagerForOptions h opts f =
     (if soKeyPath opts = [] \<and> soConfigPath opts = []
      then NewNodeManager (hoKeys h) (hoFS h) (hoIdentityJSON h) (hoKeyPath h) (hoConfigPath h) f
      else NewNodeManagerWithPaths (hoKeys h) (hoFS h) (hoIdentityJSON h) (soKeyPath opts) (soConfigPath opts) f)"

definition peerRegistryForOptions :: "('kp, 'pk, 'sk, 'kd, 'f) host \<Rightarrow> ServiceOptions \<Rightarrow> 'f \<Rightarrow> 'kd PeerRegistry result" where
  "peerRegistryForOptions h opts f =
     (if soPeersPath opts = []
      then NewPeerRegistry (hoTree h) (hoFS h) (hoRegistryJSON h) (hoPeersPath h) [] f
      else NewPeerRegistryWithPath (hoTree h) (hoFS h) (hoRegistryJSON h) (soPeersPath opts) f)"

definition NewService :: "('kp, 'pk, 'sk, 'kd, 'f) host \<Rightarrow> ServiceOptions \<Rightarrow> 'f \<Rightarrow> ('kp, 'kd) Service result" where
  "NewService h opts f =
     (let err = (\<lambda>msg e. E ''node.NewService'' msg (Some e)) in
      and_then (map_err (err ''node manager construction failed'') (nodeManagerForOptions h opts f)) (\<lambda>nm.
      and_then (map_err (err ''peer registry construction failed'') (peerRegistryForOptions h opts f)) (\<lambda>peers.
        let transportConfig = (if ListenAddr (soTransportConfig opts) = [] then DefaultTransportConfig else soTransportConfig opts);
            (controller, transport) = NewController (NewTransport peers transportConfig)
        in Ok \<lparr>svNodeManager = nm, svTransport = transport, svController = controller\<rparr>)))"

definition zero_options :: ServiceOptions where
  "zero_options = \<lparr>soKeyPath = [], soConfigPath = [], soPeersPath = [],
     soTransportConfig = \<lparr>ListenAddr = [], WSPath = [], TLSCertPath = [], TLSKeyPath = [], MaxConns = 0,
       MaxMessageSize = 0, IdleTimeout = 0, PingInterval = 0, PongTimeout = 0\<rparr>\<rparr>"

definition Register :: "('kp, 'pk, 'sk, 'kd, 'f) host \<Rightarrow> 'f \<Rightarrow> ('kp, 'kd) Service result" where
  "Register h = NewService h zero_options"

text \<open>A nil service or one without a transport cannot be started or stopped.\<close>

definition ServiceStart :: "(('kp, 'kd) Service option, unit) cmd" where
  "ServiceStart s =
     (case s of
        None \<Rightarrow> (Fail (E ''node.Service.Start'' ''transport not configured'' None), s)
      | Some sv \<Rightarrow> (case Start (svTransport sv) of (r, t) \<Rightarrow> (r, Some (sv\<lparr>svTransport := t\<rparr>))))"

definition ServiceStop :: "('any, 'c, 'kp, 'pk, 'sk, 'kd) crypto \<Rightarrow> (nat \<Rightarrow> ambient) \<Rightarrow> go_error option \<Rightarrow> (('kp, 'kd) Service option, unit) cmd" where
  "ServiceStop cr ams shutdownErr s =
     (case s of
        None \<Rightarrow> (Fail (E ''node.Service.Stop'' ''transport not configured'' None), s)
      | Some sv \<Rightarrow> (case Stop cr ams shutdownErr (svTransport sv) of (r, t) \<Rightarrow> (r, Some (sv\<lparr>svTransport := t\<rparr>))))"

section \<open>Restart\<close>

text \<open>Loading the identity reads two files.\<close>

lemma loadIdentity_reads:
  assumes "loadIdentity K F J f n = (Ok (), n')"
  shows "\<exists>c k. fsRead F (nmConfigPath n) f = Ok c \<and> fsRead F (nmKeyPath n) f = Ok k"
  using assms by (auto simp: loadIdentity_def Let_def split: result.splits prod.splits)

lemma loadIdentity_frame:
  assumes "loadIdentity K F J f n = (Ok (), n')"
    and "content F (nmConfigPath n) f' = content F (nmConfigPath n) f" and "content F (nmKeyPath n) f' = content F (nmKeyPath n) f"
  shows "loadIdentity K F J f' n = (Ok (), n')"
proof -
  obtain c k where reads: "fsRead F (nmConfigPath n) f = Ok c" "fsRead F (nmKeyPath n) f = Ok k"
    using loadIdentity_reads [OF assms(1)] by blast
  then have "fsRead F (nmConfigPath n) f' = Ok c" "fsRead F (nmKeyPath n) f' = Ok k"
    using assms(2,3) by (simp_all add: content_def split: result.splits)
  then show ?thesis using assms(1) reads by (simp add: loadIdentity_def Let_def)
qed

text \<open>The registry writes only its own files and their temporary copies.\<close>

definition registry_files :: "string \<Rightarrow> string set" where
  "registry_files p = {p, p @ ''.tmp'', p @ ''.allowlist.json'', p @ ''.allowlist.json.tmp''}"

lemma store_exec_frame:
  assumes "store_laws F ren" and "store_exec mk F ren J op s = (r, s')"
    and "regPath (stRegistry s) = p" and "allowlistPath (stRegistry s) = p @ ''.allowlist.json''" and "q \<notin> registry_files p"
  shows "content F q (stFiles s') = content F q (stFiles s) \<and> regPath (stRegistry s') = p
    \<and> allowlistPath (stRegistry s') = p @ ''.allowlist.json''"
proof (cases op)
  case (Call now c)
  then show ?thesis using assms(2-4) exec_paths [of mk now c "stRegistry s"] by auto
next
  case SaverRuns
  obtain x f where save: "saveNow F ren J (stRegistry s) (stFiles s) = (x, f)" by fastforce
  have "content F q f = content F q (stFiles s)"
    using peers_file.others [OF assms(1), of "(J, stRegistry s)" "stFiles s" x f q] save assms(3,5) by (simp add: registry_files_def)
  then show ?thesis using SaverRuns assms(2-4) save by (auto simp: run_saver_def split: if_splits)
next
  case (AllowKey k)
  let ?s = "change_keys (insert k) s"
  obtain x f where save: "saveAllowedPublicKeys F ren J (stRegistry ?s) (stFiles ?s) = (x, f)" by fastforce
  have "content F q f = content F q (stFiles s)"
    using keys_file.others [OF assms(1), of "(J, stRegistry ?s)" "stFiles ?s" x f q] save assms(4,5)
    by (simp add: registry_files_def change_keys_def)
  then show ?thesis using AllowKey assms(2-4) save by (auto simp: AllowPublicKey_def save_keys_def change_keys_def)
next
  case (RevokeKey k)
  let ?s = "change_keys (\<lambda>ks. ks - {k}) s"
  obtain x f where save: "saveAllowedPublicKeys F ren J (stRegistry ?s) (stFiles ?s) = (x, f)" by fastforce
  have "content F q f = content F q (stFiles s)"
    using keys_file.others [OF assms(1), of "(J, stRegistry ?s)" "stFiles ?s" x f q] save assms(4,5)
    by (simp add: registry_files_def change_keys_def)
  then show ?thesis using RevokeKey assms(2-4) save by (auto simp: RevokePublicKey_def save_keys_def change_keys_def)
qed (use assms(2-4) in \<open>auto simp: timer_fires_def clear_flags_def\<close>)

lemma store_run_frame:
  assumes "store_laws F ren" and "store_run mk F ren J ops s = (rs, s')"
    and "regPath (stRegistry s) = p" and "allowlistPath (stRegistry s) = p @ ''.allowlist.json''" and "q \<notin> registry_files p"
  shows "content F q (stFiles s') = content F q (stFiles s)"
  using assms(2-4)
proof (induction ops arbitrary: s rs)
  case (Cons op ops)
  obtain r s1 where step: "store_exec mk F ren J op s = (r, s1)" by fastforce
  obtain rs1 where rest: "store_run mk F ren J ops s1 = (rs1, s')" using Cons.prems(1) step by (auto split: prod.splits)
  show ?case using Cons.IH [OF rest] store_exec_frame [OF assms(1) step Cons.prems(2,3) assms(5)] by simp
qed simp

lemma NewNodeManager_loaded:
  assumes "NewNodeManagerWithPaths K F J keyPath configPath f = Ok nm" and "HasIdentity nm"
  shows "loadIdentity K F J f \<lparr>nmIdentity = None, nmPrivateKey = None, nmKeyPair = None, nmKeyPath = keyPath, nmConfigPath = configPath\<rparr> = (Ok (), nm)"
  using assms by (auto simp: NewNodeManagerWithPaths_def loadIdentity_def HasIdentity_def Let_def split: result.splits prod.splits)

lemma NewService_Ok:
  assumes "NewService h opts f = Ok sv"
  shows "nodeManagerForOptions h opts f = Ok (svNodeManager sv)"
    and "peerRegistryForOptions h opts f = Ok (trRegistry (svTransport sv))"
  using assms by (auto simp: NewService_def NewController_def NewTransport_def OnMessage_def Let_def)


definition service_host :: "(bytes, bytes, bytes, unit, string \<Rightarrow> string option) host" where
  "service_host = \<lparr>hoKeys = plain_keys [1], hoFS = map_fs, hoRename = map_rename, hoIdentityJSON = one_identity (node_identity ''me'' [1]),
     hoRegistryJSON = one_list_json [added_peer 1 example_peer], hoTree = (\<lambda>_. None), hoKeyPath = Fail EOF, hoConfigPath = Fail EOF,
     hoPeersPath = Fail EOF, hoNow = 0, hoErrorJoin = (\<lambda>a b. a)\<rparr>"

definition service_options :: ServiceOptions where
  "service_options = zero_options\<lparr>soKeyPath := ''key'', soConfigPath := ''cfg'', soPeersPath := ''peers''\<rparr>"


section \<open>Requests over the transport\<close>

text \<open>
  What \<^verbatim>\<open>sendRequest\<close> relies on of a transport: \<open>conn\<close> is the connection filed under an identifier,
  \<open>frames\<close> what has been written so far, and \<open>carried\<close> says that a frame written on a connection is that
  message. Connecting files the connection under the identifier it returns and writes no frame of its
  own; a send that succeeds writes one frame on the connection filed under its addressee, any other none.
\<close>

locale request_link =
  fixes T :: "'s transport" and conn :: "string \<Rightarrow> 's \<Rightarrow> nat option" and frames :: "'s \<Rightarrow> (nat \<times> bytes) list"
    and carried :: "'s \<Rightarrow> nat \<Rightarrow> Message \<Rightarrow> bytes \<Rightarrow> bool"
  assumes connected_iff: "tpConnected T i s \<longleftrightarrow> conn i s \<noteq> None"
    and connect_files: "tpConnect T p s = (Ok i, s') \<Longrightarrow> conn i s' \<noteq> None"
    and connect_quiet: "tpConnect T p s = (rc, s') \<Longrightarrow> frames s' = frames s"
    and send_writes: "tpSend T i m s = (Ok (), s') \<Longrightarrow> \<exists>c d. conn i s = Some c \<and> frames s' = frames s @ [(c, d)] \<and> carried s c m d"
    and send_quiet: "tpSend T i m s = (r, s') \<Longrightarrow> \<not> is_Ok r \<Longrightarrow> frames s' = frames s"
    and await_quiet: "tpAwait T i d s = (r', s') \<Longrightarrow> frames s' = frames s"
begin

lemma sent_on:
  assumes "cmd_then (cmd_map_err send_failed (tpSend T i m)) (\<lambda>_. tpAwait T (mID m) limit) s = (r, s')"
  shows "(\<not> is_Ok r \<and> frames s' = frames s) \<or> (\<exists>c d. conn i s = Some c \<and> frames s' = frames s @ [(c, d)] \<and> carried s c m d)"
proof -
  obtain x s1 where send: "tpSend T i m s = (x, s1)" by fastforce
  show ?thesis
  proof (cases x)
    case (Ok u)
    then have "tpAwait T (mID m) limit s1 = (r, s')" using assms send by (simp add: cmd_map_err_def cmd_then_def)
    then show ?thesis using send_writes [of i m s s1] await_quiet [of "mID m" limit s1 r s'] send Ok by auto
  qed (use assms send send_quiet [OF send] in \<open>auto simp: cmd_map_err_def cmd_then_def\<close>)
qed

lemma request_frame:
  assumes "sendRequest T peerID m limit s = (r, s')"
  shows "(\<not> is_Ok r \<and> frames s' = frames s)
    \<or> (\<exists>i c d s1. conn i s1 = Some c \<and> frames s' = frames s @ [(c, d)]
        \<and> carried s1 c (if conn peerID s = None then m\<lparr>mTo := i\<rparr> else m) d
        \<and> (if conn peerID s = None then \<exists>p. tpGetPeer T peerID s = Some p \<and> tpConnect T p s = (Ok i, s1) else i = peerID \<and> s1 = s))"
proof (cases "tpConnected T peerID s")
  case True
  then have "cmd_then (cmd_map_err send_failed (tpSend T peerID m)) (\<lambda>_. tpAwait T (mID m) limit) s = (r, s')"
    using assms by (simp add: sendRequest_def)
  from sent_on [OF this] show ?thesis using True connected_iff by auto
next
  case False
  show ?thesis
  proof (cases "tpGetPeer T peerID s")
    case None
    then show ?thesis using assms False by (auto simp: sendRequest_def)
  next
    case (Some p)
    obtain x s1 where con: "tpConnect T p s = (x, s1)" by fastforce
    show ?thesis
    proof (cases x)
      case (Ok i)
      then have "cmd_then (cmd_map_err send_failed (tpSend T i (m\<lparr>mTo := i\<rparr>))) (\<lambda>_. tpAwait T (mID (m\<lparr>mTo := i\<rparr>)) limit) s1 = (r, s')"
        using assms False Some con by (simp add: sendRequest_def cmd_map_err_def)
      from sent_on [OF this] show ?thesis using False Some con Ok connected_iff connect_quiet [OF con] by auto
    qed (use assms False Some con connect_quiet [OF con] in \<open>auto simp: sendRequest_def cmd_map_err_def\<close>)
  qed
qed

end

text \<open>
  The transport of a node behind this interface: \<open>am\<close> and \<open>am'\<close> are what connecting and sending observe,
  \<open>c\<close> the reference of the connection made, \<open>resp\<close> what the wait for the response returns.
\<close>

definition net_transport :: "('any, 'c, 'kp, 'pk, 'sk, 'kd) crypto \<Rightarrow> ambient \<Rightarrow> ambient \<Rightarrow> unit result \<Rightarrow> (bytes \<Rightarrow> unit result \<times> bytes result)
    \<Rightarrow> nat \<Rightarrow> Message result \<Rightarrow> 'kd Transport transport" where
  "net_transport cr am am' dialed exchange c resp =
     \<lparr>tpConnected = (\<lambda>i t. GetConnection i t \<noteq> None),
      tpGetPeer = (\<lambda>i t. GetPeer i (trRegistry t)),
      tpConnect = (\<lambda>peer t.
        case Connect cr am dialed exchange c peer t of
          (Ok k, t') \<Rightarrow> (case trHeap t' k of Some pc \<Rightarrow> (Ok (ID (pcPeer pc)), t') | None \<Rightarrow> (Panic NilDereference, t'))
        | (Fail e, t') \<Rightarrow> (Fail e, t')
        | (Panic p, t') \<Rightarrow> (Panic p, t')),
      tpSend = SendTo cr am',
      tpAwait = (\<lambda>_ _ t. (resp, t)),
      tpClose = (\<lambda>i t. case GetConnection i t of Some k \<Rightarrow> CloseConn am k t | None \<Rightarrow> (Panic NilDereference, t))\<rparr>"

text \<open>The frame is the encryption of the message under the secret of the connection.\<close>

definition encrypts :: "('any, 'c, 'kp, 'pk, 'sk, 'kd) crypto \<Rightarrow> ambient \<Rightarrow> 'kd Transport \<Rightarrow> nat \<Rightarrow> Message \<Rightarrow> bytes \<Rightarrow> bool" where
  "encrypts cr am t c m data =
     (case trHeap t c of
        None \<Rightarrow> False
      | Some pc \<Rightarrow> encryptMessage (crJSON cr) (crAEAD cr) (amRandom am) m (case pcSecret pc of None \<Rightarrow> [] | Some k \<Rightarrow> k) = Ok data)"

lemma SendTo_Ok:
  assumes "SendTo cr am i m t = (Ok (), t')"
  shows "\<exists>c d. GetConnection i t = Some c \<and> trWire t' = trWire t @ [(c, d)] \<and> encrypts cr am t c m d"
  using assms
  by (auto simp: SendTo_def SendConn_def cmd_then_def encrypts_def markActivity_def with_conn_def split: option.splits result.splits)

lemma SendTo_quiet: "SendTo cr am i m t = (r, t') \<Longrightarrow> \<not> is_Ok r \<Longrightarrow> trWire t' = trWire t"
  by (auto simp: SendTo_def SendConn_def cmd_then_def split: option.splits result.splits)

lemma handshake_wire: "performHandshake cr am exchange peer (p, t) = (r, (p', t')) \<Longrightarrow> trWire t' = trWire t"
  by (auto simp: performHandshake_def Let_def cmd_then_def split: option.splits result.splits prod.splits)

lemma Connect_cases:
  assumes "Connect cr am dialed exchange c peer t = (r, t')"
  obtains (made) peer' k t1 where "performHandshake cr am exchange peer (peer, t) = (Ok k, (peer', t1))" "r = Ok c"
      "t' = storeConnection (amNow am) c \<lparr>pcPeer = peer', pcSecret = Some k, pcLastActivity = amNow am,
        pcLimiter = new_limiter (amNow am), pcClosed = False\<rparr> t1"
    | (failed) "\<not> is_Ok r" "trWire t' = trWire t"
proof (cases dialed)
  case (Ok u)
  obtain x p' t1 where run: "performHandshake cr am exchange peer (peer, t) = (x, (p', t1))" by (metis prod.collapse)
  show ?thesis
  proof (cases x)
    case (Ok k)
    then show ?thesis using made run assms \<open>dialed = Ok u\<close> by (simp add: Connect_def cmd_then_def)
  qed (use failed run assms Ok handshake_wire [OF run] in \<open>auto simp: Connect_def cmd_then_def\<close>)
qed (use assms failed in \<open>auto simp: Connect_def cmd_then_def\<close>)

lemma net_connect:
  assumes "tpConnect (net_transport cr am am' dialed exchange c resp) p t = (r, t')"
  shows "trWire t' = trWire t" and "r = Ok i \<Longrightarrow> GetConnection i t' = Some c"
    and "r = Ok i \<Longrightarrow> Connect cr am dialed exchange c p t = (Ok c, t')"
proof -
  obtain k t1 where run: "Connect cr am dialed exchange c p t = (k, t1)" by fastforce
  have eq: "(r, t') = (case k of
      Ok k \<Rightarrow> (case trHeap t1 k of Some pc \<Rightarrow> (Ok (ID (pcPeer pc)), t1) | None \<Rightarrow> (Panic NilDereference, t1))
    | Fail e \<Rightarrow> (Fail e, t1) | Panic q \<Rightarrow> (Panic q, t1))"
    using assms run by (simp add: net_transport_def)
  from run have "trWire t' = trWire t \<and> (r = Ok i \<longrightarrow> GetConnection i t' = Some c \<and> Connect cr am dialed exchange c p t = (Ok c, t'))"
  proof (cases rule: Connect_cases)
    case (made peer' s t2)
    then show ?thesis using eq run handshake_wire [OF made(1)]
      by (auto simp: storeConnection_def GetConnection_def update_conv')
  next
    case failed
    then show ?thesis using eq by (cases k) auto
  qed
  then show "trWire t' = trWire t" "r = Ok i \<Longrightarrow> GetConnection i t' = Some c"
    "r = Ok i \<Longrightarrow> Connect cr am dialed exchange c p t = (Ok c, t')" by simp_all
qed

interpretation node_link: request_link "net_transport cr am am' dialed exchange c resp" GetConnection trWire "encrypts cr am'"
proof
  fix i p m d rc r r' s s'
  show "tpConnected (net_transport cr am am' dialed exchange c resp) i s \<longleftrightarrow> GetConnection i s \<noteq> None"
    by (simp add: net_transport_def)
  show "GetConnection i s' \<noteq> None" if "tpConnect (net_transport cr am am' dialed exchange c resp) p s = (Ok i, s')"
    using net_connect(2) [OF that] by simp
  show "trWire s' = trWire s" if "tpConnect (net_transport cr am am' dialed exchange c resp) p s = (rc, s')"
    using net_connect(1) [OF that] .
  show "\<exists>c d. GetConnection i s = Some c \<and> trWire s' = trWire s @ [(c, d)] \<and> encrypts cr am' s c m d"
    if "tpSend (net_transport cr am am' dialed exchange c resp) i m s = (Ok (), s')"
    using SendTo_Ok [of cr am' i m s s'] that by (simp add: net_transport_def)
  show "trWire s' = trWire s" if "tpSend (net_transport cr am am' dialed exchange c resp) i m s = (r, s')" "\<not> is_Ok r"
    using SendTo_quiet [of cr am' i m s r s'] that by (simp add: net_transport_def)
  show "trWire s' = trWire s" if "tpAwait (net_transport cr am am' dialed exchange c resp) i d s = (r', s')"
    using that by (simp add: net_transport_def)
qed

text \<open>
  C18. A request puts at most one frame on the wire, and none if it fails before the send. The frame is
  the encryption of the message under the secret of the connection it is written on. If the peer was
  connected, that is the peer's connection and the message is the caller's; otherwise it is the
  connection just made to the peer the registry knows under the identifier, and the message is
  addressed to the identifier that the handshake found at the other end.
\<close>

theorem request_on_wire:
  assumes "sendRequest (net_transport cr am am' dialed exchange c resp) peerID m limit t = (r, t')"
  shows "(\<not> is_Ok r \<and> trWire t' = trWire t)
    \<or> (\<exists>i k d t1. GetConnection i t1 = Some k \<and> trWire t' = trWire t @ [(k, d)]
        \<and> (if GetConnection peerID t = None
           then k = c \<and> encrypts cr am' t1 k (m\<lparr>mTo := i\<rparr>) d
             \<and> (\<exists>p. GetPeer peerID (trRegistry t) = Some p \<and> Connect cr am dialed exchange c p t = (Ok c, t1))
           else i = peerID \<and> t1 = t \<and> encrypts cr am' t k m d))"
proof -
  let ?T = "net_transport cr am am' dialed exchange c resp"
  have peer: "tpGetPeer ?T peerID t = GetPeer peerID (trRegistry t)" by (simp add: net_transport_def)
  from node_link.request_frame [OF assms] show ?thesis
  proof (elim disjE exE conjE)
    fix i k d t1
    assume at: "GetConnection i t1 = Some k" "trWire t' = trWire t @ [(k, d)]"
      "encrypts cr am' t1 k (if GetConnection peerID t = None then m\<lparr>mTo := i\<rparr> else m) d"
      "if GetConnection peerID t = None then \<exists>p. tpGetPeer ?T peerID t = Some p \<and> tpConnect ?T p t = (Ok i, t1) else i = peerID \<and> t1 = t"
    show ?thesis
    proof (cases "GetConnection peerID t = None")
      case True
      then obtain p where p: "GetPeer peerID (trRegistry t) = Some p" "tpConnect ?T p t = (Ok i, t1)" using at(4) peer by auto
      then show ?thesis using True at net_connect(2,3) [OF p(2), of i]
        by (intro disjI2 exI [of _ i] exI [of _ k] exI [of _ d] exI [of _ t1]) simp
    next
      case False
      then show ?thesis using at by (intro disjI2 exI [of _ i] exI [of _ k] exI [of _ d] exI [of _ t1]) simp
    qed
  qed simp
qed

theorem request_on_wire_witness:
  "\<exists>d t'. sendRequest (net_transport receiver_crypto (ambient_example []) (ambient_example []) (Fail EOF) (\<lambda>_. (Fail EOF, Fail EOF)) 9 (Ok example_response))
       ''p1'' example_ping 5 sender_example = (Ok example_response, t')
     \<and> trWire t' = [(7, d)] \<and> encrypts receiver_crypto (ambient_example []) sender_example 7 example_ping d"
proof -
  let ?T = "net_transport receiver_crypto (ambient_example []) (ambient_example []) (Fail EOF) (\<lambda>_. (Fail EOF, Fail EOF)) 9 (Ok example_response)"
  let ?pc = "\<lparr>pcPeer = example_peer, pcSecret = Some (replicate 32 5), pcLastActivity = 0, pcLimiter = new_limiter 0, pcClosed = False\<rparr>"
  have seals: "seals (crAEAD receiver_crypto) (amRandom (ambient_example []))"
    unfolding receiver_crypto_def ambient_example_def by simp (rule tag_aead_seals, simp)
  have msg: "wire_faithful (crJSON receiver_crypto) (crEnvelope receiver_crypto) example_ping"
    by (simp add: receiver_crypto_def message_json_faithful example_ping_def)
  have at: "GetConnection ''p1'' sender_example = Some 7" "trHeap sender_example 7 = Some ?pc" "trWire sender_example = []"
    by (simp_all add: sender_example_def receiver_example_def GetConnection_def server_example_def NewTransport_def)
  obtain t' where "SendTo receiver_crypto (ambient_example []) ''p1'' example_ping sender_example = (Ok (), t')"
    using SendConn_carries [OF seals msg at(2)] at(1) by (auto simp: SendTo_def ambient_example_def sharedSecretSize_def)
  then have run: "sendRequest ?T ''p1'' example_ping 5 sender_example = (Ok example_response, t')"
    using at(1) by (simp add: sendRequest_def net_transport_def cmd_map_err_def)
  from request_on_wire [OF run] show ?thesis using run at by auto
qed

end
