(* ===== verification/Logging.thy ===== *)
theory Logging
  imports P2P_Prelude
begin

text \<open>
  The logger, \<^verbatim>\<open>src/go/logging/logger.go\<close>.

  Loggers are heap objects, because the global logger is shared by reference; \<open>lwLines\<close> is what has been
  written to each output. The formatted time is an argument of a call, as is \<open>fmt\<close>, the library's text of
  a field value; the formatting functions take the formatted message. The fields of a call are the
  association list in which the map is iterated.
\<close>

section \<open>Levels\<close>

type_synonym Level = int

definition LevelDebug :: Level where "LevelDebug = 0"
definition LevelInfo :: Level where "LevelInfo = 1"
definition LevelWarn :: Level where "LevelWarn = 2"
definition LevelError :: Level where "LevelError = 3"

lemmas level_defs = LevelDebug_def LevelInfo_def LevelWarn_def LevelError_def

definition Level_String :: "Level \<Rightarrow> string" where
  "Level_String l =
     (if l = LevelDebug then ''DEBUG'' else if l = LevelInfo then ''INFO'' else if l = LevelWarn then ''WARN''
      else if l = LevelError then ''ERROR'' else ''UNKNOWN'')"

text \<open>\<open>upper\<close> is the library's conversion to upper case.\<close>

definition ParseLevel :: "(string \<Rightarrow> string) \<Rightarrow> string \<Rightarrow> Level result" where
  "ParseLevel upper s =
     (let u = upper s in
      if u = ''DEBUG'' then Ok LevelDebug
      else if u = ''INFO'' then Ok LevelInfo
      else if u = ''WARN'' \<or> u = ''WARNING'' then Ok LevelWarn
      else if u = ''ERROR'' then Ok LevelError
      else Fail (E ''logging.ParseLevel'' (''unknown log level: '' @ s) None))"

section \<open>Loggers\<close>

record Logger =
  lgOutput :: nat
  lgLevel :: Level
  lgComponent :: string

text \<open>The configuration; \<open>None\<close> is a nil output, for which the standard error output \<open>0\<close> is used.\<close>

record Config =
  cfOutput :: "nat option"
  cfLevel :: Level
  cfComponent :: string

definition DefaultConfig :: Config where
  "DefaultConfig = \<lparr>cfOutput = Some 0, cfLevel = LevelInfo, cfComponent = []\<rparr>"

definition New :: "Config \<Rightarrow> Logger" where
  "New cfg = \<lparr>lgOutput = (case cfOutput cfg of None \<Rightarrow> 0 | Some w \<Rightarrow> w), lgLevel = cfLevel cfg, lgComponent = cfComponent cfg\<rparr>"

record log_world =
  lwLoggers :: "Logger list"
  lwGlobal :: nat
  lwLines :: "(nat \<times> string) list"

definition initial_world :: log_world where
  "initial_world = \<lparr>lwLoggers = [New DefaultConfig], lwGlobal = 0, lwLines = []\<rparr>"

text \<open>Making a logger gives its reference.\<close>

definition alloc :: "Logger \<Rightarrow> log_world \<Rightarrow> nat \<times> log_world" where
  "alloc l s = (length (lwLoggers s), s\<lparr>lwLoggers := lwLoggers s @ [l]\<rparr>)"

definition WithComponent :: "nat \<Rightarrow> string \<Rightarrow> log_world \<Rightarrow> nat \<times> log_world" where
  "WithComponent i component s =
     (let l = lwLoggers s ! i in alloc \<lparr>lgOutput = lgOutput l, lgLevel = lgLevel l, lgComponent = component\<rparr> s)"

definition SetLevel :: "nat \<Rightarrow> Level \<Rightarrow> log_world \<Rightarrow> log_world" where
  "SetLevel i level s = s\<lparr>lwLoggers := (lwLoggers s)[i := (lwLoggers s ! i)\<lparr>lgLevel := level\<rparr>]\<rparr>"

definition GetLevel :: "nat \<Rightarrow> log_world \<Rightarrow> Level" where
  "GetLevel i s = lgLevel (lwLoggers s ! i)"

definition log_line :: "('v \<Rightarrow> string) \<Rightarrow> string \<Rightarrow> string \<Rightarrow> Level \<Rightarrow> string \<Rightarrow> (string \<times> 'v) list \<Rightarrow> string" where
  "log_line fmt timestamp component level msg kvs =
     timestamp @ '' ['' @ Level_String level @ '']''
     @ (if component \<noteq> [] then '' ['' @ component @ '']'' else [])
     @ '' '' @ msg
     @ (if kvs \<noteq> [] then '' |'' @ concat (map (\<lambda>(k, v). '' '' @ k @ ''='' @ fmt v) kvs) else [])
     @ [CHR 0x0A]"

text \<open>A failure of the write itself is ignored, so a line counts as written when it is handed to the output.\<close>

definition log_at :: "('v \<Rightarrow> string) \<Rightarrow> string \<Rightarrow> nat \<Rightarrow> Level \<Rightarrow> string \<Rightarrow> (string \<times> 'v) list \<Rightarrow> log_world \<Rightarrow> log_world" where
  "log_at fmt timestamp i level msg kvs s =
     (let l = lwLoggers s ! i in
      if level < lgLevel l then s
      else s\<lparr>lwLines := lwLines s @ [(lgOutput l, log_line fmt timestamp (lgComponent l) level msg kvs)]\<rparr>)"

definition mergeFields :: "(string \<times> 'v) list list \<Rightarrow> (string \<times> 'v) list" where
  "mergeFields fs = fold (fold (\<lambda>(k, v). AList.update k v)) fs []"

text \<open>\<^verbatim>\<open>Debug\<close>, \<^verbatim>\<open>Info\<close>, \<^verbatim>\<open>Warn\<close> and \<^verbatim>\<open>Error\<close> are these functions at their level.\<close>

definition Log :: "Level \<Rightarrow> ('v \<Rightarrow> string) \<Rightarrow> string \<Rightarrow> nat \<Rightarrow> string \<Rightarrow> (string \<times> 'v) list list \<Rightarrow> log_world \<Rightarrow> log_world" where
  "Log level fmt timestamp i msg fs = log_at fmt timestamp i level msg (mergeFields fs)"

definition Logf :: "Level \<Rightarrow> string \<Rightarrow> nat \<Rightarrow> string \<Rightarrow> log_world \<Rightarrow> log_world" where
  "Logf level timestamp i formatted = log_at (\<lambda>v. v) timestamp i level formatted []"

subsection \<open>The global logger\<close>

definition SetGlobal :: "nat \<Rightarrow> log_world \<Rightarrow> log_world" where
  "SetGlobal i s = s\<lparr>lwGlobal := i\<rparr>"

definition GetGlobal :: "log_world \<Rightarrow> nat" where
  "GetGlobal s = lwGlobal s"

definition SetGlobalLevel :: "Level \<Rightarrow> log_world \<Rightarrow> log_world" where
  "SetGlobalLevel level s = SetLevel (lwGlobal s) level s"

definition GlobalLog :: "Level \<Rightarrow> ('v \<Rightarrow> string) \<Rightarrow> string \<Rightarrow> string \<Rightarrow> (string \<times> 'v) list list \<Rightarrow> log_world \<Rightarrow> log_world" where
  "GlobalLog level fmt timestamp msg fs s = Log level fmt timestamp (GetGlobal s) msg fs s"

definition GlobalLogf :: "Level \<Rightarrow> string \<Rightarrow> string \<Rightarrow> log_world \<Rightarrow> log_world" where
  "GlobalLogf level timestamp formatted s = Logf level timestamp (GetGlobal s) formatted s"

section \<open>Properties\<close>

text \<open>Every level parses back from its name, if the names are their own upper case.\<close>

lemma ParseLevel_String:
  assumes "LevelDebug \<le> l" and "l \<le> LevelError" and "upper (Level_String l) = Level_String l"
  shows "ParseLevel upper (Level_String l) = Ok l"
proof -
  have "l = 0 \<or> l = 1 \<or> l = 2 \<or> l = 3" using assms(1,2) by (auto simp: level_defs)
  then show ?thesis using assms(3) by (auto simp: ParseLevel_def Level_String_def level_defs Let_def)
qed

text \<open>A later set of fields overrides an earlier one.\<close>

lemma mergeFields_last: "map_of (mergeFields (fs @ [f])) k = (case map_of (rev f) k of None \<Rightarrow> map_of (mergeFields fs) k | Some v \<Rightarrow> Some v)"
proof -
  have "map_of (fold (\<lambda>(k, v). AList.update k v) f al) k = (case map_of (rev f) k of None \<Rightarrow> map_of al k | Some v \<Rightarrow> Some v)" for al
    by (induction f arbitrary: al rule: rev_induct) (auto simp: update_conv' split: option.splits)
  then show ?thesis unfolding mergeFields_def by simp
qed

text \<open>
  A call on a logger writes exactly one line, to the logger's output, when its level is at least the
  level last set on that logger, whether it was set through the reference or as the global logger, and
  nothing otherwise; loggers derived from it earlier keep their own level.
\<close>

theorem log_filter:
  assumes "i < length (lwLoggers s)"
  shows "lwLines (Log level fmt ts i msg fs (SetLevel j minimum s)) =
      lwLines s @ (if (if i = j then minimum else GetLevel i s) \<le> level
        then [(lgOutput (lwLoggers s ! i), log_line fmt ts (lgComponent (lwLoggers s ! i)) level msg (mergeFields fs))] else [])"
  using assms by (cases "i = j") (auto simp: Log_def log_at_def SetLevel_def GetLevel_def Let_def)

corollary global_log_filter:
  assumes "lwGlobal s < length (lwLoggers s)"
  shows "lwLines (GlobalLog level fmt ts msg fs (SetGlobalLevel minimum s)) =
      lwLines s @ (if minimum \<le> level then [(lgOutput (lwLoggers s ! lwGlobal s),
        log_line fmt ts (lgComponent (lwLoggers s ! lwGlobal s)) level msg (mergeFields fs))] else [])"
  using log_filter [OF assms, of level fmt ts msg fs "lwGlobal s" minimum]
  by (simp add: GlobalLog_def GetGlobal_def SetGlobalLevel_def SetLevel_def)

end
