(* ===== verification/Spec2Isabelle.thy ===== *)
theory Spec2Isabelle
  imports Levin_Varint Levin_Header Levin_Connection Levin_Decode UEPS Dispatcher Transport_Guards
    Peer_Registry Messages Bundles Worker_Ops Controller_Ops Node_Identity Secure_Channel Transport_Net
    Transport_Link Peer_Store Content_Bus HTTP_API Node_Service Logging
begin

text \<open>
  A verification library for the Go module \<^verbatim>\<open>dappco.re/go/p2p\<close>: a peer-to-peer node with encrypted
  connections, remote control of workers, a content bus, an HTTP surface, and two binary wire formats.
  Paths below are relative to \<^verbatim>\<open>src/go\<close>.

  \<^bold>\<open>The program.\<close> A node has an identity (\<^verbatim>\<open>node/identity.go\<close>, \<^verbatim>\<open>node/keyderiv.go\<close>) and a registry of
  peers (\<^verbatim>\<open>node/peer.go\<close>), both kept in files. The transport (\<^verbatim>\<open>node/transport.go\<close>) accepts and dials web
  socket connections, agrees on a secret in a handshake, and hands each message it can decrypt to one
  handler, behind a deduplicator and a rate limiter. The handler is the worker (\<^verbatim>\<open>node/worker.go\<close>, which
  answers requests and installs deployment bundles of \<^verbatim>\<open>node/bundle.go\<close>), the controller
  (\<^verbatim>\<open>node/controller.go\<close>, which matches responses with its requests) or the content bus
  (\<^verbatim>\<open>pkg/contentbus\<close>). The service (\<^verbatim>\<open>node/service.go\<close>) builds these from options. UEPS packets
  (\<^verbatim>\<open>ueps\<close>) go through the dispatcher (\<^verbatim>\<open>node/dispatcher.go\<close>); the Levin protocol (\<^verbatim>\<open>node/levin\<close>) stands
  on its own. \<^verbatim>\<open>pkg/api\<close> shows the registry over HTTP, and \<^verbatim>\<open>logging\<close> serves all.

  \<^bold>\<open>Theories, in the order of their imports.\<close>
  \<^item> \<^verbatim>\<open>P2P_Prelude\<close>: results (\<open>Ok\<close>, \<open>Fail\<close>, \<open>Panic\<close>) and calls that change a state, Go strings, iterators,
    \<^verbatim>\<open>encoding/binary\<close>, \<^verbatim>\<open>io.ReadFull\<close>; the locales \<open>fixed_codec\<close> and \<open>prefix_codec\<close> with the lemmas on
    layouts that the wire formats share.
  \<^item> \<^verbatim>\<open>Float64\<close>: \<^verbatim>\<open>float64\<close> arithmetic and comparison with rounding, infinities and not-a-number.
  \<^item> \<^verbatim>\<open>Levin_Varint\<close>, \<^verbatim>\<open>Levin_Header\<close>, \<^verbatim>\<open>Levin_Storage\<close>, \<^verbatim>\<open>Levin_Decode\<close>, \<^verbatim>\<open>Levin_Connection\<close>: one theory per
    file of \<^verbatim>\<open>node/levin\<close>, the storage format split into encoder and decoder. Round trips of varints,
    headers and sections; a reference definition of the varint decoder; what the decoder returns is well
    formed, and the one place where it can panic; reads never exceed the announced and allowed sizes;
    the reader gets the packets written; concurrent writers do not interleave their frames.
  \<^item> \<^verbatim>\<open>Sha256_Hmac\<close>, \<^verbatim>\<open>UEPS\<close>: executable SHA-256, HMAC and HKDF-Expand; the packet builder and reader. The
    reader accepts a stream exactly if it starts with a field list whose HMAC is right (an equivalence with a
    specification on field lists), and reads what the builder wrote.
  \<^item> \<^verbatim>\<open>Dispatcher\<close>: which handler runs on a packet, and every refusal.
  \<^item> \<^verbatim>\<open>Transport_Guards\<close>: \<^verbatim>\<open>MessageDeduplicator\<close> refines a set of recent identifiers; \<^verbatim>\<open>PeerRateLimiter\<close> never
    lets more than its burst and the refill of a window through, and recovers.
  \<^item> \<^verbatim>\<open>Peer_Registry\<close>: the operations on peers in memory, scores, selection, iterators. The invariant of the
    registry over all operations, the order of \<^verbatim>\<open>slices.SortFunc\<close> (locale \<open>strict_weak_cmp\<close>), optimality of the
    selections; the locale \<open>peer_directory\<close> is what the transport relies on.
  \<^item> \<^verbatim>\<open>Messages\<close>, \<^verbatim>\<open>Bundles\<close>, \<^verbatim>\<open>Worker_Ops\<close>: messages and payloads; bundles, of which extraction writes only
    below its target directory, and all of it; every handler of the worker and the answer it sends.
  \<^item> \<^verbatim>\<open>Controller_Ops\<close>: the table of pending requests under all interleavings of requests, timeouts and
    responses, as a step relation with an invariant and a termination measure; the remote operations,
    composed with the worker's.
  \<^item> \<^verbatim>\<open>Node_Identity\<close>, \<^verbatim>\<open>Secure_Channel\<close>: keys, challenges and identity files; encryption of messages, the
    sealed and the signed form (\<^verbatim>\<open>node/envelope.go\<close>), and that an accepted message is authentic.
  \<^item> \<^verbatim>\<open>Transport_Net\<close>, \<^verbatim>\<open>Transport_Link\<close>: the transport of one node, with the invariant of its connection
    table, delivery at most once, and both sides of the handshake; then two transports at the ends of a
    connection, where a message sent is the message received.
  \<^item> \<^verbatim>\<open>Peer_Store\<close>: the debounced save, the allowlist file, loading. Saved files are old or new, never torn
    (locale \<open>atomic_saver\<close>, for both files); a restart finds the registry again.
  \<^item> \<^verbatim>\<open>Content_Bus\<close>: options, subscriptions, publishing, closing. Each subscription refines a bounded queue;
    a published event reaches the subscribers of connected nodes; no interleaving panics.
  \<^item> \<^verbatim>\<open>HTTP_API\<close>, \<^verbatim>\<open>Node_Service\<close>, \<^verbatim>\<open>Logging\<close>: the handlers and routes; construction, start and stop of a
    node, what a request of the controller puts on the wire (locale \<open>request_link\<close>, interpreted on the
    transport); levels, fields and the global logger.
  \<^item> This theory: a packet from its signer through the reader to the handler.

  \<^bold>\<open>How the code is represented.\<close> A struct is a record, an operation a function from the state to its
  result and the new state, with one branch per return, error or panic of the code. Objects the code
  shares by pointer (connections, channels, loggers) live in a heap and are named by references. Go maps
  are association lists or HOL maps; where the code ranges over one, the order is that of the list, and no
  theorem fixes it. Bytes and wire integers are words of their width; counters and lengths that stay
  below the width of \<^verbatim>\<open>int\<close> are natural numbers or integers. Times are integers in nanoseconds, the zero
  time is \<open>None\<close>, and a clock reading is an argument. A function that holds a lock for all of its body is
  one step; where the code releases a lock between two actions and a theorem speaks of concurrent calls,
  the actions are steps of an inductive relation (\<open>table_step\<close>, \<open>bus_step\<close>, \<open>allow_step\<close>, \<open>writer_step\<close>).

  \<^bold>\<open>What is assumed of other code.\<close> The core library, Borg, poindexter, the JSON and cryptographic
  libraries, UUIDs, the web socket, the web framework and the file system are arguments, collected in
  records (\<open>json\<close>, \<open>crypto\<close>, \<open>ambient\<close>, \<open>paths\<close>, \<open>localfs\<close>, \<open>host\<close>). What a theorem needs of them is a named
  hypothesis: \<open>json_faithful\<close>, \<open>survives\<close>, \<open>wire_faithful\<close> and \<open>registry_json_laws\<close> (decoding gives what was
  encoded), \<open>path_laws\<close> (cleaning and joining of paths), \<open>fs_laws\<close> and \<open>store_laws\<close> (a file holds what was last
  written or renamed to it, and other files keep theirs), \<open>identity_laws\<close> (a stored key pair loads), \<open>aead_laws\<close>
  and \<open>seals\<close> (what was sealed opens), \<open>honest\<close> (both ends derive the same secret). No theorem assumes that a
  primitive cannot be forged: those on authenticity state which checks an accepted input has passed. Every
  numbered theorem with a hypothesis has a witness that instantiates it with concrete functions.

  \<^bold>\<open>Termination and bounds.\<close> No definition needs fuel: the mutually recursive encoder of the storage format is
  total by the size of what it encodes, its decoder and the packet reader by the length of the remaining
  input. Retry and background loops are modelled by their body, and theorems
  speak of any number of turns. The elapsed seconds of the rate limiter are exact up to \<open>2 ^ 23\<close> seconds
  of idling, and subscription numbers up to \<open>2 ^ 64\<close> subscriptions; both appear as hypotheses where needed.

  \<^bold>\<open>Not modelled.\<close> The listener, the TLS handshake and socket deadlines happen in the standard library's
  server; the configuration given to it is modelled. \<^verbatim>\<open>bufferPool\<close>, \<^verbatim>\<open>getBuffer\<close> and \<^verbatim>\<open>putBuffer\<close> only
  recycle memory. \<^verbatim>\<open>Close\<close> and \<^verbatim>\<open>RemoteAddr\<close> of a Levin connection call the socket and nothing else, and its
  command identifiers are numbers without behaviour. \<^verbatim>\<open>Handlers\<close> of the dispatcher and
  \<^verbatim>\<open>AllowedPublicKeys\<close> range over a map that is modelled. \<^verbatim>\<open>ValidateResponse\<close> and \<^verbatim>\<open>ParseResponse\<close> as package
  functions forward to the methods of the same name, and \<^verbatim>\<open>p2p.go\<close> to \<^verbatim>\<open>node/service.go\<close>. Lines that
  only log are left out, except in the dispatcher, whose log is part of its contract, and in \<^verbatim>\<open>Logging\<close>.
\<close>

section \<open>From the wire to a handler\<close>

text \<open>
  C16. A packet signed with the shared secret and sent in front of anything else is read, verified and
  dispatched: with a threat score above the threshold it is refused, logged and leaves the application
  untouched; otherwise exactly the handler registered for its intent runs on exactly its header and
  payload, and the rest of the stream is left for the next packet.
\<close>

theorem packet_delivery:
  assumes "MarshalAndSign p sharedSecret = Ok b"
    and "handlers d (IntentID (pbHeader p)) = Some (Some f)"
  shows "\<exists>pkt. ReadAndVerify sharedSecret (b @ rest) = (Ok pkt, rest)
    \<and> ppHeader pkt = pbHeader p \<and> ppPayload pkt = pbPayload p
    \<and> Dispatch (Some pkt) (d, s) =
        (if ThreatScore (pbHeader p) > 50000
         then (Fail ErrThreatScoreExceeded,
               d\<lparr>dlog := dlog d @ [ThreatDropped (ThreatScore (pbHeader p)) (IntentID (pbHeader p)) (Version (pbHeader p))]\<rparr>, s)
         else (fst (f pkt s), d, snd (f pkt s)))"
  using assms(2)
  by (simp add: ReadAndVerify_MarshalAndSign [OF assms(1)] Dispatch_def Let_def ThreatScoreThreshold_def
      call_handler_def split: prod.splits)

theorem packet_delivery_witness:
  "\<exists>b pkt. MarshalAndSign (NewBuilder 32 [1, 2]) [7] = Ok b \<and> ReadAndVerify [7] (b @ [9]) = (Ok pkt, [9])
     \<and> Dispatch (Some pkt) (RegisterHandler 32 (Some (\<lambda>q n. (Ok (), n + length (ppPayload q)))) NewDispatcher, 5)
        = (Ok (), RegisterHandler 32 (Some (\<lambda>q n. (Ok (), n + length (ppPayload q)))) NewDispatcher, 7)"
proof -
  let ?p = "NewBuilder 32 [1, 2]" and ?f = "\<lambda>q n. (Ok (), n + length (ppPayload q))"
  let ?d = "RegisterHandler 32 (Some ?f) NewDispatcher :: nat Dispatcher"
  obtain b where b: "MarshalAndSign ?p [7] = Ok b" by (simp add: MarshalAndSign_eq NewBuilder_def)
  have "handlers ?d (IntentID (pbHeader ?p)) = Some (Some ?f)" by (simp add: RegisterHandler_def NewBuilder_def)
  from packet_delivery [OF b this, of "[9]" 5] b show ?thesis by (auto simp: NewBuilder_def)
qed

end
